(* ===== verification/Prelude.thy ===== *)
theory Prelude
  imports
    Main
    "HOL-Library.Word"
    "HOL-Library.AList"
    "HOL-Library.Multiset"
    "HOL-Library.Char_ord"
    "HOL-Library.List_Lexorder"
begin

text \<open>
  Shared vocabulary of the development: the Go integer types, the three-way result of a Go call
  (a value, an error value, or a panic), the generic facts on lists and words that the component
  theories use, and the collections of rewrite rules they add to.
\<close>

section \<open>Go integer types\<close>

type_synonym byte = "8 word"
type_synonym uint32 = "32 word"
type_synonym uint64 = "64 word"

text \<open>A TCP/UDP port is a \<open>uint32\<close> throughout the sources.\<close>

type_synonym port = uint32

section \<open>Collections\<close>

named_theorems pool_simps \<open>unfolding rules for the operations of the resource pools\<close>
named_theorems frame_simps \<open>what an operation leaves unchanged\<close>

section \<open>Lists\<close>

lemma distinct_remove1_set [simp]: "distinct xs \<Longrightarrow> set (remove1 x xs) = set xs - {x}"
  by (induction xs) auto

lemma set_append_rotate: "set (drop n xs @ take n xs) = set xs"
  by (metis Un_commute append_take_drop_id set_append)

lemma distinct_append_rotate: "distinct xs \<Longrightarrow> distinct (drop n xs @ take n xs)"
  by (metis append_take_drop_id distinct_append inf_commute)

text \<open>The loop \<open>for i, x := range xs { if x == y { return i, true } }\<close>.\<close>

fun index_of :: "('a \<Rightarrow> bool) \<Rightarrow> 'a list \<Rightarrow> nat option" where
  "index_of P [] = None"
| "index_of P (x # xs) = (if P x then Some 0 else map_option Suc (index_of P xs))"

lemma index_of_None_iff: "index_of P xs = None \<longleftrightarrow> (\<forall>x\<in>set xs. \<not> P x)"
  by (induction xs) auto

lemma index_of_Some:
  "index_of P xs = Some i \<Longrightarrow> i < length xs \<and> P (xs ! i) \<and> (\<forall>j<i. \<not> P (xs ! j))"
proof (induction xs arbitrary: i)
  case (Cons x xs)
  then show ?case
    by (cases i) (auto split: if_splits simp: less_Suc_eq_0_disj)
qed simp

lemma index_of_eq_remove1:
  "index_of (\<lambda>x. x = y) xs = Some i \<Longrightarrow> take i xs @ drop (Suc i) xs = remove1 y xs"
  by (induction xs arbitrary: i) (auto split: if_splits)

section \<open>Arithmetic\<close>

lemma mod_add_cancel_nat:
  fixes a i j n :: nat
  assumes "(a + i) mod n = (a + j) mod n" and "i < n" and "j < n"
  shows "i = j"
proof -
  have "(int a + int i) mod int n = (int a + int j) mod int n" using assms(1) by (metis of_nat_add of_nat_mod)
  then have dvd: "int n dvd int i - int j" by (simp add: mod_eq_dvd_iff)
  have lt: "\<bar>int i - int j\<bar> < int n" using assms(2,3) by linarith
  show ?thesis
  proof (rule ccontr)
    assume "i \<noteq> j"
    then have "int i - int j \<noteq> 0" by simp
    from dvd_imp_le_int [OF this dvd] lt show False by simp
  qed
qed

section \<open>Association lists\<close>

text \<open>Go maps with a finite, ordered representation: \<open>m[k] = v\<close> and \<open>delete(m, k)\<close>.\<close>

lemma AList_update_subset: "set (AList.update k v al) \<subseteq> insert (k, v) (set al)"
  by (induction al) auto

lemma map_of_permuted:
  assumes "distinct (map fst xs)" and "mset xs = mset ys"
  shows "map_of xs = map_of ys"
proof (rule ext)
  fix k
  have d: "distinct (map fst ys)" using assms by (metis mset_eq_imp_distinct_iff mset_map)
  have "set xs = set ys" using assms(2) by (rule mset_eq_setD)
  then have "map_of xs k = Some v \<longleftrightarrow> map_of ys k = Some v" for v
    by (simp add: map_of_eq_Some_iff assms(1) d)
  then show "map_of xs k = map_of ys k" by (metis option.exhaust)
qed

section \<open>Words\<close>

lemma unat_add_no_wrap:
  fixes a b :: "'a::len word"
  shows "unat a + unat b < 2 ^ LENGTH('a) \<Longrightarrow> unat (a + b) = unat a + unat b"
  by (simp add: unat_word_ariths)

lemma unat_Suc_no_wrap:
  fixes a b :: "'a::len word"
  assumes "a < b"
  shows "unat (a + 1) = Suc (unat a)"
proof -
  from assms have "unat a < unat b" by (simp add: word_less_nat_alt)
  moreover have "unat b < 2 ^ LENGTH('a)" by simp
  ultimately have "unat a + 1 < 2 ^ LENGTH('a)" by linarith
  then show ?thesis
    by (metis Suc_eq_plus1 less_not_refl2 unat_add_no_wrap unat_1 add_lessD1 add.right_neutral
        unat_word_ariths(1) mod_less)
qed

end
