(* ===== verification/Errors.thy ===== *)
theory Errors
  imports Prelude
begin

text \<open>
  The error values of the program. Go's \<open>error\<close> is an open interface; here each package's error
  types and sentinels are a datatype, and \<open>error\<close> is their sum, closed by the texts that
  \<open>fmt.Errorf\<close> builds around another error and by the errors that come from outside the
  sources (the kernel, the command runner, the image store).
\<close>

datatype port_pool_error =
    PoolExhaustedError
  | PortTakenError port
  | InvalidPortRange uint32 uint32

datatype subnets_error =
    ErrInsufficientSubnets
  | ErrInsufficientIPs
  | ErrReleasedUnallocatedSubnet
  | ErrOverlapsExistingSubnet
  | ErrInvalidRange
  | ErrInvalidIP
  | ErrIPAlreadyAcquired
  | ErrIpCannotBeNil
  | ErrIPEqualsGateway
  | ErrIPEqualsBroadcast
  | OverlapsDynamicRange string string
  | OverlapsExisting string string

datatype env_error =
    EnvEmptyString
  | EnvNotKeyValue string
  | EnvEmptyKey string

datatype error =
    PortPoolError port_pool_error
  | SubnetsError subnets_error
  | EnvError env_error
  | ContainerNotFoundError string
  | HandleExistsError string
  | MaxContainersReachedError int
  | FailedToSnapshotError error
  | UnrecoverableError error
  | ErrorNew string
  | Errorf string error
  | ErrorfTail string error string
  | External string

text \<open>A call returns a value, returns an error, or panics.\<close>

datatype 'a res = Ok 'a | Err error | Panic string

fun is_ok :: "'a res \<Rightarrow> bool" where
  "is_ok (Ok _) = True"
| "is_ok _ = False"

text \<open>Sequencing: an error or a panic of the first call is the caller's.\<close>

fun res_bind :: "'a res \<Rightarrow> ('a \<Rightarrow> 'b res) \<Rightarrow> 'b res" where
  "res_bind (Ok x) f = f x"
| "res_bind (Err e) f = Err e"
| "res_bind (Panic m) f = Panic m"

lemma res_bind_cong [fundef_cong]:
  "m = m' \<Longrightarrow> (\<And>x. m' = Ok x \<Longrightarrow> f x = g x) \<Longrightarrow> res_bind m f = res_bind m' g"
  by (cases m') auto

lemma res_bind_Ok_iff: "res_bind m f = Ok y \<longleftrightarrow> (\<exists>x. m = Ok x \<and> f x = Ok y)"
  by (cases m) auto

end
