(* ===== verification/Allocation.thy ===== *)
theory Allocation
  imports Errors
begin

text \<open>
  The contract of a resource allocator, as an interface: \<open>acquire\<close> hands out a resource nobody
  holds, \<open>reserve\<close> takes a given one if nobody holds it, \<open>release\<close> gives one back. The port
  pool and the subnet pool both implement it. Each call of the implementations runs under the
  pool's mutex, so an execution of several goroutines is a sequence of such calls, and what holds
  of every sequence holds of every interleaving.
\<close>

section \<open>Sequences of calls\<close>

datatype ('q, 'r) alloc_op = AcquireOp 'q | ReserveOp 'r | ReleaseOp 'r

text \<open>
  A run threads the pool and the list of resources its callers hold: a successful acquisition or
  reservation adds to the list, a release removes the resource from it.
\<close>

fun alloc_step ::
  "('q \<Rightarrow> 's \<Rightarrow> 'r res \<times> 's) \<Rightarrow> ('r \<Rightarrow> 's \<Rightarrow> unit res \<times> 's) \<Rightarrow> ('r \<Rightarrow> 's \<Rightarrow> 's) \<Rightarrow> ('r \<Rightarrow> 'k)
   \<Rightarrow> ('q, 'r) alloc_op \<Rightarrow> 's \<times> 'r list \<Rightarrow> 's \<times> 'r list" where
  "alloc_step acquire reserve release key (AcquireOp q) (s, out) =
     (case acquire q s of (Ok r, s') \<Rightarrow> (s', r # out) | (_, s') \<Rightarrow> (s', out))"
| "alloc_step acquire reserve release key (ReserveOp r) (s, out) =
     (case reserve r s of (Ok _, s') \<Rightarrow> (s', r # out) | (_, s') \<Rightarrow> (s', out))"
| "alloc_step acquire reserve release key (ReleaseOp r) (s, out) =
     (release r s, filter (\<lambda>x. key x \<noteq> key r) out)"

fun alloc_run ::
  "('q \<Rightarrow> 's \<Rightarrow> 'r res \<times> 's) \<Rightarrow> ('r \<Rightarrow> 's \<Rightarrow> unit res \<times> 's) \<Rightarrow> ('r \<Rightarrow> 's \<Rightarrow> 's) \<Rightarrow> ('r \<Rightarrow> 'k)
   \<Rightarrow> ('q, 'r) alloc_op list \<Rightarrow> 's \<times> 'r list \<Rightarrow> 's \<times> 'r list" where
  "alloc_run acquire reserve release key [] c = c"
| "alloc_run acquire reserve release key (op # ops) c =
     alloc_run acquire reserve release key ops (alloc_step acquire reserve release key op c)"

section \<open>The interface\<close>

text \<open>
  \<open>held s\<close> is the set of keys of the resources that are out. \<open>ok_req\<close> and \<open>ok_res\<close>
  restrict the requests and the resources the laws speak of.
\<close>

locale allocator =
  fixes invar :: "'s \<Rightarrow> bool"
    and held :: "'s \<Rightarrow> 'k set"
    and key :: "'r \<Rightarrow> 'k"
    and ok_req :: "'q \<Rightarrow> bool"
    and ok_res :: "'r \<Rightarrow> bool"
    and acquire :: "'q \<Rightarrow> 's \<Rightarrow> 'r res \<times> 's"
    and release :: "'r \<Rightarrow> 's \<Rightarrow> 's"
  assumes acquire_Ok:
    "\<lbrakk>invar s; ok_req q; acquire q s = (Ok r, s')\<rbrakk>
     \<Longrightarrow> key r \<notin> held s \<and> held s' = insert (key r) (held s) \<and> invar s' \<and> ok_res r"
    and acquire_fail: "\<lbrakk>invar s; acquire q s = (e, s'); \<not> is_ok e\<rbrakk> \<Longrightarrow> s' = s"
    and release_held: "\<lbrakk>invar s; ok_res r\<rbrakk> \<Longrightarrow> held (release r s) = held s - {key r}"
    and release_invar: "\<lbrakk>invar s; ok_res r\<rbrakk> \<Longrightarrow> invar (release r s)"
begin

lemma acquire_release:
  assumes "invar s" and "ok_req q" and "acquire q s = (Ok r, s')"
  shows "invar (release r s') \<and> held (release r s') = held s"
proof -
  from acquire_Ok [OF assms] have "key r \<notin> held s" and "held s' = insert (key r) (held s)"
    and "invar s'" and "ok_res r" by auto
  then show ?thesis by (simp add: release_held release_invar)
qed

lemma acquire_twice_differ:
  assumes "invar s" and "ok_req q" and "ok_req q'"
    and "acquire q s = (Ok r, s')" and "acquire q' s' = (Ok r', s'')"
  shows "key r \<noteq> key r'"
  using acquire_Ok [OF assms(1,2,4)] acquire_Ok [OF _ assms(3,5)] by auto

end

locale reservable_allocator = allocator invar held key ok_req ok_res acquire release
  for invar :: "'s \<Rightarrow> bool"
    and held :: "'s \<Rightarrow> 'k set"
    and key :: "'r \<Rightarrow> 'k"
    and ok_req :: "'q \<Rightarrow> bool"
    and ok_res :: "'r \<Rightarrow> bool"
    and acquire :: "'q \<Rightarrow> 's \<Rightarrow> 'r res \<times> 's"
    and release :: "'r \<Rightarrow> 's \<Rightarrow> 's" +
  fixes reserve :: "'r \<Rightarrow> 's \<Rightarrow> unit res \<times> 's"
  assumes reserve_Ok:
    "\<lbrakk>invar s; ok_res r; reserve r s = (Ok u, s')\<rbrakk>
     \<Longrightarrow> key r \<notin> held s \<and> held s' = insert (key r) (held s) \<and> invar s'"
    and reserve_fail: "\<lbrakk>invar s; reserve r s = (e, s'); \<not> is_ok e\<rbrakk> \<Longrightarrow> s' = s"
begin

definition ok_op :: "('q, 'r) alloc_op \<Rightarrow> bool" where
  "ok_op op = (case op of AcquireOp q \<Rightarrow> ok_req q | ReserveOp r \<Rightarrow> ok_res r | ReleaseOp r \<Rightarrow> ok_res r)"

text \<open>The bookkeeping of the callers agrees with the pool: nothing is held twice.\<close>

definition consistent :: "'s \<times> 'r list \<Rightarrow> bool" where
  "consistent c \<longleftrightarrow> invar (fst c) \<and> distinct (map key (snd c)) \<and> key ` set (snd c) \<subseteq> held (fst c)"

lemma step_consistent:
  assumes "consistent c" and "ok_op op"
  shows "consistent (alloc_step acquire reserve release key op c)"
proof -
  obtain s out where c: "c = (s, out)" by (cases c)
  from assms(1) have inv: "invar s" and dist: "distinct (map key out)"
    and sub: "key ` set out \<subseteq> held s" by (auto simp: consistent_def c)
  show ?thesis
  proof (cases op)
    case (AcquireOp q)
    with assms(2) have q: "ok_req q" by (simp add: ok_op_def)
    obtain e s' where e: "acquire q s = (e, s')" by (cases "acquire q s")
    show ?thesis
    proof (cases e)
      case (Ok r)
      with acquire_Ok [OF inv q] e have "key r \<notin> held s" "held s' = insert (key r) (held s)" "invar s'"
        by auto
      with Ok e AcquireOp dist sub show ?thesis by (auto simp: consistent_def c)
    qed (use acquire_fail [OF inv e] e AcquireOp inv dist sub in \<open>auto simp: consistent_def c\<close>)
  next
    case (ReserveOp r)
    with assms(2) have r: "ok_res r" by (simp add: ok_op_def)
    obtain e s' where e: "reserve r s = (e, s')" by (cases "reserve r s")
    show ?thesis
    proof (cases e)
      case (Ok u)
      with reserve_Ok [OF inv r] e have "key r \<notin> held s" "held s' = insert (key r) (held s)" "invar s'"
        by auto
      with Ok e ReserveOp dist sub show ?thesis by (auto simp: consistent_def c)
    qed (use reserve_fail [OF inv e] e ReserveOp inv dist sub in \<open>auto simp: consistent_def c\<close>)
  next
    case (ReleaseOp r)
    with assms(2) have r: "ok_res r" by (simp add: ok_op_def)
    have "distinct (map key (filter (\<lambda>x. key x \<noteq> key r) out))"
      using dist by (simp add: distinct_map_filter)
    with ReleaseOp r inv sub show ?thesis
      by (auto simp: consistent_def c release_held release_invar)
  qed
qed

lemma run_consistent:
  "consistent c \<Longrightarrow> \<forall>op\<in>set ops. ok_op op
   \<Longrightarrow> consistent (alloc_run acquire reserve release key ops c)"
  by (induction ops arbitrary: c) (auto simp: step_consistent)

lemma run_never_shares:
  assumes "invar s" and "\<forall>op\<in>set ops. ok_op op"
    and "alloc_run acquire reserve release key ops (s, []) = (s', out)"
  shows "distinct (map key out) \<and> key ` set out \<subseteq> held s' \<and> invar s'"
proof -
  have "consistent (s, [])" using assms(1) by (simp add: consistent_def)
  from run_consistent [OF this assms(2)] assms(3) show ?thesis
    by (simp add: consistent_def)
qed

end

end
