(* ===== verification/Port_Pool.thy ===== *)
theory Port_Pool
  imports Allocation
begin

text \<open>
  The pool of host ports (\<open>src/port_pool/port_pool.go\<close>): ports \<open>start ..< start + size\<close>
  handed out in first-in first-out order under one mutex, so that each exported method is one
  atomic step on the pool's record. Ports are 32-bit words and additions wrap as in Go.
\<close>

section \<open>Definitions\<close>

record pp_state =
  Offset :: uint32

record port_pool =
  pp_start :: uint32
  pp_size :: uint32
  pp_pool :: "port list"
  pp_saved :: pp_state

text \<open>
  The filling loop \<open>for port := from; port < to; port++ { pool[i] = port; i += 1 }\<close>. An index
  beyond the slice panics, which is \<open>None\<close>.
\<close>

function fill_ports :: "uint32 \<Rightarrow> uint32 \<Rightarrow> nat \<Rightarrow> port list \<Rightarrow> (nat \<times> port list) option" where
  "fill_ports port to i pool =
     (if port < to
      then if i < length pool then fill_ports (port + 1) to (Suc i) (pool[i := port]) else None
      else Some (i, pool))"
  by pat_completeness auto
termination
  by (relation "measure (\<lambda>(port, to, i, pool). unat to - unat port)")
    (auto simp: unat_Suc_no_wrap word_less_nat_alt)

declare fill_ports.simps [simp del]

definition PortPool_New :: "uint32 \<Rightarrow> uint32 \<Rightarrow> pp_state \<Rightarrow> port_pool res" where
  "PortPool_New start sz state =
     (if start + sz > 65535 then Err (PortPoolError (InvalidPortRange start sz))
      else
        let offset = (if Offset state \<ge> sz then 0 else Offset state);
            pool = replicate (unat sz) 0
        in case fill_ports (start + offset) (start + sz) 0 pool of
             None \<Rightarrow> Panic ''index out of range''
           | Some (i, pool) \<Rightarrow>
               (case fill_ports start (start + offset) i pool of
                  None \<Rightarrow> Panic ''index out of range''
                | Some (_, pool) \<Rightarrow>
                    Ok \<lparr>pp_start = start, pp_size = sz, pp_pool = pool,
                        pp_saved = \<lparr>Offset = 0\<rparr>\<rparr>))"

definition PortPool_Acquire :: "port_pool \<Rightarrow> port res \<times> port_pool" where
  "PortPool_Acquire p =
     (case pp_pool p of
        [] \<Rightarrow> (Err (PortPoolError PoolExhaustedError), p)
      | port # rest \<Rightarrow> (Ok port, p\<lparr>pp_pool := rest\<rparr>))"

definition PortPool_Remove :: "port \<Rightarrow> port_pool \<Rightarrow> unit res \<times> port_pool" where
  "PortPool_Remove port p =
     (case index_of (\<lambda>existingPort. existingPort = port) (pp_pool p) of
        None \<Rightarrow> (Err (PortPoolError (PortTakenError port)), p)
      | Some idx \<Rightarrow>
          (Ok (), p\<lparr>pp_pool := take idx (pp_pool p) @ drop (idx + 1) (pp_pool p)\<rparr>))"

definition PortPool_Release :: "port \<Rightarrow> port_pool \<Rightarrow> port_pool" where
  "PortPool_Release port p =
     (if port < pp_start p \<or> port \<ge> pp_start p + pp_size p then p
      else if port \<in> set (pp_pool p) then p
      else p\<lparr>pp_pool := pp_pool p @ [port]\<rparr>)"

definition PortPool_RefreshState :: "port_pool \<Rightarrow> pp_state \<times> port_pool" where
  "PortPool_RefreshState p =
     (let s = (case pp_pool p of
                 [] \<Rightarrow> (pp_saved p)\<lparr>Offset := 0\<rparr>
               | port # _ \<Rightarrow> (pp_saved p)\<lparr>Offset := port - pp_start p\<rparr>)
      in (s, p\<lparr>pp_saved := s\<rparr>))"

section \<open>The filling loop\<close>

definition ports_from :: "nat \<Rightarrow> nat \<Rightarrow> port list" where
  "ports_from a b = map of_nat [a..<b]"

lemma length_ports_from [simp]: "length (ports_from a b) = b - a"
  by (simp add: ports_from_def)

lemma ports_from_Cons: "a < b \<Longrightarrow> ports_from a b = of_nat a # ports_from (Suc a) b"
  by (simp add: ports_from_def upt_conv_Cons)

lemma fill_ports_eq:
  assumes "i + (unat to - unat port) \<le> length pool"
  shows "fill_ports port to i pool =
    Some (i + (unat to - unat port),
          take i pool @ ports_from (unat port) (unat to) @ drop (i + (unat to - unat port)) pool)"
  using assms
proof (induction port to i pool rule: fill_ports.induct)
  case (1 port to i pool)
  show ?case
  proof (cases "port < to")
    case True
    then have lt: "unat port < unat to" by (simp add: word_less_nat_alt)
    have suc: "unat (port + 1) = Suc (unat port)" by (rule unat_Suc_no_wrap [OF True])
    have i: "i < length pool" using "1.prems" lt by linarith
    have "Suc i + (unat to - unat (port + 1)) \<le> length (pool[i := port])"
      using "1.prems" lt suc by simp
    from "1.IH" [OF True i this] True i lt suc show ?thesis
      by (subst fill_ports.simps) (simp add: ports_from_Cons take_Suc_conv_app_nth Suc_diff_Suc)
  next
    case False
    then show ?thesis
      by (subst fill_ports.simps) (simp add: word_less_nat_alt ports_from_def)
  qed
qed

lemma set_ports_from: "b \<le> 2 ^ 32 \<Longrightarrow> set (ports_from a b) = {x. a \<le> unat x \<and> unat x < b}"
proof (intro set_eqI iffI)
  fix x :: port
  assume b: "b \<le> 2 ^ 32" and "x \<in> set (ports_from a b)"
  then obtain n where "n \<in> {a..<b}" and "x = of_nat n" by (auto simp: ports_from_def)
  with b show "x \<in> {x. a \<le> unat x \<and> unat x < b}"
    by (simp add: unat_of_nat take_bit_nat_eq_self)
next
  fix x :: port
  assume "x \<in> {x. a \<le> unat x \<and> unat x < b}"
  then have "unat x \<in> set [a..<b]" by simp
  then have "of_nat (unat x) \<in> set (ports_from a b)" unfolding ports_from_def by (metis image_eqI set_map)
  then show "x \<in> set (ports_from a b)" by simp
qed

lemma distinct_ports_from: "b \<le> 2 ^ 32 \<Longrightarrow> distinct (ports_from a b)"
proof -
  assume b: "b \<le> 2 ^ 32"
  have "inj_on (of_nat :: nat \<Rightarrow> port) (set [a..<b])"
  proof (rule inj_onI)
    fix m n assume "m \<in> set [a..<b]" "n \<in> set [a..<b]" and eq: "of_nat m = (of_nat n :: port)"
    with b have "m < 2 ^ 32" and "n < 2 ^ 32" by auto
    then have "unat (of_nat m :: port) = m" and "unat (of_nat n :: port) = n"
      by (simp_all add: unat_of_nat take_bit_nat_eq_self)
    with arg_cong [OF eq, of unat] show "m = n" by simp
  qed
  then show ?thesis by (simp add: ports_from_def distinct_map)
qed

section \<open>Construction\<close>

text \<open>The ports the pool starts with: the configured range, rotated by the saved offset.\<close>

definition rotated_range :: "nat \<Rightarrow> nat \<Rightarrow> nat \<Rightarrow> port list" where
  "rotated_range start sz offset =
     (let k = (if offset < sz then offset else 0)
      in ports_from (start + k) (start + sz) @ ports_from start (start + k))"

lemma distinct_rotated_range: "start + sz \<le> 2 ^ 32 \<Longrightarrow> distinct (rotated_range start sz offset)"
  by (auto simp: rotated_range_def Let_def distinct_ports_from set_ports_from)

lemma set_rotated_range:
  "start + sz \<le> 2 ^ 32 \<Longrightarrow>
   set (rotated_range start sz offset) = {x. start \<le> unat x \<and> unat x < start + sz}"
  by (auto simp: rotated_range_def Let_def set_ports_from split: if_splits)

lemma PortPool_New_eq:
  assumes "unat start + unat sz < 2 ^ 32"
  shows "PortPool_New start sz state =
    (if unat start + unat sz > 65535 then Err (PortPoolError (InvalidPortRange start sz))
     else Ok \<lparr>pp_start = start, pp_size = sz,
              pp_pool = rotated_range (unat start) (unat sz) (unat (Offset state)),
              pp_saved = \<lparr>Offset = 0\<rparr>\<rparr>)"
proof -
  have sum: "unat (start + sz) = unat start + unat sz"
    using assms by (intro unat_add_no_wrap) simp
  have gt: "start + sz > 65535 \<longleftrightarrow> unat start + unat sz > 65535"
    by (simp add: word_less_nat_alt sum)
  define k where "k = (if Offset state \<ge> sz then 0 else Offset state)"
  have k: "unat k = (if unat (Offset state) < unat sz then unat (Offset state) else 0)"
    by (auto simp: k_def word_le_nat_alt)
  then have k_le: "unat k \<le> unat sz" by auto
  then have kadd: "unat (start + k) = unat start + unat k"
    using assms by (intro unat_add_no_wrap) simp
  let ?z = "replicate (unat sz) (0::port)"
  have f1: "fill_ports (start + k) (start + sz) 0 ?z =
      Some (unat sz - unat k, ports_from (unat start + unat k) (unat start + unat sz)
              @ drop (unat sz - unat k) ?z)"
    by (subst fill_ports_eq) (simp_all add: sum kadd)
  have f2: "fill_ports start (start + k) (unat sz - unat k)
        (ports_from (unat start + unat k) (unat start + unat sz) @ drop (unat sz - unat k) ?z) =
      Some (unat sz, ports_from (unat start + unat k) (unat start + unat sz)
              @ ports_from (unat start) (unat start + unat k))"
    using k_le by (subst fill_ports_eq) (simp_all add: kadd)
  show ?thesis
    using f1 f2 k by (simp add: PortPool_New_def Let_def gt rotated_range_def flip: k_def)
qed

section \<open>Invariant and interface\<close>

definition port_range :: "port_pool \<Rightarrow> port set" where
  "port_range p = {x. pp_start p \<le> x \<and> x < pp_start p + pp_size p}"

definition port_pool_ok :: "port_pool \<Rightarrow> bool" where
  "port_pool_ok p \<longleftrightarrow> distinct (pp_pool p) \<and> set (pp_pool p) \<subseteq> port_range p"

definition ports_held :: "port_pool \<Rightarrow> port set" where
  "ports_held p = port_range p - set (pp_pool p)"

lemma port_range_frame [simp]: "port_range (p\<lparr>pp_pool := xs\<rparr>) = port_range p"
  by (simp add: port_range_def)

lemma PortPool_Remove_eq:
  "PortPool_Remove port p =
     (if port \<in> set (pp_pool p) then (Ok (), p\<lparr>pp_pool := remove1 port (pp_pool p)\<rparr>)
      else (Err (PortPoolError (PortTakenError port)), p))"
proof (cases "index_of (\<lambda>x. x = port) (pp_pool p)")
  case None
  then have "port \<notin> set (pp_pool p)" by (auto simp: index_of_None_iff)
  with None show ?thesis by (simp add: PortPool_Remove_def)
next
  case (Some i)
  then have "port \<in> set (pp_pool p)" using index_of_Some [OF Some] by auto
  then show ?thesis by (simp add: PortPool_Remove_def Some index_of_eq_remove1 [OF Some])
qed

lemma PortPool_Release_eq:
  "PortPool_Release port p =
     (if port \<in> ports_held p then p\<lparr>pp_pool := pp_pool p @ [port]\<rparr> else p)"
  by (auto simp: PortPool_Release_def ports_held_def port_range_def not_less not_le)

interpretation ports: reservable_allocator
  port_pool_ok ports_held "\<lambda>x. x" "\<lambda>_. True" "\<lambda>_. True"
  "\<lambda>_::unit. PortPool_Acquire" PortPool_Release PortPool_Remove
proof unfold_locales
  fix s s' and q :: unit and r
  assume "port_pool_ok s" and "PortPool_Acquire s = (Ok r, s')"
  then show "r \<notin> ports_held s \<and> ports_held s' = insert r (ports_held s) \<and> port_pool_ok s' \<and> True"
    by (auto simp: PortPool_Acquire_def port_pool_ok_def ports_held_def split: list.splits)
next
  fix s s' and q :: unit and e
  assume "PortPool_Acquire s = (e, s')" and "\<not> is_ok e"
  then show "s' = s" by (auto simp: PortPool_Acquire_def split: list.splits)
next
  fix s r assume "port_pool_ok s"
  then show "ports_held (PortPool_Release r s) = ports_held s - {r}"
    by (auto simp: PortPool_Release_eq ports_held_def)
next
  fix s r assume "port_pool_ok s"
  then show "port_pool_ok (PortPool_Release r s)"
    by (auto simp: PortPool_Release_eq ports_held_def port_pool_ok_def)
next
  fix s s' r u
  assume "port_pool_ok s" and "PortPool_Remove r s = (Ok u, s')"
  then show "r \<notin> ports_held s \<and> ports_held s' = insert r (ports_held s) \<and> port_pool_ok s'"
    by (auto simp: PortPool_Remove_eq port_pool_ok_def ports_held_def split: if_splits
        dest: notin_set_remove1)
next
  fix s s' r e
  assume "PortPool_Remove r s = (e, s')" and "\<not> is_ok e"
  then show "s' = s" by (auto simp: PortPool_Remove_eq split: if_splits)
qed

lemma New_port_pool_ok:
  assumes "unat start + unat sz < 2 ^ 32" and "PortPool_New start sz state = Ok p"
  shows "port_pool_ok p \<and> ports_held p = {} \<and> pp_start p = start \<and> pp_size p = sz"
proof -
  have sum: "unat (start + sz) = unat start + unat sz"
    using assms(1) by (intro unat_add_no_wrap) simp
  have p: "p = \<lparr>pp_start = start, pp_size = sz,
              pp_pool = rotated_range (unat start) (unat sz) (unat (Offset state)),
              pp_saved = \<lparr>Offset = 0\<rparr>\<rparr>"
    using assms by (auto simp: PortPool_New_eq split: if_splits)
  show ?thesis
    using assms(1)
    by (auto simp: p port_pool_ok_def ports_held_def port_range_def distinct_rotated_range
        set_rotated_range word_le_nat_alt word_less_nat_alt sum)
qed

section \<open>Properties\<close>

lemma alloc_step_range:
  "port_range (fst (alloc_step (\<lambda>_::unit. PortPool_Acquire) PortPool_Remove PortPool_Release key op c))
   = port_range (fst c)"
  by (cases c; cases op)
    (auto simp: PortPool_Acquire_def PortPool_Remove_eq PortPool_Release_eq split: list.splits res.splits)

lemma alloc_run_range:
  "port_range (fst (alloc_run (\<lambda>_::unit. PortPool_Acquire) PortPool_Remove PortPool_Release key ops c))
   = port_range (fst c)"
  by (induction ops arbitrary: c) (simp_all add: alloc_step_range)



text \<open>
  For a range that fits below port 65536 the constructor succeeds, never indexes outside its
  slice, and the free list holds every port of the range exactly once, starting at the saved offset
  (or at the first port when the offset is out of range); a larger range is refused.
\<close>

theorem PortPool_New_correct:
  assumes "unat start + unat sz < 2 ^ 32"
  shows "PortPool_New start sz state =
      (if unat start + unat sz \<le> 65535
       then Ok \<lparr>pp_start = start, pp_size = sz,
                pp_pool = rotated_range (unat start) (unat sz) (unat (Offset state)),
                pp_saved = \<lparr>Offset = 0\<rparr>\<rparr>
       else Err (PortPoolError (InvalidPortRange start sz)))
    \<and> distinct (rotated_range (unat start) (unat sz) (unat (Offset state)))
    \<and> set (rotated_range (unat start) (unat sz) (unat (Offset state)))
        = {x. start \<le> x \<and> x < start + sz}"
proof -
  have sum: "unat (start + sz) = unat start + unat sz"
    using assms by (intro unat_add_no_wrap) simp
  show ?thesis
    using assms
    by (simp add: PortPool_New_eq distinct_rotated_range set_rotated_range word_le_nat_alt
        word_less_nat_alt sum not_le)
qed

theorem PortPool_New_correct_witness:
  "PortPool_New 61000 3 \<lparr>Offset = 2\<rparr> =
     Ok \<lparr>pp_start = 61000, pp_size = 3, pp_pool = [61002, 61000, 61001], pp_saved = \<lparr>Offset = 0\<rparr>\<rparr>"
  using PortPool_New_correct [of 61000 3 "\<lparr>Offset = 2\<rparr>"]
  by (simp add: rotated_range_def ports_from_def upt_rec)

text \<open>
  C18. The range check adds in 32 bits. When \<open>start + size\<close> wraps around, a range far above 65535 is
  accepted and the free list is filled with port 0 only, so the same invalid port is handed out
  \<open>size\<close> times.
\<close>

theorem PortPool_New_wraps:
  assumes "2 ^ 32 \<le> unat start + unat sz" and "start + sz \<le> 65535" and "Offset state = 0"
  shows "PortPool_New start sz state =
    Ok \<lparr>pp_start = start, pp_size = sz, pp_pool = replicate (unat sz) 0, pp_saved = \<lparr>Offset = 0\<rparr>\<rparr>"
proof -
  have lt: "unat start < 2 ^ 32" "unat sz < 2 ^ 32"
    using unsigned_less [of start] unsigned_less [of sz] by simp_all
  have "unat (start + sz) = (unat start + unat sz) mod 2 ^ 32"
    by (simp add: unat_word_ariths)
  also have "\<dots> = unat start + unat sz - 2 ^ 32"
    using assms(1) lt by (simp add: le_mod_geq)
  finally have "\<not> start < start + sz"
    using assms(1) lt by (simp add: word_less_nat_alt)
  then have f: "fill_ports start (start + sz) 0 xs = Some (0, xs)"
    and g: "fill_ports start start 0 xs = Some (0, xs)" for xs
    by (subst fill_ports.simps, simp)+
  have "\<not> start + sz > 65535" using assms(2) by simp
  then show ?thesis using assms(3) f g by (simp add: PortPool_New_def Let_def)
qed

theorem PortPool_New_wraps_witness:
  "PortPool_New 4294967295 2 \<lparr>Offset = 0\<rparr> =
     Ok \<lparr>pp_start = 4294967295, pp_size = 2, pp_pool = [0, 0], pp_saved = \<lparr>Offset = 0\<rparr>\<rparr>"
proof -
  have "replicate 2 (0::port) = [0, 0]" by (simp add: numeral_2_eq_2)
  then show ?thesis using PortPool_New_wraps [of 4294967295 2 "\<lparr>Offset = 0\<rparr>"] by simp
qed

text \<open>
  C17. Restart round trip: the offset that \<open>RefreshState\<close> saves makes a pool rebuilt over the same
  range hand out next the very port the old pool would have handed out next.
\<close>

theorem PortPool_restart_resumes:
  assumes "port_pool_ok p" and "pp_pool p \<noteq> []" and "unat (pp_start p) + unat (pp_size p) \<le> 65535"
    and "PortPool_RefreshState p = (s, p')"
  shows "\<exists>q. PortPool_New (pp_start p) (pp_size p) s = Ok q
    \<and> fst (PortPool_Acquire q) = fst (PortPool_Acquire p)"
proof -
  from assms(2) obtain x xs where xs: "pp_pool p = x # xs" by (cases "pp_pool p") auto
  have sum: "unat (pp_start p + pp_size p) = unat (pp_start p) + unat (pp_size p)"
    using assms(3) by (intro unat_add_no_wrap) simp
  have s: "Offset s = x - pp_start p"
    using assms(4) by (auto simp: PortPool_RefreshState_def Let_def xs)
  from assms(1) have x: "pp_start p \<le> x" "x < pp_start p + pp_size p"
    by (auto simp: port_pool_ok_def port_range_def xs)
  then have off: "unat (Offset s) = unat x - unat (pp_start p)"
    by (simp add: s unat_sub)
  have lt: "unat (pp_start p) \<le> unat x" "unat x < unat (pp_start p) + unat (pp_size p)"
    using x by (simp_all add: word_le_nat_alt word_less_nat_alt sum)
  have "unat x - unat (pp_start p) < unat (pp_size p)" using lt by linarith
  then have "rotated_range (unat (pp_start p)) (unat (pp_size p)) (unat (Offset s)) =
      x # (ports_from (Suc (unat x)) (unat (pp_start p) + unat (pp_size p))
           @ ports_from (unat (pp_start p)) (unat x))"
    using lt ports_from_Cons [OF lt(2)] by (simp add: rotated_range_def Let_def off)
  then show ?thesis
    using assms(3) by (simp add: PortPool_New_eq PortPool_Acquire_def xs)
qed

theorem PortPool_restart_resumes_witness:
  "\<exists>q. PortPool_New 61000 3 \<lparr>Offset = 1\<rparr> = Ok q \<and> fst (PortPool_Acquire q) = Ok 61001"
proof -
  let ?p = "\<lparr>pp_start = 61000, pp_size = 3, pp_pool = [61001, 61002], pp_saved = \<lparr>Offset = 0\<rparr>\<rparr> :: port_pool"
  have "port_pool_ok ?p" by (simp add: port_pool_ok_def port_range_def)
  from PortPool_restart_resumes [OF this, of "\<lparr>Offset = 1\<rparr>" "?p\<lparr>pp_saved := \<lparr>Offset = 1\<rparr>\<rparr>"]
  show ?thesis by (simp add: PortPool_RefreshState_def PortPool_Acquire_def Let_def)
qed

end
