(* ===== verification/Go_Strings.thy ===== *)
theory Go_Strings
  imports Errors
begin

text \<open>
  The parts of Go's \<open>strconv\<close>, \<open>strings\<close> and \<open>fmt\<close> packages that the sources call, on
  byte strings: decimal and base-32 printing, \<open>ParseUint\<close>, the \<open>%d\<close> verb of \<open>Sscanf\<close>,
  splitting, joining and trimming. The main facts are the round trips between printing and parsing.
\<close>

section \<open>Digits\<close>

definition digits :: string where
  "digits = ''0123456789abcdefghijklmnopqrstuv''"

definition digit_char :: "nat \<Rightarrow> char" where
  "digit_char d = digits ! d"

definition digit_val :: "nat \<Rightarrow> char \<Rightarrow> nat option" where
  "digit_val base c =
     (case index_of (\<lambda>x. x = c) digits of
        Some d \<Rightarrow> if d < base then Some d else None
      | None \<Rightarrow> None)"

definition is_digit :: "char \<Rightarrow> bool" where
  "is_digit c \<longleftrightarrow> digit_val 10 c \<noteq> None"

lemma length_digits [simp]: "length digits = 32"
  by (simp add: digits_def)

lemma distinct_digits: "distinct digits"
  by (simp add: digits_def)

lemma index_of_distinct_nth:
  "distinct xs \<Longrightarrow> i < length xs \<Longrightarrow> index_of (\<lambda>x. x = xs ! i) xs = Some i"
proof (induction xs arbitrary: i)
  case (Cons x xs)
  then show ?case by (cases i) auto
qed simp

lemma digit_val_char [simp]: "d < base \<Longrightarrow> base \<le> 32 \<Longrightarrow> digit_val base (digit_char d) = Some d"
  by (simp add: digit_val_def digit_char_def index_of_distinct_nth distinct_digits)

lemma is_digit_char [simp]: "d < 10 \<Longrightarrow> is_digit (digit_char d)"
  by (simp add: is_digit_def)

lemma digit_char_inject: "a < 32 \<Longrightarrow> b < 32 \<Longrightarrow> digit_char a = digit_char b \<longleftrightarrow> a = b"
  by (simp add: digit_char_def nth_eq_iff_index_eq distinct_digits)

lemma is_digit_cases: "is_digit c \<longleftrightarrow> c \<in> set ''0123456789''"
proof
  assume "is_digit c"
  then obtain d where d: "index_of (\<lambda>x. x = c) digits = Some d" and lt: "d < 10"
    by (auto simp: is_digit_def digit_val_def split: option.splits if_splits)
  from index_of_Some [OF d] have "c = digits ! d" by simp
  moreover have "d = 0 \<or> d = 1 \<or> d = 2 \<or> d = 3 \<or> d = 4 \<or> d = 5 \<or> d = 6 \<or> d = 7 \<or> d = 8 \<or> d = 9"
    using lt by arith
  ultimately show "c \<in> set ''0123456789''" by (elim disjE) (simp_all add: digits_def)
next
  assume "c \<in> set ''0123456789''"
  then show "is_digit c"
    by (auto simp: is_digit_def digit_val_def digits_def)
qed

section \<open>Decimal printing and parsing\<close>

text \<open>\<open>fmt.Sprintf("%d", n)\<close> and \<open>strconv.Itoa\<close> of a non-negative number.\<close>

fun show_nat :: "nat \<Rightarrow> string" where
  "show_nat n = (if n < 10 then [digit_char n] else show_nat (n div 10) @ [digit_char (n mod 10)])"

declare show_nat.simps [simp del]

definition show_int :: "int \<Rightarrow> string" where
  "show_int i = (if i < 0 then CHR ''-'' # show_nat (nat (- i)) else show_nat (nat i))"

definition show_word :: "'a::len word \<Rightarrow> string" where
  "show_word w = show_nat (unat w)"

fun digits_val :: "nat \<Rightarrow> nat \<Rightarrow> string \<Rightarrow> nat option" where
  "digits_val base acc [] = Some acc"
| "digits_val base acc (c # cs) =
     (case digit_val base c of None \<Rightarrow> None | Some d \<Rightarrow> digits_val base (acc * base + d) cs)"

text \<open>\<open>strconv.ParseUint(s, 10, bits)\<close>.\<close>

definition parse_uint :: "nat \<Rightarrow> string \<Rightarrow> nat option" where
  "parse_uint bits s =
     (if s = [] then None
      else case digits_val 10 0 s of
             None \<Rightarrow> None
           | Some n \<Rightarrow> if n < 2 ^ bits then Some n else None)"

lemma digits_val_append:
  "digits_val base acc (s @ t) =
     (case digits_val base acc s of None \<Rightarrow> None | Some n \<Rightarrow> digits_val base n t)"
  by (induction s arbitrary: acc) (auto split: option.splits)

lemma show_nat_nonempty [simp]: "show_nat n \<noteq> []"
  by (subst show_nat.simps) simp

lemma show_nat_digits: "\<forall>c\<in>set (show_nat n). is_digit c"
proof (induction n rule: show_nat.induct)
  case (1 n)
  then show ?case by (subst show_nat.simps) auto
qed

lemma digits_val_show_nat: "digits_val 10 0 (show_nat n) = Some n"
proof (induction n rule: show_nat.induct)
  case (1 n)
  show ?case
  proof (cases "n < 10")
    case True
    then show ?thesis by (subst show_nat.simps) simp
  next
    case False
    with "1" have "digits_val 10 0 (show_nat (n div 10)) = Some (n div 10)" by simp
    with False show ?thesis
      by (subst show_nat.simps) (simp add: digits_val_append)
  qed
qed

lemma parse_uint_show_nat [simp]: "n < 2 ^ bits \<Longrightarrow> parse_uint bits (show_nat n) = Some n"
  by (simp add: parse_uint_def digits_val_show_nat)

lemma show_nat_inject [simp]: "show_nat m = show_nat n \<longleftrightarrow> m = n"
  by (metis digits_val_show_nat option.inject)

lemma show_nat_no_char: "\<not> is_digit c \<Longrightarrow> c \<notin> set (show_nat n)"
  using show_nat_digits by blast

text \<open>
  The \<open>%d\<close> verb of \<open>fmt.Sscanf\<close> and \<open>fmt.Fscanf\<close> into a variable of type \<open>int\<close>: blanks are
  skipped (a newline is not a blank there), then an optional sign and the longest run of decimal
  digits is read, and the rest of the input is left alone.
\<close>

definition is_space :: "char \<Rightarrow> bool" where
  "is_space c \<longleftrightarrow> c \<in> set [CHR '' '', CHR 0x09, CHR 0x0A, CHR 0x0B, CHR 0x0C, CHR 0x0D]"

definition sscanf_int :: "string \<Rightarrow> int option" where
  "sscanf_int s =
     (let s = dropWhile (\<lambda>c. is_space c \<and> c \<noteq> CHR 0x0A) s;
          neg = (s \<noteq> [] \<and> hd s = CHR ''-'');
          s = (if s \<noteq> [] \<and> hd s \<in> {CHR ''-'', CHR ''+''} then tl s else s)
      in case parse_uint 64 (takeWhile is_digit s) of
           None \<Rightarrow> None
         | Some n \<Rightarrow>
             let i = (if neg then - int n else int n) in
             if - (2 ^ 63) \<le> i \<and> i < 2 ^ 63 then Some i else None)"

lemma not_space_digit: "is_digit c \<Longrightarrow> \<not> is_space c"
  by (auto simp: is_digit_cases is_space_def)

lemma dropWhile_none: "(\<forall>c\<in>set s. \<not> P c) \<Longrightarrow> dropWhile P s = s"
  by (cases s) auto

lemma sscanf_int_show_nat:
  assumes "n < 2 ^ 63" and "\<forall>c\<in>set (take 1 rest). \<not> is_digit c"
  shows "sscanf_int (show_nat n @ rest) = Some (int n)"
proof -
  obtain c cs where s: "show_nat n = c # cs" by (cases "show_nat n") auto
  then have d: "is_digit c" using show_nat_digits [of n] by simp
  then have c: "\<not> is_space c" "c \<noteq> CHR ''-''" "c \<noteq> CHR ''+''"
    using not_space_digit by (auto simp: is_digit_cases)
  have r: "takeWhile is_digit rest = []" using assms(2) by (cases rest) auto
  have t: "takeWhile is_digit (show_nat n @ rest) = show_nat n"
    using show_nat_digits [of n] r by (simp add: takeWhile_append2)
  have "n < 2 ^ 64" using assms(1) by simp
  then have "parse_uint 64 (show_nat n) = Some n" by simp
  then have "parse_uint 64 (takeWhile is_digit (c # cs @ rest)) = Some n" using t s by (metis append_Cons)
  then show ?thesis using c assms(1) by (simp add: sscanf_int_def Let_def s del: takeWhile.simps)
qed

section \<open>Splitting, joining, trimming\<close>

text \<open>\<open>strings.SplitN(s, sep, 2)\<close> and \<open>strings.Split(s, sep)\<close> for a one-character separator.\<close>

definition split_n2 :: "char \<Rightarrow> string \<Rightarrow> string list" where
  "split_n2 sep s =
     (if sep \<in> set s
      then [takeWhile (\<lambda>c. c \<noteq> sep) s, tl (dropWhile (\<lambda>c. c \<noteq> sep) s)]
      else [s])"

fun split_on :: "char \<Rightarrow> string \<Rightarrow> string list" where
  "split_on sep [] = [[]]"
| "split_on sep (c # cs) =
     (if c = sep then [] # split_on sep cs
      else case split_on sep cs of [] \<Rightarrow> [[c]] | t # ts \<Rightarrow> (c # t) # ts)"

text \<open>\<open>strings.Join(xs, sep)\<close>.\<close>

fun join :: "string \<Rightarrow> string list \<Rightarrow> string" where
  "join sep [] = []"
| "join sep [x] = x"
| "join sep (x # y # ys) = x @ sep @ join sep (y # ys)"

definition trim_by :: "(char \<Rightarrow> bool) \<Rightarrow> string \<Rightarrow> string" where
  "trim_by P s = rev (dropWhile P (rev (dropWhile P s)))"

definition trim_space :: "string \<Rightarrow> string" where
  "trim_space = trim_by is_space"

definition trim_newlines :: "string \<Rightarrow> string" where
  "trim_newlines = trim_by (\<lambda>c. c = CHR 0x0A)"

text \<open>\<open>strings.HasPrefix\<close>, \<open>strings.HasSuffix\<close>, \<open>strings.Contains\<close>.\<close>

definition has_prefix :: "string \<Rightarrow> string \<Rightarrow> bool" where
  "has_prefix s pre \<longleftrightarrow> take (length pre) s = pre"

definition has_suffix :: "string \<Rightarrow> string \<Rightarrow> bool" where
  "has_suffix s suf \<longleftrightarrow> has_prefix (rev s) (rev suf)"

fun str_contains :: "string \<Rightarrow> string \<Rightarrow> bool" where
  "str_contains [] sub = (sub = [])"
| "str_contains (c # cs) sub = (has_prefix (c # cs) sub \<or> str_contains cs sub)"

lemma split_on_nonempty [simp]: "split_on sep s \<noteq> []"
  by (induction s) (auto split: list.splits)

lemma split_on_no_sep: "sep \<notin> set s \<Longrightarrow> split_on sep s = [s]"
  by (induction s) auto

lemma split_on_append_sep: "sep \<notin> set s \<Longrightarrow> split_on sep (s @ sep # t) = s # split_on sep t"
  by (induction s) auto

lemma split_on_join:
  "xs \<noteq> [] \<Longrightarrow> \<forall>x\<in>set xs. sep \<notin> set x \<Longrightarrow> split_on sep (join [sep] xs) = xs"
  by (induction "[sep]" xs rule: join.induct) (auto simp: split_on_no_sep split_on_append_sep)

lemma split_n2_key_value: "sep \<notin> set k \<Longrightarrow> split_n2 sep (k @ sep # v) = [k, v]"
proof -
  assume k: "sep \<notin> set k"
  then have "takeWhile (\<lambda>c. c \<noteq> sep) (k @ sep # v) = k"
    and "dropWhile (\<lambda>c. c \<noteq> sep) (k @ sep # v) = sep # v"
    by (induction k) auto
  then show ?thesis by (simp add: split_n2_def)
qed

lemma split_n2_recombine: "split_n2 sep s = [k, v] \<Longrightarrow> s = k @ sep # v \<and> sep \<notin> set k"
proof -
  assume s: "split_n2 sep s = [k, v]"
  then have m: "sep \<in> set s" and k: "k = takeWhile (\<lambda>c. c \<noteq> sep) s"
    and v: "v = tl (dropWhile (\<lambda>c. c \<noteq> sep) s)"
    by (auto simp: split_n2_def split: if_splits)
  from m have ne: "dropWhile (\<lambda>c. c \<noteq> sep) s \<noteq> []" by (simp add: dropWhile_eq_Nil_conv)
  then have "hd (dropWhile (\<lambda>c. c \<noteq> sep) s) = sep" using hd_dropWhile by blast
  with ne v have "dropWhile (\<lambda>c. c \<noteq> sep) s = sep # v" by (metis list.collapse)
  then show ?thesis using k by (metis set_takeWhileD takeWhile_dropWhile_id)
qed

lemma split_n2_cases: "split_n2 sep s = [s] \<or> (\<exists>k v. split_n2 sep s = [k, v])"
  by (simp add: split_n2_def)

end
