(* ===== verification/Go_Net.thy ===== *)
theory Go_Net
  imports Go_Strings
begin

text \<open>
  The parts of Go's \<open>net\<close> package that the sources call. An \<open>IP\<close> is a slice of 4 or 16 bytes
  and a nil \<open>IP\<close> is the empty list; an \<open>IPNet\<close> is an address and a mask. The facts proved here
  are about IPv4 networks in the form \<open>ParseCIDR\<close> returns them: such a network prints and parses
  back to itself, and containment in it is an interval of address values.
\<close>

unbundle bit_operations_syntax

section \<open>Addresses and masks\<close>

type_synonym ip = "byte list"

record ipnet =
  net_IP :: ip
  net_Mask :: "byte list"

abbreviation (input) nil_IP :: ip where
  "nil_IP \<equiv> []"

definition v4InV6Prefix :: "byte list" where
  "v4InV6Prefix = replicate 10 0 @ [255, 255]"

definition IP_To4 :: "ip \<Rightarrow> ip" where
  "IP_To4 ip =
     (if length ip = 4 then ip
      else if length ip = 16 \<and> take 12 ip = v4InV6Prefix then drop 12 ip
      else nil_IP)"

definition IP_To16 :: "ip \<Rightarrow> ip" where
  "IP_To16 ip =
     (if length ip = 4 then v4InV6Prefix @ ip else if length ip = 16 then ip else nil_IP)"

definition IP_Equal :: "ip \<Rightarrow> ip \<Rightarrow> bool" where
  "IP_Equal a b =
     (if length a = length b then a = b
      else if length a = 4 \<and> length b = 16 then take 12 b = v4InV6Prefix \<and> a = drop 12 b
      else if length a = 16 \<and> length b = 4 then take 12 a = v4InV6Prefix \<and> drop 12 a = b
      else False)"

text \<open>One byte of a prefix mask: \<open>k\<close> leading ones.\<close>

definition cidr_byte :: "nat \<Rightarrow> byte" where
  "cidr_byte k = NOT (drop_bit k 255)"

fun cidr_bytes :: "nat \<Rightarrow> nat \<Rightarrow> byte list" where
  "cidr_bytes n 0 = []"
| "cidr_bytes n (Suc l) = cidr_byte (min n 8) # cidr_bytes (n - 8) l"

definition CIDRMask :: "nat \<Rightarrow> nat \<Rightarrow> byte list" where
  "CIDRMask ones bits =
     (if (bits = 32 \<or> bits = 128) \<and> ones \<le> bits then cidr_bytes ones (bits div 8) else [])"

text \<open>The number of leading ones of a mask, \<open>None\<close> when the mask is not a prefix mask.\<close>

fun simple_mask_length :: "byte list \<Rightarrow> nat option" where
  "simple_mask_length [] = Some 0"
| "simple_mask_length (v # vs) =
     (if v = 255 then map_option (\<lambda>n. n + 8) (simple_mask_length vs)
      else case index_of (\<lambda>k. cidr_byte k = v) [0..<8] of
             None \<Rightarrow> None
           | Some k \<Rightarrow> if \<forall>x\<in>set vs. x = 0 then Some k else None)"

definition Mask_Size :: "byte list \<Rightarrow> nat \<times> nat" where
  "Mask_Size m =
     (case simple_mask_length m of None \<Rightarrow> (0, 0) | Some n \<Rightarrow> (n, length m * 8))"

definition IP_Mask :: "ip \<Rightarrow> byte list \<Rightarrow> ip" where
  "IP_Mask ip msk =
     (let msk = (if length msk = 16 \<and> length ip = 4 \<and> (\<forall>x\<in>set (take 12 msk). x = 255)
                  then drop 12 msk else msk);
          ip = (if length msk = 4 \<and> length ip = 16 \<and> take 12 ip = v4InV6Prefix
                then drop 12 ip else ip)
      in if length ip \<noteq> length msk then nil_IP else map2 (AND) ip msk)"

definition networkNumberAndMask :: "ipnet \<Rightarrow> ip \<times> byte list" where
  "networkNumberAndMask n =
     (let ip4 = IP_To4 (net_IP n);
          ip = (if ip4 = nil_IP then net_IP n else ip4);
          m = net_Mask n
      in if ip4 = nil_IP \<and> length ip \<noteq> 16 then (nil_IP, [])
         else if length m = 4 then (if length ip \<noteq> 4 then (nil_IP, []) else (ip, m))
         else if length m = 16 then (ip, if length ip = 4 then drop 12 m else m)
         else (nil_IP, []))"

definition IPNet_Contains :: "ipnet \<Rightarrow> ip \<Rightarrow> bool" where
  "IPNet_Contains n ip =
     (let (nn, m) = networkNumberAndMask n;
          x = IP_To4 ip;
          ip = (if x \<noteq> nil_IP then x else ip)
      in length ip = length nn \<and> map2 (AND) nn m = map2 (AND) ip m)"

section \<open>Printing\<close>

fun show_hex :: "nat \<Rightarrow> string" where
  "show_hex n = (if n < 16 then [digit_char n] else show_hex (n div 16) @ [digit_char (n mod 16)])"

declare show_hex.simps [simp del]

fun hex_groups :: "byte list \<Rightarrow> nat list" where
  "hex_groups (a # b # rest) = (unat a * 256 + unat b) # hex_groups rest"
| "hex_groups _ = []"

definition zero_run :: "nat list \<Rightarrow> nat \<times> nat" where
  "zero_run gs =
     foldl (\<lambda>(e0, len) i.
        let r = length (takeWhile (\<lambda>g. g = 0) (drop i gs)) in if r > len then (i, r) else (e0, len))
       (0, 0) [0..<length gs]"

definition v6_string :: "byte list \<Rightarrow> string" where
  "v6_string p =
     (let gs = hex_groups p; (e0, len) = zero_run gs
      in if len \<le> 1 then join '':'' (map show_hex gs)
         else join '':'' (map show_hex (take e0 gs)) @ ''::''
              @ join '':'' (map show_hex (drop (e0 + len) gs)))"

definition v4_string :: "byte list \<Rightarrow> string" where
  "v4_string p = join ''.'' (map show_word p)"

definition IP_String :: "ip \<Rightarrow> string" where
  "IP_String p =
     (if p = nil_IP then ''<nil>''
      else if IP_To4 p \<noteq> nil_IP then v4_string (IP_To4 p)
      else if length p \<noteq> 16 then ''?''
      else v6_string p)"

definition mask_hex :: "byte list \<Rightarrow> string" where
  "mask_hex m =
     (if m = [] then ''<nil>''
      else concat (map (\<lambda>b. [digit_char (unat b div 16), digit_char (unat b mod 16)]) m))"

definition IPNet_String :: "ipnet \<Rightarrow> string" where
  "IPNet_String n =
     (let (nn, m) = networkNumberAndMask n
      in if nn = nil_IP \<or> m = [] then ''<nil>''
         else case simple_mask_length m of
                None \<Rightarrow> IP_String nn @ ''/'' @ mask_hex m
              | Some l \<Rightarrow> IP_String nn @ ''/'' @ show_nat l)"

section \<open>Parsing\<close>

text \<open>\<open>dtoi\<close> and \<open>xtoi\<close>: the number at the front of a string and what follows it.\<close>

definition dtoi :: "string \<Rightarrow> (nat \<times> string) option" where
  "dtoi s =
     (let ds = takeWhile is_digit s
      in if ds = [] then None
         else case digits_val 10 0 ds of
                None \<Rightarrow> None
              | Some n \<Rightarrow> if int n \<ge> 16777215 then None else Some (n, dropWhile is_digit s))"

definition lower_hex :: "char \<Rightarrow> char" where
  "lower_hex c =
     (case index_of (\<lambda>x. x = c) ''ABCDEF'' of None \<Rightarrow> c | Some i \<Rightarrow> ''abcdef'' ! i)"

definition is_hex :: "char \<Rightarrow> bool" where
  "is_hex c \<longleftrightarrow> digit_val 16 (lower_hex c) \<noteq> None"

definition xtoi :: "string \<Rightarrow> (nat \<times> string) option" where
  "xtoi s =
     (let ds = takeWhile is_hex s
      in if ds = [] then None
         else case digits_val 16 0 (map lower_hex ds) of
                None \<Rightarrow> None
              | Some n \<Rightarrow> if int n \<ge> 16777215 then None else Some (n, dropWhile is_hex s))"

fun v4_octets :: "nat \<Rightarrow> bool \<Rightarrow> string \<Rightarrow> byte list option" where
  "v4_octets 0 first s = (if s = [] then Some [] else None)"
| "v4_octets (Suc j) first s =
     (case (if first then s else if s \<noteq> [] \<and> hd s = CHR ''.'' then tl s else []) of
        [] \<Rightarrow> None
      | c # cs \<Rightarrow>
          (case dtoi (c # cs) of
             None \<Rightarrow> None
           | Some (n, rest) \<Rightarrow>
               if n > 255 then None else map_option (Cons (of_nat n)) (v4_octets j False rest)))"

definition parseIPv4 :: "string \<Rightarrow> ip" where
  "parseIPv4 s = (case v4_octets 4 True s of None \<Rightarrow> nil_IP | Some p \<Rightarrow> v4InV6Prefix @ p)"

text \<open>
  The loop of \<open>parseIPv6\<close>: the bytes read so far, the position of the ellipsis, the unread text.
\<close>

function v6_loop :: "string \<Rightarrow> byte list \<Rightarrow> nat option \<Rightarrow> (string \<times> byte list \<times> nat option) option" where
  "v6_loop s acc ellipsis =
     (if length acc \<ge> 16 then Some (s, acc, ellipsis)
      else case xtoi s of
             None \<Rightarrow> None
           | Some (n, rest) \<Rightarrow>
               if n > 65535 then None
               else if rest \<noteq> [] \<and> hd rest = CHR ''.'' then
                 (if ellipsis = None \<and> length acc \<noteq> 12 \<or> length acc + 4 > 16 then None
                  else case v4_octets 4 True s of
                         None \<Rightarrow> None
                       | Some p \<Rightarrow> Some ([], acc @ p, ellipsis))
               else
                 let acc' = acc @ [of_nat (n div 256), of_nat (n mod 256)]
                 in if rest = [] then Some ([], acc', ellipsis)
                    else if hd rest \<noteq> CHR '':'' \<or> tl rest = [] then None
                    else if hd (tl rest) = CHR '':'' then
                      (if ellipsis \<noteq> None then None
                       else if tl (tl rest) = [] then Some ([], acc', Some (length acc'))
                       else v6_loop (tl (tl rest)) acc' (Some (length acc')))
                    else v6_loop (tl rest) acc' ellipsis)"
  by pat_completeness auto
termination
  by (relation "measure (\<lambda>(s, acc, e). 16 - length acc)") auto

declare v6_loop.simps [simp del]

definition parseIPv6 :: "string \<Rightarrow> ip" where
  "parseIPv6 s =
     (let lead = has_prefix s ''::'' in
      if lead \<and> length s = 2 then replicate 16 0
      else case v6_loop (if lead then drop 2 s else s) [] (if lead then Some 0 else None) of
             None \<Rightarrow> nil_IP
           | Some (rest, acc, ellipsis) \<Rightarrow>
               if rest \<noteq> [] then nil_IP
               else if length acc < 16 then
                 (case ellipsis of
                    None \<Rightarrow> nil_IP
                  | Some e \<Rightarrow> take e acc @ replicate (16 - length acc) 0 @ drop e acc)
               else if ellipsis \<noteq> None then nil_IP else acc)"

definition ParseIP :: "string \<Rightarrow> ip" where
  "ParseIP s =
     (case find (\<lambda>c. c = CHR ''.'' \<or> c = CHR '':'') s of
        None \<Rightarrow> nil_IP
      | Some c \<Rightarrow> if c = CHR ''.'' then parseIPv4 s else parseIPv6 s)"

definition ParseCIDR :: "string \<Rightarrow> (ip \<times> ipnet) option" where
  "ParseCIDR s =
     (case split_n2 (CHR ''/'') s of
        [addr, bits] \<Rightarrow>
          (let ip4 = parseIPv4 addr;
               iplen = (if ip4 \<noteq> nil_IP then 4 else 16);
               ip = (if ip4 \<noteq> nil_IP then ip4 else parseIPv6 addr)
           in if ip = nil_IP then None
              else case dtoi bits of
                     None \<Rightarrow> None
                   | Some (n, rest) \<Rightarrow>
                       if rest \<noteq> [] \<or> n > 8 * iplen then None
                       else let m = CIDRMask n (8 * iplen)
                            in Some (ip, \<lparr>net_IP = IP_Mask ip m, net_Mask = m\<rparr>))
      | _ \<Rightarrow> None)"

section \<open>The value of an address\<close>

text \<open>An address read as a big-endian number; a prefix mask clears its low bits.\<close>

fun ip_val :: "byte list \<Rightarrow> nat" where
  "ip_val [] = 0"
| "ip_val (b # bs) = unat b * 256 ^ length bs + ip_val bs"

lemma unat_byte_less: "unat (b::byte) \<le> 255"
proof -
  have "unat b < 2 ^ LENGTH(8)" by (rule unsigned_less)
  then show ?thesis by simp
qed

lemma ip_val_less: "ip_val bs < 256 ^ length bs"
proof (induction bs)
  case (Cons b bs)
  have "unat b * 256 ^ length bs \<le> 255 * 256 ^ length bs"
    by (rule mult_le_mono1 [OF unat_byte_less])
  then have "unat b * 256 ^ length bs + ip_val bs < 255 * 256 ^ length bs + 256 ^ length bs"
    using Cons by (rule add_le_less_mono)
  then show ?case by simp
qed simp

lemma mult_add_eq_iff:
  fixes a b x y d :: nat
  assumes "x < d" and "y < d"
  shows "a * d + x = b * d + y \<longleftrightarrow> a = b \<and> x = y"
proof
  assume eq: "a * d + x = b * d + y"
  have "(a * d + x) div d = a" "(b * d + y) div d = b"
    using assms by simp_all
  with eq show "a = b \<and> x = y" by simp
qed simp

lemma ip_val_inject: "length xs = length ys \<Longrightarrow> ip_val xs = ip_val ys \<longleftrightarrow> xs = ys"
proof (induction xs ys rule: list_induct2)
  case (Cons x xs y ys)
  have "ip_val ys < 256 ^ length xs" using ip_val_less [of ys] Cons.hyps by simp
  from mult_add_eq_iff [OF ip_val_less [of xs] this] Cons show ?case
    by (simp add: word_unat_eq_iff)
qed simp

lemma cidr_byte_eq:
  assumes "k \<le> 8"
  shows "cidr_byte k = NOT (mask (8 - k))"
proof -
  have "list_all (\<lambda>k. cidr_byte k = NOT (mask (8 - k))) [0..<9]" by code_simp
  then show ?thesis using assms by (simp add: list_all_iff)
qed

lemma unat_and_not_mask: "unat ((a::byte) AND NOT (mask j)) = unat a div 2 ^ j * 2 ^ j"
proof -
  have "unat (a AND NOT (mask j)) = push_bit j (drop_bit j (unat a))"
    by (rule bit_eqI)
      (auto simp: bit_unsigned_iff bit_and_iff bit_not_iff bit_mask_iff bit_push_bit_iff_nat bit_drop_bit_eq
        dest: bit_imp_le_length)
  then show ?thesis by (simp add: push_bit_eq_mult drop_bit_eq_div)
qed

lemma and_not_mask_eq_iff:
  fixes a b :: byte
  shows "a AND NOT (mask j) = b AND NOT (mask j) \<longleftrightarrow> unat a div 2 ^ j = unat b div 2 ^ j"
  by (simp add: word_unat_eq_iff unat_and_not_mask)

lemma and_not_mask_self_iff:
  fixes a :: byte
  shows "a AND NOT (mask j) = a \<longleftrightarrow> 2 ^ j dvd unat a"
proof -
  have "unat a div 2 ^ j * 2 ^ j = unat a \<longleftrightarrow> 2 ^ j dvd unat a"
    by (rule iffI, erule subst, rule dvd_triv_right, rule dvd_div_mult_self)
  then show ?thesis by (simp add: word_unat_eq_iff unat_and_not_mask)
qed

lemma unat_byte_div: "unat (b::byte) div 256 = 0"
  using unat_byte_less [of b] by simp

lemma ip_val_cidr_zero: "ip_val (map2 (AND) xs (cidr_bytes 0 l)) = 0"
proof (induction l arbitrary: xs)
  case (Suc l)
  then show ?case by (cases xs) (simp_all add: cidr_byte_eq unat_and_not_mask unat_byte_div)
qed simp

lemma div_mult_low:
  fixes a v m d :: nat
  assumes "v < m"
  shows "(a * m + v) div (d * m) * (d * m) = a div d * d * m"
proof -
  have "(a * m + v) div m = a" using assms by simp
  then have "(a * m + v) div (m * d) = a div d" by (simp only: div_mult2_eq)
  then show ?thesis by (simp add: mult.commute)
qed

lemma div_mult_high:
  fixes a v m p :: nat
  assumes "p dvd m" and "p > 0"
  shows "(a * m + v) div p * p = a * m + v div p * p"
proof -
  from assms(1) obtain k where m: "m = p * k" by (auto simp: dvd_def)
  have "a * m + v = v + p * (a * k)" by (simp add: m)
  then have "(a * m + v) div p = a * k + v div p" using assms(2) by (simp only: div_mult_self2 neq0_conv)
  then show ?thesis by (simp add: m algebra_simps)
qed

lemma ip_val_masked:
  assumes "length xs = l" and "n \<le> 8 * l"
  shows "ip_val (map2 (AND) xs (cidr_bytes n l)) = ip_val xs div 2 ^ (8 * l - n) * 2 ^ (8 * l - n)"
  using assms
proof (induction l arbitrary: xs n)
  case (Suc l)
  then obtain b bs where xs: "xs = b # bs" and l: "length bs = l" by (cases xs) auto
  have pow: "(256::nat) ^ l = 2 ^ (8 * l)" by (simp add: power_mult)
  have len: "length (cidr_bytes k l) = l" for k by (induction l arbitrary: k) auto
  show ?case
  proof (cases "n < 8")
    case True
    then have e: "8 * Suc l - n = (8 - n) + 8 * l" by simp
    have "ip_val (map2 (AND) xs (cidr_bytes n (Suc l))) = unat b div 2 ^ (8 - n) * 2 ^ (8 - n) * 256 ^ l"
      using True by (simp add: xs l len cidr_byte_eq unat_and_not_mask ip_val_cidr_zero)
    also have "\<dots> = ip_val xs div (2 ^ (8 - n) * 256 ^ l) * (2 ^ (8 - n) * 256 ^ l)"
      using ip_val_less [of bs] by (simp only: div_mult_low xs l ip_val.simps)
    finally show ?thesis by (simp only: e pow power_add)
  next
    case False
    then have e: "8 * Suc l - n = 8 * l - (n - 8)" and le: "n - 8 \<le> 8 * l" using Suc.prems by auto
    have dvd: "(2::nat) ^ (8 * l - (n - 8)) dvd 256 ^ l" unfolding pow by (rule le_imp_power_dvd) simp
    have "ip_val (map2 (AND) xs (cidr_bytes n (Suc l)))
        = unat b * 256 ^ l + ip_val bs div 2 ^ (8 * l - (n - 8)) * 2 ^ (8 * l - (n - 8))"
      using False Suc.IH [OF l le] by (simp add: xs l len cidr_byte_eq)
    also have "\<dots> = ip_val xs div 2 ^ (8 * l - (n - 8)) * 2 ^ (8 * l - (n - 8))"
      by (simp only: xs l ip_val.simps div_mult_high [OF dvd] zero_less_power zero_less_numeral)
    finally show ?thesis by (simp only: e)
  qed
qed simp


section \<open>IPv4 networks\<close>

definition v4_net :: "ipnet \<Rightarrow> nat \<Rightarrow> bool" where
  "v4_net n k \<longleftrightarrow> length (net_IP n) = 4 \<and> k \<le> 32 \<and> net_Mask n = CIDRMask k 32
     \<and> 2 ^ (32 - k) dvd ip_val (net_IP n)"

definition is_v4 :: "ip \<Rightarrow> bool" where
  "is_v4 ip \<longleftrightarrow> IP_To4 ip \<noteq> nil_IP"

lemma length_cidr_bytes [simp]: "length (cidr_bytes n l) = l"
  by (induction l arbitrary: n) auto

lemma CIDRMask_32: "k \<le> 32 \<Longrightarrow> CIDRMask k 32 = cidr_bytes k 4"
  by (simp add: CIDRMask_def)

lemma length_To4: "is_v4 ip \<Longrightarrow> length (IP_To4 ip) = 4"
  by (auto simp: is_v4_def IP_To4_def split: if_splits)

lemma To4_id [simp]: "length ip = 4 \<Longrightarrow> IP_To4 ip = ip"
  by (simp add: IP_To4_def)

lemma is_v4_4 [simp]: "length ip = 4 \<Longrightarrow> is_v4 ip"
  by (auto simp: is_v4_def)

lemma length_v4InV6Prefix [simp]: "length v4InV6Prefix = 12"
  by (simp add: v4InV6Prefix_def)

lemma v4InV6Prefix_nonempty [simp]: "v4InV6Prefix \<noteq> []"
  by (simp add: v4InV6Prefix_def)

lemma To4_prefix [simp]: "length ip = 4 \<Longrightarrow> IP_To4 (v4InV6Prefix @ ip) = ip"
  by (simp add: IP_To4_def)

lemma To16_eq_To4: "is_v4 ip \<Longrightarrow> IP_To16 ip = v4InV6Prefix @ IP_To4 ip"
  by (auto simp: is_v4_def IP_To4_def IP_To16_def split: if_splits) (metis append_take_drop_id)

lemma To16_inject: "is_v4 a \<Longrightarrow> is_v4 b \<Longrightarrow> IP_To16 a = IP_To16 b \<longleftrightarrow> IP_To4 a = IP_To4 b"
  by (simp add: To16_eq_To4)

lemma is_v4_To16 [simp]: "is_v4 ip \<Longrightarrow> is_v4 (IP_To16 ip)"
  by (simp add: To16_eq_To4 length_To4 is_v4_def [of "_ @ _"]) (auto simp: is_v4_def)

lemma To4_To16 [simp]: "is_v4 ip \<Longrightarrow> IP_To4 (IP_To16 ip) = IP_To4 ip"
  by (simp add: To16_eq_To4 length_To4)

lemma IP_Equal_v4: "is_v4 a \<Longrightarrow> is_v4 b \<Longrightarrow> IP_Equal a b \<longleftrightarrow> IP_To4 a = IP_To4 b"
  by (auto simp: is_v4_def IP_To4_def IP_Equal_def split: if_splits) (metis append_take_drop_id)+

lemma network_number_v4: "v4_net n k \<Longrightarrow> networkNumberAndMask n = (net_IP n, net_Mask n)"
  by (auto simp: v4_net_def networkNumberAndMask_def CIDRMask_32 Let_def)

lemma masked_eq_iff:
  assumes "length xs = l" and "length ys = l" and "n \<le> 8 * l"
  shows "map2 (AND) xs (cidr_bytes n l) = map2 (AND) ys (cidr_bytes n l)
    \<longleftrightarrow> ip_val xs div 2 ^ (8 * l - n) = ip_val ys div 2 ^ (8 * l - n)"
proof -
  have "map2 (AND) xs (cidr_bytes n l) = map2 (AND) ys (cidr_bytes n l)
    \<longleftrightarrow> ip_val (map2 (AND) xs (cidr_bytes n l)) = ip_val (map2 (AND) ys (cidr_bytes n l))"
    using assms by (simp add: ip_val_inject)
  then show ?thesis using assms by (simp add: ip_val_masked)
qed

lemma div_eq_interval:
  fixes a b p :: nat
  assumes "p dvd a" and "p > 0"
  shows "a div p = b div p \<longleftrightarrow> a \<le> b \<and> b < a + p"
proof -
  from assms(1) obtain k where a: "a = p * k" by (auto simp: dvd_def)
  have "k = b div p \<longleftrightarrow> p * k \<le> b \<and> b < p * k + p"
    using assms(2) by (metis (no_types, lifting) add.commute dividend_less_times_div div_nat_eqI
        mult.commute mult_Suc times_div_less_eq_dividend)
  then show ?thesis using assms(2) by (simp add: a)
qed

lemma Contains_v4:
  assumes "v4_net n k" and "is_v4 ip"
  shows "IPNet_Contains n ip
    \<longleftrightarrow> ip_val (net_IP n) \<le> ip_val (IP_To4 ip) \<and> ip_val (IP_To4 ip) < ip_val (net_IP n) + 2 ^ (32 - k)"
proof -
  have "IPNet_Contains n ip
    \<longleftrightarrow> map2 (AND) (net_IP n) (cidr_bytes k 4) = map2 (AND) (IP_To4 ip) (cidr_bytes k 4)"
    using assms length_To4 [OF assms(2)]
    by (simp add: IPNet_Contains_def network_number_v4 is_v4_def) (simp add: v4_net_def CIDRMask_32)
  also have "\<dots> \<longleftrightarrow> ip_val (net_IP n) div 2 ^ (32 - k) = ip_val (IP_To4 ip) div 2 ^ (32 - k)"
    using masked_eq_iff [of "net_IP n" 4 "IP_To4 ip" k] assms length_To4 by (simp add: v4_net_def)
  finally show ?thesis using assms by (simp add: div_eq_interval v4_net_def)
qed

lemma Contains_not_v4: "v4_net n k \<Longrightarrow> \<not> is_v4 ip \<Longrightarrow> \<not> IPNet_Contains n ip"
  by (auto simp: IPNet_Contains_def network_number_v4 is_v4_def v4_net_def IP_To4_def split: if_splits)


section \<open>Printing and parsing IPv4 networks\<close>

lemma dtoi_show_nat:
  assumes "n < 16777215" and "rest = [] \<or> \<not> is_digit (hd rest)"
  shows "dtoi (show_nat n @ rest) = Some (n, rest)"
proof -
  have all: "\<forall>c\<in>set (show_nat n). is_digit c" by (rule show_nat_digits)
  have "takeWhile is_digit rest = []" using assms(2) by (cases rest) auto
  moreover have "dropWhile is_digit rest = rest" using assms(2) by (cases rest) auto
  ultimately have "takeWhile is_digit (show_nat n @ rest) = show_nat n"
    and "dropWhile is_digit (show_nat n @ rest) = rest"
    using all by (simp_all add: takeWhile_append2 dropWhile_append2)
  then show ?thesis using assms(1) by (simp add: dtoi_def digits_val_show_nat)
qed

lemma dot_slash_not_digit [simp]: "\<not> is_digit (CHR ''.'')" "\<not> is_digit (CHR ''/'')"
  by (simp_all add: is_digit_cases)

lemma length_4_cases:
  assumes "length xs = 4"
  obtains a b c d where "xs = [a, b, c, d]"
  using assms by (auto simp: eval_nat_numeral length_Suc_conv)

lemma v4_octets_Suc_first:
  assumes "rest = [] \<or> \<not> is_digit (hd rest)"
  shows "v4_octets (Suc j) True (show_word (b::byte) @ rest) = map_option (Cons b) (v4_octets j False rest)"
proof -
  have b: "unat b \<le> 255" by (rule unat_byte_less)
  then have "dtoi (show_nat (unat b) @ rest) = Some (unat b, rest)"
    using assms by (intro dtoi_show_nat) auto
  with b show ?thesis
    by (cases "show_nat (unat b) @ rest") (auto simp: show_word_def)
qed

lemma v4_octets_Suc_dot: "v4_octets (Suc j) False (CHR ''.'' # s) = v4_octets (Suc j) True s"
  by simp

lemma v4_octets_v4_string: "length p = 4 \<Longrightarrow> v4_octets 4 True (v4_string p) = Some p"
proof (erule length_4_cases)
  fix a b c d assume p: "p = [a, b, c, d]"
  have "v4_octets (Suc (Suc (Suc (Suc 0)))) True
      (show_word a @ CHR ''.'' # show_word b @ CHR ''.'' # show_word c @ CHR ''.'' # show_word d @ [])
    = Some p"
    by (simp only: v4_octets_Suc_first v4_octets_Suc_dot list.sel dot_slash_not_digit simp_thms p)
      simp
  then show ?thesis by (simp add: p v4_string_def numeral_Bit0)
qed

lemma parseIPv4_v4_string: "length p = 4 \<Longrightarrow> parseIPv4 (v4_string p) = v4InV6Prefix @ p"
  by (simp add: parseIPv4_def v4_octets_v4_string)

lemma v4_string_no_slash: "length p = 4 \<Longrightarrow> CHR ''/'' \<notin> set (v4_string p)"
  by (erule length_4_cases) (auto simp: v4_string_def show_word_def show_nat_no_char)

lemma v4_string_inject:
  "length p = 4 \<Longrightarrow> length q = 4 \<Longrightarrow> v4_string p = v4_string q \<longleftrightarrow> p = q"
  by (metis option.inject v4_octets_v4_string)

lemma simple_mask_length_CIDRMask: "k \<le> 32 \<Longrightarrow> simple_mask_length (CIDRMask k 32) = Some k"
proof -
  assume k: "k \<le> 32"
  have "list_all (\<lambda>k. simple_mask_length (CIDRMask k 32) = Some k) [0..<33]" by code_simp
  then show ?thesis using k by (simp add: list_all_iff)
qed

lemma IPNet_String_v4:
  assumes "v4_net n k"
  shows "IPNet_String n = v4_string (net_IP n) @ ''/'' @ show_nat k"
proof -
  from assms have k: "k \<le> 32" and m: "net_Mask n = CIDRMask k 32" and l: "length (net_IP n) = 4"
    by (auto simp: v4_net_def)
  then have "net_Mask n \<noteq> []" by (metis CIDRMask_32 length_cidr_bytes list.size(3) zero_neq_numeral)
  moreover from l have "net_IP n \<noteq> []" by auto
  ultimately show ?thesis
    using k l simple_mask_length_CIDRMask [OF k]
    by (simp add: IPNet_String_def network_number_v4 [OF assms] m IP_String_def)
qed

lemma IP_Mask_v4:
  assumes "v4_net n k"
  shows "IP_Mask (v4InV6Prefix @ net_IP n) (net_Mask n) = net_IP n"
proof -
  from assms have k: "k \<le> 32" and m: "net_Mask n = cidr_bytes k 4" and l: "length (net_IP n) = 4"
    by (auto simp: v4_net_def CIDRMask_32)
  have "IP_Mask (v4InV6Prefix @ net_IP n) (net_Mask n) = map2 (AND) (net_IP n) (cidr_bytes k 4)"
    by (simp add: IP_Mask_def m l)
  moreover have "ip_val \<dots> = ip_val (net_IP n)"
    using ip_val_masked [of "net_IP n" 4 k] assms k by (simp add: v4_net_def dvd_div_mult_self)
  ultimately show ?thesis by (simp add: ip_val_inject l)
qed

lemma ParseCIDR_String:
  assumes "v4_net n k"
  shows "ParseCIDR (IPNet_String n) = Some (IP_To16 (net_IP n), n)"
proof -
  from assms have k: "k \<le> 32" and m: "net_Mask n = CIDRMask k 32" and l: "length (net_IP n) = 4"
    by (auto simp: v4_net_def)
  have "split_n2 (CHR ''/'') (IPNet_String n) = [v4_string (net_IP n), show_nat k]"
    by (simp add: IPNet_String_v4 [OF assms] split_n2_key_value v4_string_no_slash l)
  moreover have "dtoi (show_nat k) = Some (k, [])" using dtoi_show_nat [of k "[]"] k by simp
  moreover have "\<lparr>net_IP = net_IP n, net_Mask = net_Mask n\<rparr> = n" by simp
  ultimately show ?thesis using k l IP_Mask_v4 [OF assms]
    by (simp add: ParseCIDR_def parseIPv4_v4_string To16_eq_To4 m Let_def)
qed

lemma IPNet_String_inject:
  assumes "v4_net a j" and "v4_net b k"
  shows "IPNet_String a = IPNet_String b \<longleftrightarrow> a = b"
  by (metis ParseCIDR_String assms option.inject prod.inject)

lemma IP_String_v4: "is_v4 ip \<Longrightarrow> IP_String ip = v4_string (IP_To4 ip)"
  by (auto simp: IP_String_def is_v4_def IP_To4_def)

lemma IP_String_inject: "is_v4 a \<Longrightarrow> is_v4 b \<Longrightarrow> IP_String a = IP_String b \<longleftrightarrow> IP_To4 a = IP_To4 b"
  by (simp add: IP_String_v4 v4_string_inject length_To4)

end
