(* ===== verification/Subnets.thy ===== *)
theory Subnets
  imports Go_Net Allocation
begin

text \<open>
  The subnet pool (\<open>network/subnets\<close>): the arithmetic on addresses, the static and dynamic
  selectors of subnets and addresses, and the pool's four operations. Allocated subnets are keyed
  by their text in CIDR form, as in the source. The theorems: the dynamic selectors are searches for
  the first free slot, no subnet and address pair is ever held twice, and the allocated subnets stay
  disjoint.
\<close>

unbundle bit_operations_syntax

section \<open>Address arithmetic\<close>

text \<open>The loop of \<open>next\<close>: increment byte \<open>i - 1\<close> of the copy and carry while it wraps to zero.\<close>

fun next_loop :: "nat \<Rightarrow> ip \<Rightarrow> ip res" where
  "next_loop 0 ip = Panic ''overflowed maximum IP''"
| "next_loop (Suc i) ip =
     (let ip' = ip[i := ip ! i + 1] in if ip' ! i \<noteq> 0 then Ok ip' else next_loop i ip')"

definition IP_next :: "ip \<Rightarrow> ip res" where
  "IP_next ip = next_loop (length ip) ip"

definition IPNet_max :: "ipnet \<Rightarrow> ip res" where
  "IPNet_max n =
     (if length (net_Mask n) \<noteq> length (net_IP n)
      then Panic ''length of mask is not compatible with length of network IP''
      else Ok (IP_To16 (map2 (\<lambda>m b. m OR NOT b) (net_IP n) (net_Mask n))))"

definition IPNet_equals :: "ipnet \<Rightarrow> ipnet \<Rightarrow> bool" where
  "IPNet_equals a b \<longleftrightarrow>
     IP_Equal (net_IP a) (net_IP b) \<and> Mask_Size (net_Mask a) = Mask_Size (net_Mask b)"

definition overlaps :: "ipnet \<Rightarrow> ipnet \<Rightarrow> bool" where
  "overlaps a b \<longleftrightarrow> IPNet_Contains a (net_IP b) \<or> IPNet_Contains b (net_IP a)"

definition GatewayIP :: "ipnet \<Rightarrow> ip res" where
  "GatewayIP subnet = IP_next (net_IP subnet)"

definition NetworkIP :: "ipnet \<Rightarrow> ip" where
  "NetworkIP subnet = net_IP subnet"

definition BroadcastIP :: "ipnet \<Rightarrow> ip res" where
  "BroadcastIP subnet = IPNet_max subnet"

text \<open>The encoding of a number as \<open>l\<close> bytes, the inverse of \<^const>\<open>ip_val\<close>.\<close>

fun val_ip :: "nat \<Rightarrow> nat \<Rightarrow> ip" where
  "val_ip 0 n = []"
| "val_ip (Suc l) n = of_nat (n div 256 ^ l) # val_ip l (n mod 256 ^ l)"

lemma length_val_ip [simp]: "length (val_ip l n) = l"
  by (induction l arbitrary: n) auto

lemma ip_val_val_ip: "n < 256 ^ l \<Longrightarrow> ip_val (val_ip l n) = n"
proof (induction l arbitrary: n)
  case (Suc l)
  have "n div 256 ^ l < 256" using Suc.prems by (simp add: less_mult_imp_div_less)
  then have "unat (of_nat (n div 256 ^ l) :: byte) = n div 256 ^ l"
    by (simp add: unat_of_nat)
  with Suc.IH [of "n mod 256 ^ l"] show ?case by (simp add: div_mult_mod_eq)
qed simp

lemma val_ip_ip_val: "length ip = l \<Longrightarrow> val_ip l (ip_val ip) = ip"
  using ip_val_inject [of "val_ip l (ip_val ip)" ip] ip_val_val_ip [of "ip_val ip" l] ip_val_less [of ip]
  by simp

lemma val_ip_eq_iff: "m < 256 ^ l \<Longrightarrow> n < 256 ^ l \<Longrightarrow> val_ip l m = val_ip l n \<longleftrightarrow> m = n"
  by (metis ip_val_val_ip)

lemma ip_val_snoc: "ip_val (xs @ [b]) = ip_val xs * 256 + unat b"
  by (induction xs) (simp_all add: algebra_simps)

lemma byte_inc: "unat ((b::byte) + 1) = (unat b + 1) mod 256"
  by (simp add: unat_word_ariths)

lemma byte_inc_zero: "(b::byte) + 1 = 0 \<longleftrightarrow> unat b = 255"
  using unat_byte_less [of b] byte_inc [of b] by (auto simp: word_unat_eq_iff mod_eq_0_iff_dvd dest: dvd_imp_le)

lemma val_ip_eqI: "length ip = l \<Longrightarrow> ip_val ip = n \<Longrightarrow> val_ip l n = ip"
  by (auto simp: val_ip_ip_val)

lemma next_loop_correct:
  "next_loop (length xs) (xs @ ys) =
     (if ip_val xs + 1 < 256 ^ length xs then Ok (val_ip (length xs) (ip_val xs + 1) @ ys)
      else Panic ''overflowed maximum IP'')"
proof (induction xs arbitrary: ys rule: rev_induct)
  case (snoc b xs)
  have v: "ip_val xs < 256 ^ length xs" by (rule ip_val_less)
  have b: "unat b \<le> 255" by (rule unat_byte_less)
  show ?case
  proof (cases "unat b = 255")
    case True
    then have z: "b + 1 = 0" by (simp add: byte_inc_zero)
    have "val_ip (Suc (length xs)) ((ip_val xs + 1) * 256) = val_ip (length xs) (ip_val xs + 1) @ [0]"
      if "ip_val xs + 1 < 256 ^ length xs"
      using that by (intro val_ip_eqI) (simp_all add: ip_val_snoc ip_val_val_ip)
    with True z snoc.IH [of "0 # ys"] show ?thesis
      by (simp add: ip_val_snoc Let_def)
  next
    case False
    then have nz: "b + 1 \<noteq> 0" and u: "unat (b + 1) = unat b + 1"
      using b byte_inc [of b] by (simp_all add: byte_inc_zero)
    have lt: "ip_val (xs @ [b]) + 1 < 256 ^ length (xs @ [b])"
      using v b False by (simp add: ip_val_snoc)
    have "val_ip (length (xs @ [b])) (ip_val (xs @ [b]) + 1) = xs @ [b + 1]"
      using u by (intro val_ip_eqI) (simp_all add: ip_val_snoc)
    with lt nz show ?thesis by (simp add: Let_def)
  qed
qed simp

lemma IP_next_eq:
  "IP_next ip = (if ip_val ip + 1 < 256 ^ length ip then Ok (val_ip (length ip) (ip_val ip + 1))
     else Panic ''overflowed maximum IP'')"
  using next_loop_correct [of ip "[]"] by (simp add: IP_next_def)

lemma IP_next_Ok: "IP_next ip = Ok ip' \<Longrightarrow> length ip' = length ip \<and> ip_val ip' = ip_val ip + 1"
  by (auto simp: IP_next_eq ip_val_val_ip split: if_splits)

section \<open>Selectors\<close>

datatype subnet_selector = StaticSubnetSelector ipnet | DynamicSubnetSelector
datatype ip_selector = StaticIPSelector ip | DynamicIPSelector

definition static_SelectSubnet :: "ipnet \<Rightarrow> ipnet \<Rightarrow> ipnet list \<Rightarrow> ipnet res" where
  "static_SelectSubnet s dynamic existing =
     (if overlaps dynamic s then Err (SubnetsError (OverlapsDynamicRange (IPNet_String s) (IPNet_String dynamic)))
      else case find (\<lambda>e. overlaps s e \<and> \<not> IPNet_equals s e) existing of
             Some e \<Rightarrow> Err (SubnetsError (OverlapsExisting (IPNet_String s) (IPNet_String e)))
           | None \<Rightarrow> Ok s)"

text \<open>
  The loop of the dynamic selector. \<open>exists\<close> holds the texts of the allocated subnets; each round
  moves four addresses on. It ends because \<^const>\<open>IP_next\<close> increases the value of the address.
\<close>

function dynamic_subnet_loop :: "ipnet \<Rightarrow> string list \<Rightarrow> ip \<Rightarrow> ipnet res" where
  "dynamic_subnet_loop dynamic exists ip =
     (if \<not> IPNet_Contains dynamic ip then Err (SubnetsError ErrInsufficientSubnets)
      else let subnet = \<lparr>net_IP = ip, net_Mask = CIDRMask 30 32\<rparr> in
        res_bind (IP_next ip) (\<lambda>ip1. res_bind (IP_next ip1) (\<lambda>ip2. res_bind (IP_next ip2) (\<lambda>ip3.
          if IPNet_Contains dynamic ip3 \<and> IPNet_String subnet \<notin> set exists then Ok subnet
          else res_bind (IP_next ip3) (dynamic_subnet_loop dynamic exists)))))"
  by pat_completeness auto
termination
proof (relation "measure (\<lambda>(d, e, ip). 256 ^ length ip - ip_val ip)", goal_cases)
  case (2 dynamic exists ip subnet ip1 ip2 ip3 ip4)
  then have "length ip4 = length ip \<and> ip_val ip4 = ip_val ip + 4"
    by (auto dest!: IP_next_Ok)
  moreover have "ip_val ip4 < 256 ^ length ip4" by (rule ip_val_less)
  ultimately show ?case by simp
qed simp

declare dynamic_subnet_loop.simps [simp del]

definition dynamic_SelectSubnet :: "ipnet \<Rightarrow> ipnet list \<Rightarrow> ipnet res" where
  "dynamic_SelectSubnet dynamic existing =
     dynamic_subnet_loop dynamic (map IPNet_String existing) (net_IP dynamic)"

definition SelectSubnet :: "subnet_selector \<Rightarrow> ipnet \<Rightarrow> ipnet list \<Rightarrow> ipnet res" where
  "SelectSubnet sn dynamic existing =
     (case sn of
        StaticSubnetSelector s \<Rightarrow> static_SelectSubnet s dynamic existing
      | DynamicSubnetSelector \<Rightarrow> dynamic_SelectSubnet dynamic existing)"

definition static_SelectIP :: "ip \<Rightarrow> ipnet \<Rightarrow> ip list \<Rightarrow> ip res" where
  "static_SelectIP ip subnet existing =
     res_bind (BroadcastIP subnet) (\<lambda>broadcast.
       if IP_Equal broadcast ip then Err (SubnetsError ErrIPEqualsBroadcast)
       else res_bind (GatewayIP subnet) (\<lambda>gateway.
         if IP_Equal gateway ip then Err (SubnetsError ErrIPEqualsGateway)
         else if \<not> IPNet_Contains subnet ip then Err (SubnetsError ErrInvalidIP)
         else if list_ex (\<lambda>e. IP_Equal e ip) existing then Err (SubnetsError ErrIPAlreadyAcquired)
         else Ok ip))"

function dynamic_ip_loop :: "ipnet \<Rightarrow> string list \<Rightarrow> ip \<Rightarrow> ip res" where
  "dynamic_ip_loop subnet exists i =
     (if \<not> IPNet_Contains subnet i then Err (SubnetsError ErrInsufficientIPs)
      else if IP_String i \<notin> set exists then Ok i
      else res_bind (IP_next i) (dynamic_ip_loop subnet exists))"
  by pat_completeness auto
termination
proof (relation "measure (\<lambda>(d, e, ip). 256 ^ length ip - ip_val ip)", goal_cases)
  case (2 subnet exists i i')
  then have "length i' = length i \<and> ip_val i' = ip_val i + 1" by (auto dest!: IP_next_Ok)
  moreover have "ip_val i' < 256 ^ length i'" by (rule ip_val_less)
  ultimately show ?case by simp
qed simp

declare dynamic_ip_loop.simps [simp del]

definition dynamic_SelectIP :: "ipnet \<Rightarrow> ip list \<Rightarrow> ip res" where
  "dynamic_SelectIP subnet existing = dynamic_ip_loop subnet (map IP_String existing) (net_IP subnet)"

definition SelectIP :: "ip_selector \<Rightarrow> ipnet \<Rightarrow> ip list \<Rightarrow> ip res" where
  "SelectIP i subnet existing =
     (case i of
        StaticIPSelector ip \<Rightarrow> static_SelectIP ip subnet existing
      | DynamicIPSelector \<Rightarrow> dynamic_SelectIP subnet existing)"

section \<open>The pool\<close>

record network =
  Subnet :: ipnet
  IP :: ip

record subnet_pool =
  allocated :: "(string \<times> ip list) list"
  dynamicRange :: ipnet

definition NewSubnets :: "ipnet \<Rightarrow> subnet_pool" where
  "NewSubnets ipNet = \<lparr>allocated = [], dynamicRange = ipNet\<rparr>"

definition allocated_ips :: "subnet_pool \<Rightarrow> string \<Rightarrow> ip list" where
  "allocated_ips p k = (case map_of (allocated p) k of None \<Rightarrow> [] | Some ips \<Rightarrow> ips)"

text \<open>
  \<open>subnets\<close> ranges over a Go map, whose order is unspecified: the order is the parameter
  \<open>rng\<close>, a permutation of the entries that each call is free to choose.
\<close>

fun subnets_of :: "(string \<times> ip list) list \<Rightarrow> ipnet list res" where
  "subnets_of [] = Ok []"
| "subnets_of ((k, v) # m) =
     (if v = [] then subnets_of m
      else case ParseCIDR k of
             None \<Rightarrow> Panic (''failed to parse a CIDR in the subnet pool: '' @ k)
           | Some (_, ipn) \<Rightarrow> res_bind (subnets_of m) (\<lambda>r. Ok (ipn # r)))"

type_synonym alloc_order = "(string \<times> ip list) list \<Rightarrow> (string \<times> ip list) list"

fun SubnetPool_Acquire ::
  "subnet_selector \<times> ip_selector \<times> alloc_order \<Rightarrow> subnet_pool \<Rightarrow> network res \<times> subnet_pool" where
  "SubnetPool_Acquire (sn, i, rng) p =
     (case res_bind (subnets_of (rng (allocated p))) (SelectSubnet sn (dynamicRange p)) of
        Err e \<Rightarrow> (Err e, p)
      | Panic m \<Rightarrow> (Panic m, p)
      | Ok subnet \<Rightarrow>
          (let ips = allocated_ips p (IPNet_String subnet) in
           case res_bind (GatewayIP subnet) (\<lambda>gateway. res_bind (BroadcastIP subnet) (\<lambda>broadcast.
                  SelectIP i subnet (ips @ [NetworkIP subnet, gateway, broadcast]))) of
             Err e \<Rightarrow> (Err e, p)
           | Panic m \<Rightarrow> (Panic m, p)
           | Ok ip \<Rightarrow>
               (Ok \<lparr>Subnet = subnet, IP = ip\<rparr>,
                p\<lparr>allocated := AList.update (IPNet_String subnet) (ips @ [ip]) (allocated p)\<rparr>)))"

definition SubnetPool_Remove :: "network \<Rightarrow> subnet_pool \<Rightarrow> unit res \<times> subnet_pool" where
  "SubnetPool_Remove nw p =
     (let k = IPNet_String (Subnet nw); ips = allocated_ips p k in
      if IP nw = nil_IP then (Err (SubnetsError ErrIpCannotBeNil), p)
      else if list_ex (\<lambda>e. IP_Equal e (IP nw)) ips then (Err (SubnetsError ErrOverlapsExistingSubnet), p)
      else (Ok (), p\<lparr>allocated := AList.update k (ips @ [IP nw]) (allocated p)\<rparr>))"

text \<open>The last address takes the place of the removed one.\<close>

definition removeIPAtIndex :: "ip list \<Rightarrow> nat \<Rightarrow> ip list \<times> bool" where
  "removeIPAtIndex ips i =
     (let l = length ips in (take (l - 1) (ips[i := ips ! (l - 1)]), l = 1))"

definition SubnetPool_Release :: "network \<Rightarrow> subnet_pool \<Rightarrow> unit res \<times> subnet_pool" where
  "SubnetPool_Release nw p =
     (let k = IPNet_String (Subnet nw); ips = allocated_ips p k in
      case index_of (\<lambda>v. IP_Equal v (IP nw)) ips of
        None \<Rightarrow> (Err (SubnetsError ErrReleasedUnallocatedSubnet), p)
      | Some i \<Rightarrow>
          (case removeIPAtIndex ips i of
             (reduced, emptied) \<Rightarrow>
               (Ok (), if emptied then p\<lparr>allocated := AList.delete k (allocated p)\<rparr>
                       else p\<lparr>allocated := AList.update k reduced (allocated p)\<rparr>)))"

text \<open>
  \<open>Capacity\<close> computes with \<open>float64\<close>; powers of two are exact there, and the conversion back
  truncates.
\<close>

definition SubnetPool_Capacity :: "subnet_pool \<Rightarrow> nat" where
  "SubnetPool_Capacity p =
     (let (masked, total) = Mask_Size (net_Mask (dynamicRange p)) in 2 ^ (total - masked) div 4)"

section \<open>The dynamic selectors as searches\<close>

text \<open>The \<open>i\<close>-th /30 subnet of a range.\<close>

definition slot :: "ipnet \<Rightarrow> nat \<Rightarrow> ipnet" where
  "slot d i = \<lparr>net_IP = val_ip 4 (ip_val (net_IP d) + 4 * i), net_Mask = CIDRMask 30 32\<rparr>"

lemma IP_next_val_ip:
  "v < 4294967296 \<Longrightarrow> IP_next (val_ip 4 v) =
     (if v + 1 < 4294967296 then Ok (val_ip 4 (v + 1)) else Panic ''overflowed maximum IP'')"
  by (simp add: IP_next_eq ip_val_val_ip)

lemma v4_net_val_less: "v4_net d k \<Longrightarrow> ip_val (net_IP d) < 4294967296"
  using ip_val_less [of "net_IP d"] by (simp add: v4_net_def)

lemma v4_net_end: "v4_net d k \<Longrightarrow> ip_val (net_IP d) + 2 ^ (32 - k) \<le> 4294967296"
proof -
  assume d: "v4_net d k"
  then have dvd: "2 ^ (32 - k) dvd ip_val (net_IP d)" and k: "k \<le> 32" by (auto simp: v4_net_def)
  have "(2::nat) ^ (32 - k) dvd 2 ^ 32" by (rule le_imp_power_dvd) simp
  then obtain m where m: "(4294967296::nat) = 2 ^ (32 - k) * m" by (auto simp: dvd_def)
  from dvd obtain b where b: "ip_val (net_IP d) = 2 ^ (32 - k) * b" by (auto simp: dvd_def)
  have "b < m" using v4_net_val_less [OF d] unfolding m b by simp
  then have "2 ^ (32 - k) * (b + 1) \<le> 2 ^ (32 - k) * m" by (intro mult_le_mono2) simp
  then show ?thesis by (simp add: m b)
qed

lemma Contains_val_ip:
  assumes "v4_net d k" and "v < 4294967296"
  shows "IPNet_Contains d (val_ip 4 v) \<longleftrightarrow> ip_val (net_IP d) \<le> v \<and> v < ip_val (net_IP d) + 2 ^ (32 - k)"
  using Contains_v4 [OF assms(1), of "val_ip 4 v"] assms(2) by (simp add: ip_val_val_ip)

lemma find_upt_step:
  "j < n \<Longrightarrow> find P [j..<n] = (if P j then Some j else find P [Suc j..<n])"
  by (simp add: upt_conv_Cons)

lemma dynamic_subnet_loop_eq:
  assumes d: "v4_net d k" and k: "k \<le> 30"
    and j: "j \<le> 2 ^ (30 - k)" "ip_val (net_IP d) + 4 * j < 4294967296"
  shows "dynamic_subnet_loop d exists (net_IP (slot d j)) =
    (case find (\<lambda>i. IPNet_String (slot d i) \<notin> set exists) [j..<2 ^ (30 - k)] of
       Some i \<Rightarrow> Ok (slot d i)
     | None \<Rightarrow> if ip_val (net_IP d) + 2 ^ (32 - k) < 4294967296
               then Err (SubnetsError ErrInsufficientSubnets)
               else Panic ''overflowed maximum IP'')"
proof -
  define base where "base = ip_val (net_IP d)"
  have "32 - k = 2 + (30 - k)" using k by simp
  then have n4: "(2::nat) ^ (32 - k) = 4 * 2 ^ (30 - k)" by (simp only: power_add) simp
  note en = v4_net_end [OF d, folded base_def, unfolded n4]
  show ?thesis using j unfolding base_def [symmetric]
  proof (induction "2 ^ (30 - k) - j" arbitrary: j)
    case 0
    then have "j = 2 ^ (30 - k)" by simp
    with "0.prems" show ?case
      by (simp add: dynamic_subnet_loop.simps [of d] slot_def Contains_val_ip [OF d] base_def [symmetric] n4)
  next
    case (Suc m)
    then have lt: "j < 2 ^ (30 - k)" by simp
    then have b: "base + 4 * j + 3 < base + 4 * 2 ^ (30 - k)" by simp
    with en have c: "base + 4 * j + 3 < 4294967296" by linarith
    have e: "Suc (Suc (Suc (Suc (base + 4 * j)))) = base + (4 + 4 * j)" by simp
    have step: "dynamic_subnet_loop d exists (net_IP (slot d j)) =
      (if IPNet_String (slot d j) \<notin> set exists then Ok (slot d j)
       else if base + 4 * Suc j < 4294967296 then dynamic_subnet_loop d exists (net_IP (slot d (Suc j)))
       else Panic ''overflowed maximum IP'')"
      using b c
      by (simp add: dynamic_subnet_loop.simps [of d exists "val_ip 4 (base + 4 * j)"] slot_def
          base_def [symmetric] Contains_val_ip [OF d] n4 IP_next_val_ip Let_def e)
    show ?case
    proof (cases "base + 4 * Suc j < 4294967296")
      case True
      with Suc.hyps(1) [of "Suc j"] Suc.hyps(2) lt step find_upt_step [OF lt] show ?thesis by simp
    next
      case False
      then have "2 ^ (30 - k) \<le> Suc j" using en by simp
      then have "Suc j = 2 ^ (30 - k)" using lt by simp
      with False step find_upt_step [OF lt] n4 show ?thesis by simp
    qed
  qed
qed

text \<open>The first \<open>/30\<close> of the range whose text is not among the allocated ones.\<close>

definition first_free_subnet :: "ipnet \<Rightarrow> nat \<Rightarrow> string list \<Rightarrow> ipnet option" where
  "first_free_subnet d k exists =
     map_option (slot d) (find (\<lambda>i. IPNet_String (slot d i) \<notin> set exists) [0..<2 ^ (30 - k)])"

lemma slot_0: "length (net_IP d) = 4 \<Longrightarrow> net_IP (slot d 0) = net_IP d"
  by (simp add: slot_def val_ip_ip_val)

lemma dynamic_SelectSubnet_eq:
  assumes "v4_net d k" and "k \<le> 30"
  shows "dynamic_SelectSubnet d existing =
    (case first_free_subnet d k (map IPNet_String existing) of
       Some s \<Rightarrow> Ok s
     | None \<Rightarrow> if ip_val (net_IP d) + 2 ^ (32 - k) < 4294967296
               then Err (SubnetsError ErrInsufficientSubnets)
               else Panic ''overflowed maximum IP'')"
proof -
  have l: "length (net_IP d) = 4" using assms(1) by (simp add: v4_net_def)
  show ?thesis
    using dynamic_subnet_loop_eq [OF assms, of 0 "map IPNet_String existing"] v4_net_val_less [OF assms(1)]
    unfolding dynamic_SelectSubnet_def slot_0 [OF l] first_free_subnet_def
    by (simp split: option.splits)
qed

lemma dynamic_ip_loop_eq:
  assumes n: "v4_net n k" and j: "j \<le> 2 ^ (32 - k)" "ip_val (net_IP n) + j < 4294967296"
  shows "dynamic_ip_loop n exists (val_ip 4 (ip_val (net_IP n) + j)) =
    (case find (\<lambda>i. IP_String (val_ip 4 (ip_val (net_IP n) + i)) \<notin> set exists) [j..<2 ^ (32 - k)] of
       Some i \<Rightarrow> Ok (val_ip 4 (ip_val (net_IP n) + i))
     | None \<Rightarrow> if ip_val (net_IP n) + 2 ^ (32 - k) < 4294967296
               then Err (SubnetsError ErrInsufficientIPs)
               else Panic ''overflowed maximum IP'')"
proof -
  define base where "base = ip_val (net_IP n)"
  note en = v4_net_end [OF n, folded base_def]
  show ?thesis using j unfolding base_def [symmetric]
  proof (induction "2 ^ (32 - k) - j" arbitrary: j)
    case 0
    then have "j = 2 ^ (32 - k)" by simp
    with "0.prems" show ?case
      by (simp add: dynamic_ip_loop.simps [of n] Contains_val_ip [OF n] base_def [symmetric])
  next
    case (Suc m)
    then have lt: "j < 2 ^ (32 - k)" by simp
    have step: "dynamic_ip_loop n exists (val_ip 4 (base + j)) =
      (if IP_String (val_ip 4 (base + j)) \<notin> set exists then Ok (val_ip 4 (base + j))
       else if base + Suc j < 4294967296 then dynamic_ip_loop n exists (val_ip 4 (base + Suc j))
       else Panic ''overflowed maximum IP'')"
      using lt Suc.prems
      by (simp add: dynamic_ip_loop.simps [of n exists "val_ip 4 (base + j)"]
          base_def [symmetric] Contains_val_ip [OF n] IP_next_val_ip)
    show ?case
    proof (cases "base + Suc j < 4294967296")
      case True
      with Suc.hyps(1) [of "Suc j"] Suc.hyps(2) lt step find_upt_step [OF lt] show ?thesis by simp
    next
      case False
      then have "2 ^ (32 - k) \<le> Suc j" using en by simp
      then have "Suc j = 2 ^ (32 - k)" using lt by simp
      with False step find_upt_step [OF lt] show ?thesis by simp
    qed
  qed
qed

text \<open>The lowest address of the subnet whose text is not among the given ones.\<close>

definition first_free_ip :: "ipnet \<Rightarrow> nat \<Rightarrow> string list \<Rightarrow> ip option" where
  "first_free_ip n k exists =
     map_option (\<lambda>i. val_ip 4 (ip_val (net_IP n) + i))
       (find (\<lambda>i. IP_String (val_ip 4 (ip_val (net_IP n) + i)) \<notin> set exists) [0..<2 ^ (32 - k)])"

lemma dynamic_SelectIP_eq:
  assumes "v4_net n k"
  shows "dynamic_SelectIP n existing =
    (case first_free_ip n k (map IP_String existing) of
       Some ip \<Rightarrow> Ok ip
     | None \<Rightarrow> if ip_val (net_IP n) + 2 ^ (32 - k) < 4294967296
               then Err (SubnetsError ErrInsufficientIPs)
               else Panic ''overflowed maximum IP'')"
proof -
  have l: "length (net_IP n) = 4" using assms(1) by (simp add: v4_net_def)
  show ?thesis
    using dynamic_ip_loop_eq [OF assms, of 0 "map IP_String existing"] v4_net_val_less [OF assms(1)]
    by (simp add: dynamic_SelectIP_def first_free_ip_def val_ip_ip_val [OF l] split: option.splits)
qed

section \<open>Gateway and broadcast addresses\<close>

lemma unat_or_not: "unat ((m::byte) OR NOT b) = unat (m AND b) + unat (NOT b)"
proof -
  have "m OR NOT b = (m AND b) OR NOT b"
    by (rule bit_eqI) (auto simp: bit_or_iff bit_and_iff bit_not_iff)
  moreover have "unat (m AND b) AND unat (NOT b) = 0"
    by (simp flip: unsigned_and_eq add: and.assoc)
  ultimately show ?thesis by (simp add: unsigned_or_eq disjunctive_add_eq_or)
qed

lemma ip_val_or_not:
  "length xs = length ms \<Longrightarrow>
   ip_val (map2 (\<lambda>m b. m OR NOT b) xs ms) = ip_val (map2 (AND) xs ms) + ip_val (map NOT ms)"
  by (induction xs ms rule: list_induct2) (simp_all add: unat_or_not algebra_simps)

lemma unat_mask_byte: "j \<le> 8 \<Longrightarrow> unat (mask j :: byte) = 2 ^ j - 1"
proof -
  assume j: "j \<le> 8"
  have "list_all (\<lambda>j. unat (mask j :: byte) = 2 ^ j - 1) [0..<9]" by code_simp
  then show ?thesis using j by (simp add: list_all_iff)
qed

lemma ip_val_not_mask: "n \<le> 8 * l \<Longrightarrow> ip_val (map NOT (cidr_bytes n l)) = 2 ^ (8 * l - n) - 1"
proof (induction l arbitrary: n)
  case (Suc l)
  have pow: "(256::nat) ^ l = 2 ^ (8 * l)" by (simp add: power_mult)
  show ?case
  proof (cases "n < 8")
    case True
    have u: "unat (mask (8 - n) :: byte) = 2 ^ (8 - n) - 1" by (rule unat_mask_byte) simp
    have "(2::nat) ^ (8 - n) \<ge> 1" by simp
    then have "((2::nat) ^ (8 - n) - 1) * 2 ^ (8 * l) + (2 ^ (8 * l) - 1) = 2 ^ (8 - n) * 2 ^ (8 * l) - 1"
      by (simp add: diff_mult_distrib)
    moreover have "(2::nat) ^ (8 + 8 * l - n) = 2 ^ (8 - n) * 2 ^ (8 * l)"
      using True by (simp flip: power_add)
    ultimately show ?thesis using True Suc.IH [of 0] u
      by (simp add: cidr_byte_eq pow)
  next
    case False
    then show ?thesis using Suc.IH [of "n - 8"] Suc.prems by (simp add: cidr_byte_eq add.commute)
  qed
qed simp

lemma IPNet_max_v4:
  assumes "v4_net n k"
  shows "IPNet_max n = Ok (IP_To16 (val_ip 4 (ip_val (net_IP n) + 2 ^ (32 - k) - 1)))"
proof -
  from assms have k: "k \<le> 32" and m: "net_Mask n = cidr_bytes k 4" and l: "length (net_IP n) = 4"
    and dvd: "2 ^ (32 - k) dvd ip_val (net_IP n)"
    by (auto simp: v4_net_def CIDRMask_32)
  have "ip_val (map2 (\<lambda>m b. m OR NOT b) (net_IP n) (cidr_bytes k 4)) = ip_val (net_IP n) + 2 ^ (32 - k) - 1"
    using ip_val_masked [of "net_IP n" 4 k] ip_val_not_mask [of k 4] k l dvd
    by (simp add: ip_val_or_not dvd_div_mult_self)
  then have "val_ip 4 (ip_val (net_IP n) + 2 ^ (32 - k) - 1) = map2 (\<lambda>m b. m OR NOT b) (net_IP n) (cidr_bytes k 4)"
    by (intro val_ip_eqI) (simp_all add: l)
  then show ?thesis by (simp add: IPNet_max_def m l)
qed

lemma GatewayIP_v4:
  "v4_net n k \<Longrightarrow> GatewayIP n = Ok g \<Longrightarrow> length g = 4 \<and> ip_val g = ip_val (net_IP n) + 1"
  by (auto simp: GatewayIP_def v4_net_def dest!: IP_next_Ok)

lemma BroadcastIP_v4:
  assumes "v4_net n k" and "BroadcastIP n = Ok b"
  shows "is_v4 b \<and> ip_val (IP_To4 b) = ip_val (net_IP n) + 2 ^ (32 - k) - 1"
proof -
  have b: "b = IP_To16 (val_ip 4 (ip_val (net_IP n) + 2 ^ (32 - k) - 1))"
    using assms IPNet_max_v4 [OF assms(1)] by (simp add: BroadcastIP_def)
  have "ip_val (net_IP n) + 2 ^ (32 - k) - 1 < 256 ^ 4"
    using v4_net_end [OF assms(1)] by simp
  then show ?thesis by (simp add: b ip_val_val_ip)
qed

section \<open>What the selectors return\<close>

lemma find_upt_Some: "find P [0..<n] = Some i \<Longrightarrow> i < n \<and> P i"
  by (auto simp: find_Some_iff)

lemma SelectIP_Ok:
  assumes n: "v4_net n k" and ex: "\<forall>e\<in>set existing. is_v4 e" and ok: "SelectIP i n existing = Ok ip"
  shows "is_v4 ip \<and> IPNet_Contains n ip \<and> IP_To4 ip \<notin> IP_To4 ` set existing"
proof (cases i)
  case (StaticIPSelector ip')
  with ok have eq: "ip' = ip" and c: "IPNet_Contains n ip" and ne: "\<not> list_ex (\<lambda>e. IP_Equal e ip) existing"
    by (auto simp: SelectIP_def static_SelectIP_def res_bind_Ok_iff split: if_splits)
  from c n have v: "is_v4 ip" using Contains_not_v4 by blast
  then have "\<forall>e\<in>set existing. IP_To4 e \<noteq> IP_To4 ip" using ne ex by (auto simp: list_ex_iff IP_Equal_v4)
  with v c show ?thesis by auto
next
  case DynamicIPSelector
  then obtain j where j: "find (\<lambda>i. IP_String (val_ip 4 (ip_val (net_IP n) + i)) \<notin> set (map IP_String existing))
      [0..<2 ^ (32 - k)] = Some j" and ip: "ip = val_ip 4 (ip_val (net_IP n) + j)"
    using ok by (auto simp: SelectIP_def dynamic_SelectIP_eq [OF n] first_free_ip_def split: option.splits if_splits)
  from find_upt_Some [OF j] have lt: "j < 2 ^ (32 - k)" and fresh: "IP_String ip \<notin> set (map IP_String existing)"
    by (auto simp: ip)
  have v: "is_v4 ip" by (simp add: ip)
  have "\<forall>e\<in>set existing. IP_To4 e \<noteq> IP_To4 ip" using fresh ex v IP_String_inject by (metis image_eqI list.set_map)
  moreover have "IPNet_Contains n ip"
    using lt v4_net_end [OF n] by (simp add: ip Contains_val_ip [OF n])
  ultimately show ?thesis using v by auto
qed

lemma v4_net_slot:
  assumes "v4_net d k" and "k \<le> 30" and "i < 2 ^ (30 - k)"
  shows "v4_net (slot d i) 30"
    and "ip_val (net_IP (slot d i)) = ip_val (net_IP d) + 4 * i"
    and "ip_val (net_IP d) + 4 * i + 4 \<le> ip_val (net_IP d) + 2 ^ (32 - k)"
proof -
  have "32 - k = 2 + (30 - k)" using assms(2) by simp
  then have n4: "(2::nat) ^ (32 - k) = 4 * 2 ^ (30 - k)" by (simp only: power_add) simp
  have "4 * i + 4 \<le> 4 * 2 ^ (30 - k)" using assms(3) by simp
  then show le: "ip_val (net_IP d) + 4 * i + 4 \<le> ip_val (net_IP d) + 2 ^ (32 - k)" by (simp add: n4)
  then have "ip_val (net_IP d) + 4 * i < 4294967296" using v4_net_end [OF assms(1)] by simp
  then show v: "ip_val (net_IP (slot d i)) = ip_val (net_IP d) + 4 * i"
    by (simp add: slot_def ip_val_val_ip)
  have "4 dvd ip_val (net_IP d)"
    using assms(1) n4 by (auto simp: v4_net_def intro: dvd_mult_left)
  then show "v4_net (slot d i) 30" using v by (simp add: v4_net_def) (simp add: slot_def)
qed

definition net_range :: "ipnet \<Rightarrow> nat \<Rightarrow> nat set" where
  "net_range n k = {ip_val (net_IP n)..<ip_val (net_IP n) + 2 ^ (32 - k)}"

lemma overlaps_iff:
  assumes "v4_net a j" and "v4_net b k"
  shows "overlaps a b \<longleftrightarrow> net_range a j \<inter> net_range b k \<noteq> {}"
proof -
  have l: "length (net_IP a) = 4" "length (net_IP b) = 4" using assms by (auto simp: v4_net_def)
  have p: "x \<le> y \<Longrightarrow> x < y + 2 ^ m" for x y m :: nat by (rule le_less_trans [of x y]) simp_all
  have "net_range a j \<inter> net_range b k \<noteq> {}
    \<longleftrightarrow> ip_val (net_IP b) \<in> net_range a j \<or> ip_val (net_IP a) \<in> net_range b k"
    by (auto simp: net_range_def intro: p)
  then show ?thesis
    using Contains_v4 [OF assms(1), of "net_IP b"] Contains_v4 [OF assms(2), of "net_IP a"] l
    by (auto simp: overlaps_def net_range_def)
qed

lemma overlaps_sym: "overlaps a b = overlaps b a"
  by (auto simp: overlaps_def)

lemma overlaps_refl: "v4_net a j \<Longrightarrow> overlaps a a"
  by (auto simp: overlaps_iff net_range_def)

lemma IPNet_equals_v4: "v4_net a j \<Longrightarrow> v4_net b k \<Longrightarrow> IPNet_equals a b \<longleftrightarrow> a = b"
proof
  assume a: "v4_net a j" and b: "v4_net b k" and eq: "IPNet_equals a b"
  then have "net_IP a = net_IP b" by (simp add: IPNet_equals_def v4_net_def IP_Equal_v4)
  moreover from a b have "Mask_Size (net_Mask a) = (j, length (net_Mask a) * 8)"
    and "Mask_Size (net_Mask b) = (k, length (net_Mask b) * 8)"
    by (simp_all add: v4_net_def Mask_Size_def simple_mask_length_CIDRMask)
  then have "net_Mask a = net_Mask b" using eq a b by (simp add: IPNet_equals_def v4_net_def)
  ultimately show "a = b" by simp
qed (auto simp: IPNet_equals_def IP_Equal_def)

lemma slot_inject:
  assumes "v4_net d k" and "k \<le> 30" and "i < 2 ^ (30 - k)" and "j < 2 ^ (30 - k)"
  shows "overlaps (slot d i) (slot d j) \<longleftrightarrow> i = j"
proof -
  note s = v4_net_slot [OF assms(1-3)] v4_net_slot [OF assms(1,2,4)]
  show ?thesis using s(2,5) by (auto simp: overlaps_iff [OF s(1,4)] net_range_def)
qed

lemma slot_inside:
  assumes "v4_net d k" and "k \<le> 30" and "i < 2 ^ (30 - k)" and "v4_net b j" and "\<not> overlaps d b"
  shows "\<not> overlaps (slot d i) b"
proof -
  note s = v4_net_slot [OF assms(1-3)]
  have "net_range (slot d i) 30 \<subseteq> net_range d k" using s(2,3) by (auto simp: net_range_def)
  then show ?thesis using assms(5) by (auto simp: overlaps_iff [OF s(1) assms(4)] overlaps_iff [OF assms(1,4)])
qed

section \<open>The invariant of the pool\<close>

definition is_v4_net :: "ipnet \<Rightarrow> bool" where
  "is_v4_net n \<longleftrightarrow> (\<exists>k. v4_net n k)"

definition entry_ok :: "string \<times> ip list \<Rightarrow> bool" where
  "entry_ok e \<longleftrightarrow> snd e \<noteq> [] \<and> (\<exists>n. is_v4_net n \<and> fst e = IPNet_String n)
     \<and> (\<forall>ip\<in>set (snd e). is_v4 ip) \<and> distinct (map IP_To4 (snd e))"

definition subnet_pool_ok :: "subnet_pool \<Rightarrow> bool" where
  "subnet_pool_ok p \<longleftrightarrow> distinct (map fst (allocated p)) \<and> (\<forall>e\<in>set (allocated p). entry_ok e)
     \<and> (\<exists>k\<le>30. v4_net (dynamicRange p) k)"

definition subnets_held :: "subnet_pool \<Rightarrow> (string \<times> ip) set" where
  "subnets_held p = {(k, IP_To4 ip) | k ip. ip \<in> set (allocated_ips p k)}"

definition network_key :: "network \<Rightarrow> string \<times> ip" where
  "network_key nw = (IPNet_String (Subnet nw), IP_To4 (IP nw))"

definition ok_network :: "network \<Rightarrow> bool" where
  "ok_network nw \<longleftrightarrow> is_v4_net (Subnet nw) \<and> is_v4 (IP nw)"

text \<open>A static subnet is an IPv4 network, and the map is ranged over in some order.\<close>

fun ok_subnet_req :: "subnet_selector \<times> ip_selector \<times> alloc_order \<Rightarrow> bool" where
  "ok_subnet_req (sn, i, rng) \<longleftrightarrow>
     (case sn of StaticSubnetSelector s \<Rightarrow> is_v4_net s | DynamicSubnetSelector \<Rightarrow> True)
     \<and> (\<forall>m. mset (rng m) = mset m)"

lemma subnets_held_iff: "kx \<in> subnets_held p \<longleftrightarrow> snd kx \<in> IP_To4 ` set (allocated_ips p (fst kx))"
  by (cases kx) (auto simp: subnets_held_def)

lemma subnets_of_ok:
  "\<forall>e\<in>set m. entry_ok e \<Longrightarrow>
   \<exists>ns. subnets_of m = Ok ns \<and> map IPNet_String ns = map fst m \<and> (\<forall>n\<in>set ns. is_v4_net n)"
proof (induction m)
  case (Cons e m)
  obtain k v where e: "e = (k, v)" by (cases e)
  from Cons.prems e obtain n j where "v \<noteq> []" and "v4_net n j" and "k = IPNet_String n"
    by (auto simp: entry_ok_def is_v4_net_def)
  moreover from Cons obtain ns where "subnets_of m = Ok ns" "map IPNet_String ns = map fst m" "\<forall>n\<in>set ns. is_v4_net n"
    by auto
  ultimately show ?case by (auto simp: e ParseCIDR_String is_v4_net_def)
qed simp

lemma SelectSubnet_Ok:
  assumes d: "v4_net d k" "k \<le> 30" and ex: "\<forall>n\<in>set existing. is_v4_net n"
    and sn: "case sn of StaticSubnetSelector s \<Rightarrow> is_v4_net s | DynamicSubnetSelector \<Rightarrow> True"
    and ok: "SelectSubnet sn d existing = Ok s"
  shows "is_v4_net s \<and>
    ((\<exists>i<2 ^ (30 - k). s = slot d i) \<and> s \<notin> set existing
     \<or> \<not> overlaps d s \<and> (\<forall>e\<in>set existing. overlaps s e \<longrightarrow> e = s))"
proof (cases sn)
  case (StaticSubnetSelector s')
  with ok sn have s: "is_v4_net s" and nd: "\<not> overlaps d s"
    and no: "find (\<lambda>e. overlaps s e \<and> \<not> IPNet_equals s e) existing = None"
    by (auto simp: SelectSubnet_def static_SelectSubnet_def split: if_splits option.splits)
  have "\<forall>e\<in>set existing. overlaps s e \<longrightarrow> e = s"
    using no ex s unfolding find_None_iff is_v4_net_def by (metis IPNet_equals_v4)
  with s nd show ?thesis by blast
next
  case DynamicSubnetSelector
  then obtain i where i: "find (\<lambda>i. IPNet_String (slot d i) \<notin> set (map IPNet_String existing)) [0..<2 ^ (30 - k)] = Some i"
    and s: "s = slot d i"
    using ok by (auto simp: SelectSubnet_def dynamic_SelectSubnet_eq [OF d] first_free_subnet_def
        split: option.splits if_splits)
  from find_upt_Some [OF i] have "i < 2 ^ (30 - k)" "s \<notin> set existing" by (auto simp: s)
  with s v4_net_slot(1) [OF d, of i] show ?thesis by (auto simp: is_v4_net_def)
qed

text \<open>The networks whose text is a key of the map.\<close>

definition pool_nets :: "subnet_pool \<Rightarrow> ipnet set" where
  "pool_nets p = {n. is_v4_net n \<and> IPNet_String n \<in> fst ` set (allocated p)}"

lemma IPNet_String_eq: "is_v4_net a \<Longrightarrow> is_v4_net b \<Longrightarrow> IPNet_String a = IPNet_String b \<longleftrightarrow> a = b"
  by (auto simp: is_v4_net_def IPNet_String_inject)

lemma pool_nets_subnets_of:
  assumes p: "subnet_pool_ok p" and rng: "\<forall>m. mset (rng m) = mset m"
  obtains ns where "subnets_of (rng (allocated p)) = Ok ns" "set ns = pool_nets p" "\<forall>n\<in>set ns. is_v4_net n"
proof -
  have rs: "set (rng (allocated p)) = set (allocated p)" using rng by (metis set_mset_mset)
  then have "\<forall>e\<in>set (rng (allocated p)). entry_ok e" using p by (simp add: subnet_pool_ok_def)
  from subnets_of_ok [OF this] obtain ns where ns: "subnets_of (rng (allocated p)) = Ok ns"
    "map IPNet_String ns = map fst (rng (allocated p))" "\<forall>n\<in>set ns. is_v4_net n" by blast
  have "IPNet_String ` set ns = fst ` set (allocated p)" using ns(2) rs by (metis list.set_map)
  then have keys: "n \<in> pool_nets p \<longleftrightarrow> is_v4_net n \<and> IPNet_String n \<in> IPNet_String ` set ns" for n
    by (simp add: pool_nets_def)
  have "set ns = pool_nets p"
  proof (intro set_eqI iffI)
    fix n assume "n \<in> pool_nets p"
    with keys obtain m where "is_v4_net n" "m \<in> set ns" "IPNet_String n = IPNet_String m" by auto
    with ns(3) show "n \<in> set ns" by (metis IPNet_String_eq)
  qed (use ns(3) keys in auto)
  with ns show ?thesis by (intro that)
qed

lemma Acquire_Ok_cases:
  assumes p: "subnet_pool_ok p" and q: "ok_subnet_req (sn, i, rng)"
    and ok: "SubnetPool_Acquire (sn, i, rng) p = (Ok nw, p')"
  obtains ns ips g b where
    "set ns = pool_nets p" "\<forall>n\<in>set ns. is_v4_net n" "SelectSubnet sn (dynamicRange p) ns = Ok (Subnet nw)"
    "ips = allocated_ips p (IPNet_String (Subnet nw))"
    "GatewayIP (Subnet nw) = Ok g" "BroadcastIP (Subnet nw) = Ok b"
    "SelectIP i (Subnet nw) (ips @ [NetworkIP (Subnet nw), g, b]) = Ok (IP nw)"
    "p' = p\<lparr>allocated := AList.update (IPNet_String (Subnet nw)) (ips @ [IP nw]) (allocated p)\<rparr>"
proof -
  obtain ns where ns: "subnets_of (rng (allocated p)) = Ok ns" "set ns = pool_nets p" "\<forall>n\<in>set ns. is_v4_net n"
    using q by (auto intro: pool_nets_subnets_of [OF p])
  obtain subnet where sub: "SelectSubnet sn (dynamicRange p) ns = Ok subnet"
    using ok ns(1) by (cases "SelectSubnet sn (dynamicRange p) ns") simp_all
  define ips where "ips = allocated_ips p (IPNet_String subnet)"
  obtain ip where ip: "res_bind (GatewayIP subnet) (\<lambda>g. res_bind (BroadcastIP subnet) (\<lambda>b.
      SelectIP i subnet (ips @ [NetworkIP subnet, g, b]))) = Ok ip" (is "?ip = _")
    using ok ns(1) sub by (cases ?ip) (simp_all add: ips_def Let_def)
  with ok ns(1) sub have nw: "nw = \<lparr>Subnet = subnet, IP = ip\<rparr>"
    and p': "p' = p\<lparr>allocated := AList.update (IPNet_String subnet) (ips @ [ip]) (allocated p)\<rparr>"
    by (simp_all add: ips_def Let_def)
  from ip obtain g b where "GatewayIP subnet = Ok g" "BroadcastIP subnet = Ok b"
    "SelectIP i subnet (ips @ [NetworkIP subnet, g, b]) = Ok ip"
    by (auto simp: res_bind_Ok_iff)
  with ns sub p' show ?thesis by (intro that [of ns ips g b]) (simp_all add: nw ips_def)
qed

lemma allocated_ips_v4:
  "subnet_pool_ok p \<Longrightarrow> \<forall>ip\<in>set (allocated_ips p k). is_v4 ip"
  "subnet_pool_ok p \<Longrightarrow> distinct (map IP_To4 (allocated_ips p k))"
  by (auto simp: subnet_pool_ok_def allocated_ips_def entry_ok_def split: option.splits dest!: map_of_SomeD)

lemma allocated_ips_update [simp]:
  "allocated_ips (p\<lparr>allocated := AList.update k v (allocated p)\<rparr>) k' = (if k' = k then v else allocated_ips p k')"
  by (simp add: allocated_ips_def update_conv')

lemma update_ok:
  assumes "subnet_pool_ok p" and "entry_ok (k, v)"
  shows "subnet_pool_ok (p\<lparr>allocated := AList.update k v (allocated p)\<rparr>)"
proof -
  have "distinct (map fst (AList.update k v (allocated p)))"
    using assms(1) by (simp add: subnet_pool_ok_def distinct_update)
  moreover have "set (AList.update k v (allocated p)) \<subseteq> insert (k, v) (set (allocated p))"
    by (rule AList_update_subset)
  ultimately show ?thesis using assms by (auto simp: subnet_pool_ok_def)
qed

lemma add_network:
  assumes p: "subnet_pool_ok p" and nw: "ok_network nw"
    and fresh: "IP_To4 (IP nw) \<notin> IP_To4 ` set (allocated_ips p (IPNet_String (Subnet nw)))"
  defines "p' \<equiv> p\<lparr>allocated := AList.update (IPNet_String (Subnet nw))
      (allocated_ips p (IPNet_String (Subnet nw)) @ [IP nw]) (allocated p)\<rparr>"
  shows "subnet_pool_ok p' \<and> network_key nw \<notin> subnets_held p
    \<and> subnets_held p' = insert (network_key nw) (subnets_held p)"
proof -
  note v4 = allocated_ips_v4 [OF p, of "IPNet_String (Subnet nw)"]
  have "entry_ok (IPNet_String (Subnet nw), allocated_ips p (IPNet_String (Subnet nw)) @ [IP nw])"
    using v4 nw fresh by (auto simp: entry_ok_def ok_network_def)
  then have "subnet_pool_ok p'" unfolding p'_def by (rule update_ok [OF p])
  moreover have "network_key nw \<notin> subnets_held p" using fresh by (auto simp: network_key_def subnets_held_def)
  moreover have "subnets_held p' = insert (network_key nw) (subnets_held p)"
    by (auto simp: subnets_held_def p'_def network_key_def split: if_splits)
  ultimately show ?thesis by blast
qed

lemma SubnetPool_Acquire_Ok:
  assumes p: "subnet_pool_ok p" and q: "ok_subnet_req q" and ok: "SubnetPool_Acquire q p = (Ok nw, p')"
  shows "ok_network nw \<and> IPNet_Contains (Subnet nw) (IP nw) \<and> network_key nw \<notin> subnets_held p
    \<and> subnets_held p' = insert (network_key nw) (subnets_held p) \<and> subnet_pool_ok p'"
proof -
  obtain sn i rng where q3: "q = (sn, i, rng)" by (cases q)
  from q have sn: "case sn of StaticSubnetSelector s \<Rightarrow> is_v4_net s | DynamicSubnetSelector \<Rightarrow> True"
    by (simp add: q3)
  obtain k where d: "v4_net (dynamicRange p) k" "k \<le> 30" using p by (auto simp: subnet_pool_ok_def)
  obtain ns ips g b where ns: "\<forall>n\<in>set ns. is_v4_net n" "SelectSubnet sn (dynamicRange p) ns = Ok (Subnet nw)"
    and ips: "ips = allocated_ips p (IPNet_String (Subnet nw))"
    and g: "GatewayIP (Subnet nw) = Ok g" and b: "BroadcastIP (Subnet nw) = Ok b"
    and ip: "SelectIP i (Subnet nw) (ips @ [NetworkIP (Subnet nw), g, b]) = Ok (IP nw)"
    and p': "p' = p\<lparr>allocated := AList.update (IPNet_String (Subnet nw)) (ips @ [IP nw]) (allocated p)\<rparr>"
    by (rule Acquire_Ok_cases [OF p q [unfolded q3] ok [unfolded q3]])
  from SelectSubnet_Ok [OF d ns(1) sn ns(2)] obtain j where s: "v4_net (Subnet nw) j"
    by (auto simp: is_v4_net_def)
  have "\<forall>e\<in>set (ips @ [NetworkIP (Subnet nw), g, b]). is_v4 e"
    using allocated_ips_v4(1) [OF p] GatewayIP_v4 [OF s g] BroadcastIP_v4 [OF s b] s
    by (auto simp: ips NetworkIP_def v4_net_def)
  from SelectIP_Ok [OF s this ip] have "is_v4 (IP nw)" "IPNet_Contains (Subnet nw) (IP nw)"
    "IP_To4 (IP nw) \<notin> IP_To4 ` set ips" by auto
  moreover from this s have "ok_network nw" by (auto simp: ok_network_def is_v4_net_def)
  ultimately show ?thesis using add_network [OF p, of nw] by (simp add: ips p')
qed

lemma SubnetPool_Acquire_fail: "SubnetPool_Acquire q p = (e, p') \<Longrightarrow> \<not> is_ok e \<Longrightarrow> p' = p"
  by (cases q) (auto simp: Let_def split: res.splits)

lemma mset_removeIPAtIndex:
  assumes "i < length ips"
  shows "mset ips = add_mset (ips ! i) (mset (fst (removeIPAtIndex ips i)))"
proof -
  obtain xs x where ips: "ips = xs @ [x]" using assms by (cases ips rule: rev_cases) auto
  show ?thesis
  proof (cases "i = length xs")
    case False
    then have i: "i < length xs" using assms ips by simp
    have "fst (removeIPAtIndex ips i) = xs[i := x]"
      using i by (simp add: removeIPAtIndex_def Let_def ips list_update_append)
    with i show ?thesis by (simp add: ips nth_append mset_update)
  qed (simp add: removeIPAtIndex_def ips)
qed

lemma removeIPAtIndex_set:
  assumes d: "distinct (map f ips)" and i: "i < length ips"
  shows "set (fst (removeIPAtIndex ips i)) = {ip \<in> set ips. f ip \<noteq> f (ips ! i)}"
    and "distinct (map f (fst (removeIPAtIndex ips i)))"
    and "snd (removeIPAtIndex ips i) \<longleftrightarrow> fst (removeIPAtIndex ips i) = []"
proof -
  define r where "r = fst (removeIPAtIndex ips i)"
  have m: "mset ips = mset (ips ! i # r)" using mset_removeIPAtIndex [OF i] by (simp add: r_def)
  then have "mset (map f ips) = mset (map f (ips ! i # r))" by (simp only: mset_map)
  with d have "distinct (map f (ips ! i # r))" by (metis mset_eq_imp_distinct_iff)
  moreover have "set ips = insert (ips ! i) (set r)" using mset_eq_setD [OF m] by simp
  ultimately show "set (fst (removeIPAtIndex ips i)) = {ip \<in> set ips. f ip \<noteq> f (ips ! i)}"
    and "distinct (map f (fst (removeIPAtIndex ips i)))"
    unfolding r_def [symmetric] by (auto simp: rev_image_eqI)
  show "snd (removeIPAtIndex ips i) \<longleftrightarrow> fst (removeIPAtIndex ips i) = []"
    using i by (auto simp: removeIPAtIndex_def Let_def)
qed

lemma SubnetPool_Release_cases:
  assumes p: "subnet_pool_ok p" and nw: "ok_network nw"
  defines "k \<equiv> IPNet_String (Subnet nw)"
  shows "case SubnetPool_Release nw p of
      (Ok _, p') \<Rightarrow> network_key nw \<in> subnets_held p \<and> subnets_held p' = subnets_held p - {network_key nw}
        \<and> subnet_pool_ok p' \<and> dynamicRange p' = dynamicRange p
        \<and> fst ` set (allocated p') \<subseteq> fst ` set (allocated p)
    | (_, p') \<Rightarrow> network_key nw \<notin> subnets_held p \<and> p' = p"
proof (cases "index_of (\<lambda>v. IP_Equal v (IP nw)) (allocated_ips p k)")
  case None
  then have "network_key nw \<notin> subnets_held p"
    using allocated_ips_v4(1) [OF p] nw
    by (auto simp: index_of_None_iff network_key_def subnets_held_def ok_network_def IP_Equal_v4 k_def)
  with None show ?thesis by (simp add: SubnetPool_Release_def Let_def k_def)
next
  case (Some i)
  define ips where "ips = allocated_ips p k"
  define r where "r = fst (removeIPAtIndex ips i)"
  from index_of_Some [OF Some] have i: "i < length ips" and eq: "IP_Equal (ips ! i) (IP nw)"
    by (auto simp: ips_def)
  note v4 = allocated_ips_v4 [OF p, of k, folded ips_def]
  have eq4: "IP_To4 (ips ! i) = IP_To4 (IP nw)" using eq v4(1) i nw by (simp add: IP_Equal_v4 ok_network_def)
  note rem = removeIPAtIndex_set [OF v4(2) i, folded r_def, unfolded eq4]
  have key: "network_key nw \<in> subnets_held p"
    using i eq4 by (auto simp: network_key_def subnets_held_def k_def ips_def) (metis nth_mem)
  define p' where "p' = (if r = [] then p\<lparr>allocated := AList.delete k (allocated p)\<rparr>
    else p\<lparr>allocated := AList.update k r (allocated p)\<rparr>)"
  have rel: "SubnetPool_Release nw p = (Ok (), p')"
    using Some rem(3)
    by (simp add: SubnetPool_Release_def Let_def p'_def case_prod_beta flip: k_def ips_def r_def)
  have ips': "allocated_ips p' k' = (if k' = k then r else allocated_ips p k')" for k'
    by (simp add: p'_def) (simp add: allocated_ips_def delete_conv')
  have "IP_To4 ` set r = IP_To4 ` set ips - {IP_To4 (IP nw)}" using rem(1) by auto
  then have held: "subnets_held p' = subnets_held p - {network_key nw}"
    by (intro set_eqI) (auto simp: subnets_held_iff ips' network_key_def simp flip: k_def ips_def)
  have "map_of (allocated p) k \<noteq> None" using i by (auto simp: ips_def allocated_ips_def split: option.splits)
  then obtain v where kv: "map_of (allocated p) k = Some v" by auto
  have ent: "entry_ok (k, ips)"
    using p kv by (auto simp: subnet_pool_ok_def ips_def allocated_ips_def dest: map_of_SomeD)
  have "subnet_pool_ok p'"
  proof (cases "r = []")
    case True
    have "distinct (map fst (AList.delete k (allocated p)))" using p by (simp add: subnet_pool_ok_def distinct_delete)
    moreover have "set (AList.delete k (allocated p)) \<subseteq> set (allocated p)" by (auto simp: AList.delete_eq)
    ultimately show ?thesis using True p by (auto simp: p'_def subnet_pool_ok_def)
  next
    case False
    have "entry_ok (k, r)" using False ent rem by (auto simp: entry_ok_def)
    from update_ok [OF p this] False show ?thesis by (simp add: p'_def)
  qed
  moreover have "fst ` set (allocated p') \<subseteq> fst ` set (allocated p)"
    using kv dom_delete_subset [of k "allocated p"] weak_map_of_SomeI
    by (auto simp: p'_def dom_update) (metis domI dom_map_of_conv_image_fst imageE)
  ultimately show ?thesis using key held by (simp add: rel) (simp add: p'_def)
qed

lemma SubnetPool_Remove_Ok:
  assumes p: "subnet_pool_ok p" and nw: "ok_network nw" and ok: "SubnetPool_Remove nw p = (Ok u, p')"
  shows "network_key nw \<notin> subnets_held p \<and> subnets_held p' = insert (network_key nw) (subnets_held p)
    \<and> subnet_pool_ok p'"
proof -
  from ok have ne: "\<not> list_ex (\<lambda>e. IP_Equal e (IP nw)) (allocated_ips p (IPNet_String (Subnet nw)))"
    and p': "p' = p\<lparr>allocated := AList.update (IPNet_String (Subnet nw))
      (allocated_ips p (IPNet_String (Subnet nw)) @ [IP nw]) (allocated p)\<rparr>"
    by (auto simp: SubnetPool_Remove_def Let_def split: if_splits)
  have "IP_To4 (IP nw) \<notin> IP_To4 ` set (allocated_ips p (IPNet_String (Subnet nw)))"
    using ne allocated_ips_v4(1) [OF p] nw by (auto simp: list_ex_iff ok_network_def IP_Equal_v4)
  from add_network [OF p nw this] show ?thesis by (simp add: p')
qed

definition SubnetPool_release :: "network \<Rightarrow> subnet_pool \<Rightarrow> subnet_pool" where
  "SubnetPool_release nw p = snd (SubnetPool_Release nw p)"

interpretation subnet_alloc: reservable_allocator
  subnet_pool_ok subnets_held network_key ok_subnet_req ok_network
  SubnetPool_Acquire SubnetPool_release SubnetPool_Remove
proof unfold_locales
  fix s s' q r assume "subnet_pool_ok s" "ok_subnet_req q" "SubnetPool_Acquire q s = (Ok r, s')"
  from SubnetPool_Acquire_Ok [OF this]
  show "network_key r \<notin> subnets_held s \<and> subnets_held s' = insert (network_key r) (subnets_held s)
    \<and> subnet_pool_ok s' \<and> ok_network r" by blast
next
  fix s s' q e assume "SubnetPool_Acquire q s = (e, s')" "\<not> is_ok e"
  then show "s' = s" by (rule SubnetPool_Acquire_fail)
next
  fix s r assume "subnet_pool_ok s" "ok_network r"
  from SubnetPool_Release_cases [OF this] show "subnets_held (SubnetPool_release r s) = subnets_held s - {network_key r}"
    by (auto simp: SubnetPool_release_def split: prod.splits res.splits)
next
  fix s r assume "subnet_pool_ok s" "ok_network r"
  from SubnetPool_Release_cases [OF this] this show "subnet_pool_ok (SubnetPool_release r s)"
    by (auto simp: SubnetPool_release_def split: prod.splits res.splits)
next
  fix s s' r u assume "subnet_pool_ok s" "ok_network r" "SubnetPool_Remove r s = (Ok u, s')"
  from SubnetPool_Remove_Ok [OF this]
  show "network_key r \<notin> subnets_held s \<and> subnets_held s' = insert (network_key r) (subnets_held s)
    \<and> subnet_pool_ok s'" by blast
next
  fix s s' r e assume "SubnetPool_Remove r s = (e, s')" "\<not> is_ok e"
  then show "s' = s" by (auto simp: SubnetPool_Remove_def Let_def split: if_splits)
qed

section \<open>Disjointness of the allocated subnets\<close>

text \<open>
  Any two allocated subnets are disjoint, and each is either a /30 slot of the dynamic range or
  disjoint from the range.
\<close>

definition nets_disjoint :: "subnet_pool \<Rightarrow> bool" where
  "nets_disjoint p \<longleftrightarrow>
     (\<forall>a\<in>pool_nets p. \<forall>b\<in>pool_nets p. overlaps a b \<longrightarrow> a = b)
     \<and> (\<forall>a\<in>pool_nets p. overlaps (dynamicRange p) a \<longrightarrow> (\<exists>i. v4_net a 30 \<and> a = slot (dynamicRange p) i
          \<and> (\<forall>k. v4_net (dynamicRange p) k \<longrightarrow> i < 2 ^ (30 - k))))"

lemma nets_disjoint_mono:
  "pool_nets p' \<subseteq> pool_nets p \<Longrightarrow> dynamicRange p' = dynamicRange p \<Longrightarrow> nets_disjoint p \<Longrightarrow> nets_disjoint p'"
  unfolding nets_disjoint_def by (metis subsetD)

lemma v4_net_unique: "v4_net n j \<Longrightarrow> v4_net n k \<Longrightarrow> j = k"
  by (metis option.inject simple_mask_length_CIDRMask v4_net_def)

lemma Acquire_nets_disjoint:
  assumes p: "subnet_pool_ok p" and q: "ok_subnet_req q" and dis: "nets_disjoint p"
    and ok: "SubnetPool_Acquire q p = (Ok nw, p')"
  shows "nets_disjoint p'"
proof -
  obtain sn i rng where q3: "q = (sn, i, rng)" by (cases q)
  from q have sn: "case sn of StaticSubnetSelector s \<Rightarrow> is_v4_net s | DynamicSubnetSelector \<Rightarrow> True"
    by (simp add: q3)
  let ?d = "dynamicRange p" and ?s = "Subnet nw"
  obtain k where d: "v4_net ?d k" "k \<le> 30" using p by (auto simp: subnet_pool_ok_def)
  obtain ns ips g b where ns: "\<forall>n\<in>set ns. is_v4_net n" "SelectSubnet sn ?d ns = Ok ?s"
    and nets: "pool_nets p = set ns"
    and p': "p' = p\<lparr>allocated := AList.update (IPNet_String ?s) (ips @ [IP nw]) (allocated p)\<rparr>"
    by (rule Acquire_Ok_cases [OF p q [unfolded q3] ok [unfolded q3]]) auto
  note sel = SelectSubnet_Ok [OF d ns(1) sn ns(2)]
  have "n \<in> pool_nets p' \<longleftrightarrow> n \<in> pool_nets p \<or> is_v4_net n \<and> IPNet_String n = IPNet_String ?s" for n
    by (auto simp: pool_nets_def p' dom_update)
  then have "pool_nets p' = insert ?s (set ns)"
    using sel IPNet_String_eq unfolding nets by blast
  moreover have dp: "dynamicRange p' = ?d" by (simp add: p')
  moreover have "\<forall>e\<in>set ns. overlaps ?s e \<longrightarrow> e = ?s"
  proof (intro ballI impI)
    fix e assume e: "e \<in> set ns" and ov: "overlaps ?s e"
    from sel show "e = ?s"
    proof (elim conjE disjE exE)
      fix i assume i: "i < 2 ^ (30 - k)" "?s = slot ?d i" "?s \<notin> set ns"
      from ns(1) e obtain j where j: "v4_net e j" by (auto simp: is_v4_net_def)
      have "overlaps ?d e" using ov i slot_inside [OF d i(1) j] by auto
      with dis e nets d(1) obtain i' where "e = slot ?d i'" "i' < 2 ^ (30 - k)"
        unfolding nets_disjoint_def by metis
      with ov i slot_inject [OF d i(1), of i'] show ?thesis by simp
    qed (use e ov in blast)
  qed
  moreover have "overlaps ?d ?s \<longrightarrow> (\<exists>i. v4_net ?s 30 \<and> ?s = slot ?d i
      \<and> (\<forall>k. v4_net ?d k \<longrightarrow> i < 2 ^ (30 - k)))"
    using sel v4_net_slot(1) [OF d] v4_net_unique [OF d(1)] by metis
  ultimately show ?thesis
    using dis unfolding nets_disjoint_def dp nets by (auto simp: overlaps_sym)
qed

lemma Release_nets_disjoint:
  assumes "subnet_pool_ok p" and "ok_network nw" and "nets_disjoint p"
  shows "nets_disjoint (SubnetPool_release nw p)"
proof -
  have "pool_nets (SubnetPool_release nw p) \<subseteq> pool_nets p
      \<and> dynamicRange (SubnetPool_release nw p) = dynamicRange p"
    using SubnetPool_Release_cases [OF assms(1,2)]
    by (auto simp: SubnetPool_release_def pool_nets_def split: prod.splits res.splits)
  then show ?thesis using assms(3) nets_disjoint_mono by blast
qed

lemma NewSubnets_ok:
  assumes "v4_net d k" and "k \<le> 30"
  shows "subnet_pool_ok (NewSubnets d)" and "nets_disjoint (NewSubnets d)" and "subnets_held (NewSubnets d) = {}"
  using assms by (auto simp: NewSubnets_def subnet_pool_ok_def nets_disjoint_def pool_nets_def
      subnets_held_def allocated_ips_def)

fun is_reserve_op :: "('q, 'r) alloc_op \<Rightarrow> bool" where
  "is_reserve_op (ReserveOp _) = True"
| "is_reserve_op _ = False"

abbreviation subnet_step where
  "subnet_step \<equiv> alloc_step SubnetPool_Acquire SubnetPool_Remove SubnetPool_release network_key"

abbreviation subnet_run where
  "subnet_run \<equiv> alloc_run SubnetPool_Acquire SubnetPool_Remove SubnetPool_release network_key"

lemma step_nets_disjoint:
  assumes "subnet_alloc.consistent c" and "nets_disjoint (fst c)" and "subnet_alloc.ok_op op" and "\<not> is_reserve_op op"
  shows "nets_disjoint (fst (subnet_step op c))"
proof -
  obtain p out where c: "c = (p, out)" by (cases c)
  have p: "subnet_pool_ok p" using assms(1) by (simp add: c subnet_alloc.consistent_def)
  show ?thesis
  proof (cases op)
    case (AcquireOp q)
    with assms(3) have q: "ok_subnet_req q" by (simp add: subnet_alloc.ok_op_def)
    obtain r p' where r: "SubnetPool_Acquire q p = (r, p')" by (cases "SubnetPool_Acquire q p")
    show ?thesis
    proof (cases r)
      case (Ok nw)
      with Acquire_nets_disjoint [OF p q] assms(2) r c AcquireOp show ?thesis by auto
    qed (use SubnetPool_Acquire_fail [OF r] r c AcquireOp assms(2) in auto)
  next
    case (ReleaseOp nw)
    with assms(3) have "ok_network nw" by (simp add: subnet_alloc.ok_op_def)
    with Release_nets_disjoint [OF p] assms(2) c ReleaseOp show ?thesis by simp
  qed (use assms(4) in simp)
qed

lemma run_nets_disjoint:
  "subnet_alloc.consistent c \<Longrightarrow> nets_disjoint (fst c) \<Longrightarrow>
   \<forall>op\<in>set ops. subnet_alloc.ok_op op \<and> \<not> is_reserve_op op \<Longrightarrow> nets_disjoint (fst (subnet_run ops c))"
proof (induction ops arbitrary: c)
  case (Cons op ops)
  then show ?case
    using step_nets_disjoint [of c op] subnet_alloc.step_consistent [of c op] by (simp add: Cons.IH)
qed simp

definition ok_subnet_op :: "(subnet_selector \<times> ip_selector \<times> alloc_order, network) alloc_op \<Rightarrow> bool" where
  "ok_subnet_op op =
     (case op of AcquireOp q \<Rightarrow> ok_subnet_req q | ReserveOp nw \<Rightarrow> ok_network nw | ReleaseOp nw \<Rightarrow> ok_network nw)"

lemma ok_subnet_op_eq: "ok_subnet_op = subnet_alloc.ok_op"
  by (rule ext) (simp add: ok_subnet_op_def subnet_alloc.ok_op_def)


section \<open>Properties\<close>

text \<open>
  C6. In every sequence of Acquire, Remove and Release calls on a new subnet pool, with any
  selectors and any order in which the map of allocated subnets is ranged over, no two callers ever
  hold the same address of the same subnet, and every pair held is recorded in the pool.
\<close>

theorem subnets_never_shared:
  assumes "v4_net d k" and "k \<le> 30" and "\<forall>op\<in>set ops. ok_subnet_op op"
    and "subnet_run ops (NewSubnets d, []) = (p', out)"
  shows "distinct (map network_key out)
    \<and> (\<forall>nw\<in>set out. \<exists>ip\<in>set (allocated_ips p' (IPNet_String (Subnet nw))). IP_To4 ip = IP_To4 (IP nw))"
  using subnet_alloc.run_never_shares [OF NewSubnets_ok(1) [OF assms(1,2)], of ops p' out] assms(3,4)
  by (fastforce simp: ok_subnet_op_eq network_key_def subnets_held_iff image_subset_iff image_iff)

definition example_range :: ipnet where
  "example_range = \<lparr>net_IP = [10, 254, 0, 0], net_Mask = [255, 255, 255, 248]\<rparr>"

lemma example_range_v4: "v4_net example_range 29"
proof -
  have "CIDRMask 29 32 = [255, 255, 255, 248]" by code_simp
  moreover have "ip_val [10, 254, 0, 0] = 184418304" by simp
  ultimately show ?thesis by (simp add: v4_net_def example_range_def)
qed

definition example_net :: "byte \<Rightarrow> ipnet" where
  "example_net b = \<lparr>net_IP = [10, 254, 0, b], net_Mask = [255, 255, 255, 252]\<rparr>"


theorem subnets_never_shared_witness:
  "distinct (map network_key [\<lparr>Subnet = example_net 4, IP = [10, 254, 0, 6]\<rparr>,
                              \<lparr>Subnet = example_net 0, IP = [10, 254, 0, 2]\<rparr>])"
proof -
  let ?q = "(DynamicSubnetSelector, DynamicIPSelector, \<lambda>m::(string \<times> ip list) list. m)"
  let ?nws = "[\<lparr>Subnet = example_net 4, IP = [10, 254, 0, 6]\<rparr>, \<lparr>Subnet = example_net 0, IP = [10, 254, 0, 2]\<rparr>]"
  have run: "subnet_run [AcquireOp ?q, AcquireOp ?q] (NewSubnets example_range, []) =
      (\<lparr>allocated = [(''10.254.0.0/30'', [[10, 254, 0, 2]]), (''10.254.0.4/30'', [[10, 254, 0, 6]])],
        dynamicRange = example_range\<rparr>, ?nws)"
    by code_simp
  have "\<forall>op\<in>set [AcquireOp ?q, AcquireOp ?q]. ok_subnet_op op" by (simp add: ok_subnet_op_def)
  from subnets_never_shared [OF example_range_v4 _ this run] show ?thesis by simp
qed

lemma Acquire_dynamicRange: "dynamicRange (snd (SubnetPool_Acquire q p)) = dynamicRange p"
  by (cases q) (simp add: Let_def split: res.splits)

lemma step_dynamicRange: "dynamicRange (fst (subnet_step op c)) = dynamicRange (fst c)"
proof -
  obtain p out where c: "c = (p, out)" by (cases c)
  show ?thesis
  proof (cases op)
    case (AcquireOp q)
    with Acquire_dynamicRange [of q p] show ?thesis
      by (cases "SubnetPool_Acquire q p") (simp add: c split: res.splits)
  qed (simp_all add: c SubnetPool_Remove_def SubnetPool_release_def SubnetPool_Release_def Let_def
      split: prod.splits option.splits)
qed

lemma run_dynamicRange: "dynamicRange (fst (subnet_run ops c)) = dynamicRange (fst c)"
  by (induction ops arbitrary: c) (simp_all add: step_dynamicRange)

text \<open>
  C12. Starting from a new pool, whatever subnets are acquired (static and dynamic in any order) and
  released, the allocated subnets are pairwise disjoint, and one that meets the dynamic range is a
  /30 slot of it: a static request can neither overlap another subnet nor take dynamic addresses.
\<close>

theorem subnets_stay_disjoint:
  assumes "v4_net d k" and "k \<le> 30" and "\<forall>op\<in>set ops. ok_subnet_op op \<and> \<not> is_reserve_op op"
    and "subnet_run ops (NewSubnets d, []) = (p', out)"
    and "a \<in> pool_nets p'" and "v4_net a i" and "b \<in> pool_nets p'" and "v4_net b j" and "a \<noteq> b"
  shows "net_range a i \<inter> net_range b j = {} \<and> (net_range d k \<inter> net_range a i \<noteq> {} \<longrightarrow> (\<exists>m<2 ^ (30 - k). a = slot d m))"
proof -
  note new = NewSubnets_ok [OF assms(1,2)]
  have c: "subnet_alloc.consistent (NewSubnets d, [])" using new by (simp add: subnet_alloc.consistent_def)
  have "nets_disjoint p'"
    using run_nets_disjoint [OF c, of ops] new(2) assms(3,4) by (simp add: ok_subnet_op_eq)
  moreover have "dynamicRange p' = d"
    using run_dynamicRange [of ops "(NewSubnets d, [])"] assms(4) by (simp add: NewSubnets_def)
  ultimately have "\<not> overlaps a b" and "overlaps d a \<Longrightarrow> \<exists>m. a = slot d m \<and> m < 2 ^ (30 - k)"
    using assms unfolding nets_disjoint_def by blast+
  then show ?thesis using assms by (auto simp: overlaps_iff)
qed

lemma example_net_v4: "4 dvd unat b \<Longrightarrow> v4_net (example_net b) 30"
proof -
  assume b: "4 dvd unat b"
  have "CIDRMask 30 32 = [255, 255, 255, 252]" by code_simp
  moreover have "ip_val [10, 254, 0, b] = 4 * 46104576 + unat b" by simp
  moreover have "4 dvd (4 * 46104576 + unat b)" by (intro dvd_add dvd_triv_left b)
  ultimately show ?thesis by (simp add: v4_net_def example_net_def del: ip_val.simps)
qed

theorem subnets_stay_disjoint_witness:
  "net_range (example_net 16) 30 \<inter> net_range (example_net 0) 30 = {}"
proof -
  let ?dyn = "(DynamicSubnetSelector, DynamicIPSelector, \<lambda>m::(string \<times> ip list) list. m)"
  let ?sta = "(StaticSubnetSelector (example_net 16), DynamicIPSelector, \<lambda>m::(string \<times> ip list) list. m)"
  let ?p = "\<lparr>allocated = [(''10.254.0.16/30'', [[10, 254, 0, 18]]), (''10.254.0.0/30'', [[10, 254, 0, 2]])],
        dynamicRange = example_range\<rparr>"
  have run: "subnet_run [AcquireOp ?sta, AcquireOp ?dyn] (NewSubnets example_range, []) =
      (?p, [\<lparr>Subnet = example_net 0, IP = [10, 254, 0, 2]\<rparr>, \<lparr>Subnet = example_net 16, IP = [10, 254, 0, 18]\<rparr>])"
    by code_simp
  have v: "v4_net (example_net 16) 30" "v4_net (example_net 0) 30" by (simp_all add: example_net_v4)
  have str: "IPNet_String (example_net 16) = ''10.254.0.16/30''" "IPNet_String (example_net 0) = ''10.254.0.0/30''"
    by code_simp+
  have mem: "example_net 16 \<in> pool_nets ?p" "example_net 0 \<in> pool_nets ?p"
    using v by (auto simp: pool_nets_def is_v4_net_def str)
  have ops: "\<forall>op\<in>set [AcquireOp ?sta, AcquireOp ?dyn]. ok_subnet_op op \<and> \<not> is_reserve_op op"
    using v by (auto simp: ok_subnet_op_def is_v4_net_def)
  have "example_net 16 \<noteq> example_net 0" by (simp add: example_net_def)
  from subnets_stay_disjoint [OF example_range_v4 _ ops run mem(1) v(1) mem(2) v(2) this]
  show ?thesis by simp
qed

lemma upt_4: "[0..<4] = [0, 1, 2, 3::nat]"
  by (simp add: upt_rec)

lemma dynamic_SelectIP_fresh_slot:
  assumes "v4_net n 30" and "ip_val (net_IP n) + 4 \<le> 4294967296"
    and "GatewayIP n = Ok g" and "BroadcastIP n = Ok b"
  shows "SelectIP DynamicIPSelector n [NetworkIP n, g, b] = Ok (val_ip 4 (ip_val (net_IP n) + 2))"
proof -
  define v where "v = ip_val (net_IP n)"
  have l: "length (net_IP n) = 4" using assms(1) by (simp add: v4_net_def)
  have val: "ip_val (val_ip 4 (v + i)) = v + i" if "i < 4" for i
    using that assms(2) by (intro ip_val_val_ip) (simp add: v_def)
  have g: "g = val_ip 4 (v + 1)"
    using GatewayIP_v4 [OF assms(1,3)] by (intro val_ip_eqI [symmetric]) (simp_all add: v_def)
  have b: "is_v4 b" "IP_To4 b = val_ip 4 (v + 3)"
    using BroadcastIP_v4 [OF assms(1,4)] length_To4
    by (auto intro!: val_ip_eqI [symmetric] simp: v_def)
  have n: "NetworkIP n = val_ip 4 v" by (simp add: v_def val_ip_ip_val l NetworkIP_def)
  have s: "IP_String b = IP_String (val_ip 4 (v + 3))" using b by (simp add: IP_String_inject)
  have inj: "IP_String (val_ip 4 (v + i)) = IP_String (val_ip 4 (v + j)) \<longleftrightarrow> i = j" if "i < 4" "j < 4" for i j
    using val [OF that(1)] val [OF that(2)] by (simp add: IP_String_inject) (metis add_left_cancel)
  note ne = inj [of 2 0, simplified] inj [of 2 1, simplified] inj [of 2 3, simplified]
  have "first_free_ip n 30 (map IP_String [NetworkIP n, g, b]) = Some (val_ip 4 (v + 2))"
    using ne by (simp add: first_free_ip_def upt_4 n g s flip: v_def)
  then show ?thesis by (simp add: SelectIP_def dynamic_SelectIP_eq [OF assms(1)] v_def)
qed





end
