(* ===== verification/Garden_Types.thy ===== *)
theory Garden_Types
  imports Go_Net
begin

text \<open>
  The types of the Garden API that the sources exchange with their clients: limits, container
  specifications and statistics. They are plain data; a Go struct that is compared with its zero
  value has that value here too.
\<close>

section \<open>Limits\<close>

record memory_limits =
  ml_LimitInBytes :: uint64

record cpu_limits =
  cl_LimitInShares :: uint64

record bandwidth_limits =
  bl_RateInBytesPerSecond :: uint64
  bl_BurstRateInBytesPerSecond :: uint64

record disk_limits =
  dl_InodeSoft :: uint64
  dl_InodeHard :: uint64
  dl_ByteSoft :: uint64
  dl_ByteHard :: uint64
  dl_Scope :: byte

definition zero_memory_limits :: memory_limits where
  "zero_memory_limits = \<lparr>ml_LimitInBytes = 0\<rparr>"

definition zero_cpu_limits :: cpu_limits where
  "zero_cpu_limits = \<lparr>cl_LimitInShares = 0\<rparr>"

definition zero_bandwidth_limits :: bandwidth_limits where
  "zero_bandwidth_limits = \<lparr>bl_RateInBytesPerSecond = 0, bl_BurstRateInBytesPerSecond = 0\<rparr>"

definition zero_disk_limits :: disk_limits where
  "zero_disk_limits = \<lparr>dl_InodeSoft = 0, dl_InodeHard = 0, dl_ByteSoft = 0, dl_ByteHard = 0, dl_Scope = 0\<rparr>"

text \<open>\<open>garden.Limits\<close>, by value, as a client asks for them.\<close>

record spec_limits =
  sl_Bandwidth :: bandwidth_limits
  sl_CPU :: cpu_limits
  sl_Disk :: disk_limits
  sl_Memory :: memory_limits

definition zero_spec_limits :: spec_limits where
  "zero_spec_limits = \<lparr>sl_Bandwidth = zero_bandwidth_limits, sl_CPU = zero_cpu_limits,
     sl_Disk = zero_disk_limits, sl_Memory = zero_memory_limits\<rparr>"

section \<open>Container specifications\<close>

datatype bind_mount_mode = BindMountModeRO | BindMountModeRW
datatype bind_mount_origin = BindMountOriginHost | BindMountOriginContainer

record bind_mount =
  bm_SrcPath :: string
  bm_DstPath :: string
  bm_Mode :: bind_mount_mode
  bm_Origin :: bind_mount_origin

type_synonym properties = "(string \<times> string) list"

record garden_spec =
  gs_Handle :: string
  gs_GraceTime :: int
  gs_RootFSPath :: string
  gs_BindMounts :: "bind_mount list"
  gs_Network :: string
  gs_Properties :: properties
  gs_Env :: "string list"
  gs_Privileged :: bool
  gs_Limits :: spec_limits

definition zero_garden_spec :: garden_spec where
  "zero_garden_spec = \<lparr>gs_Handle = '''', gs_GraceTime = 0, gs_RootFSPath = '''', gs_BindMounts = [],
     gs_Network = '''', gs_Properties = [], gs_Env = [], gs_Privileged = False, gs_Limits = zero_spec_limits\<rparr>"

section \<open>Statistics\<close>

record disk_stat =
  ds_TotalBytesUsed :: uint64
  ds_TotalInodesUsed :: uint64
  ds_ExclusiveBytesUsed :: uint64
  ds_ExclusiveInodesUsed :: uint64

record network_stat =
  ns_RxBytes :: uint64
  ns_TxBytes :: uint64

record bandwidth_stat =
  bs_InRate :: uint64
  bs_InBurst :: uint64
  bs_OutRate :: uint64
  bs_OutBurst :: uint64

definition zero_disk_stat :: disk_stat where
  "zero_disk_stat = \<lparr>ds_TotalBytesUsed = 0, ds_TotalInodesUsed = 0, ds_ExclusiveBytesUsed = 0, ds_ExclusiveInodesUsed = 0\<rparr>"

end
