(* ===== verification/Go_Path.thy ===== *)
theory Go_Path
  imports Go_Strings
begin

text \<open>
  Go's \<open>path.Join\<close>, \<open>path.Clean\<close>, \<open>filepath.Dir\<close> and \<open>filepath.Base\<close> on slash-separated paths.
  The facts that the components need: the last element of a joined path is the name that was joined
  last, so files with different names in one directory have different paths.
\<close>

section \<open>Cleaning\<close>

abbreviation slash :: char where "slash \<equiv> CHR 0x2F"

fun clean_elems :: "bool \<Rightarrow> string list \<Rightarrow> string list \<Rightarrow> string list" where
  "clean_elems rooted acc [] = rev acc"
| "clean_elems rooted acc (c # cs) =
     (if c = '''' \<or> c = ''.'' then clean_elems rooted acc cs
      else if c = ''..'' then
        (if acc \<noteq> [] \<and> hd acc \<noteq> ''..'' then clean_elems rooted (tl acc) cs
         else if rooted then clean_elems rooted acc cs
         else clean_elems rooted (c # acc) cs)
      else clean_elems rooted (c # acc) cs)"

definition path_Clean :: "string \<Rightarrow> string" where
  "path_Clean p =
     (let rooted = (p \<noteq> [] \<and> hd p = slash); cs = clean_elems rooted [] (split_on slash p) in
      if rooted then slash # join [slash] cs
      else if cs = [] then ''.'' else join [slash] cs)"

definition path_Join :: "string list \<Rightarrow> string" where
  "path_Join elems =
     (let es = dropWhile (\<lambda>e. e = '''') elems in if es = [] then '''' else path_Clean (join [slash] es))"

definition filepath_Dir :: "string \<Rightarrow> string" where
  "filepath_Dir p = path_Clean (rev (dropWhile (\<lambda>c. c \<noteq> slash) (rev p)))"

definition filepath_Base :: "string \<Rightarrow> string" where
  "filepath_Base p =
     (if p = '''' then ''.''
      else let s = rev (dropWhile (\<lambda>c. c = slash) (rev p)) in
           if s = '''' then [slash] else rev (takeWhile (\<lambda>c. c \<noteq> slash) (rev s)))"

section \<open>The last element\<close>

definition plain_name :: "string \<Rightarrow> bool" where
  "plain_name f \<longleftrightarrow> f \<noteq> '''' \<and> f \<noteq> ''.'' \<and> f \<noteq> ''..'' \<and> slash \<notin> set f"

lemma clean_elems_append_plain:
  "plain_name f \<Longrightarrow> clean_elems rooted acc (cs @ [f]) = clean_elems rooted acc cs @ [f]"
  by (induction rooted acc cs rule: clean_elems.induct) (auto simp: plain_name_def)



lemma split_on_append: "split_on sep (s @ sep # t) = split_on sep s @ split_on sep t"
proof (induction s)
  case (Cons c s)
  then show ?case by (cases "split_on sep s") auto
qed simp

lemma join_append: "xs \<noteq> [] \<Longrightarrow> ys \<noteq> [] \<Longrightarrow> join sep (xs @ ys) = join sep xs @ sep @ join sep ys"
proof (induction sep xs rule: join.induct)
  case (2 sep x)
  then show ?case by (cases ys) auto
qed auto

lemma dropWhile_append_last:
  "\<not> P x \<Longrightarrow> dropWhile P (xs @ [x]) = dropWhile P xs @ [x]"
  by (induction xs) auto

text \<open>Every element but the last contributes a directory, the last one the file name.\<close>

lemma path_Join_last:
  assumes "plain_name f"
  shows "\<exists>d. path_Join (es @ [f]) = d @ f \<and> (d = [] \<or> last d = slash)"
proof -
  define xs where "xs = dropWhile (\<lambda>e. e = '''') es"
  have f: "f \<noteq> ''''" "slash \<notin> set f" using assms by (auto simp: plain_name_def)
  have es: "dropWhile (\<lambda>e. e = '''') (es @ [f]) = xs @ [f]"
    using f(1) by (simp add: dropWhile_append_last xs_def)
  let ?j = "join [slash] (xs @ [f])"
  obtain cs0 where split: "split_on slash ?j = cs0 @ [f]"
  proof (cases "xs = []")
    case True
    then show ?thesis using that [of "[]"] f(2) by (simp add: split_on_no_sep)
  next
    case False
    then have "?j = join [slash] xs @ slash # f" by (simp add: join_append)
    then show ?thesis using that [of "split_on slash (join [slash] xs)"] f(2)
      by (simp add: split_on_append split_on_no_sep)
  qed
  define r where "r \<longleftrightarrow> ?j \<noteq> [] \<and> hd ?j = slash"
  define cs where "cs = clean_elems r [] cs0"
  have cl: "path_Join (es @ [f]) = (if r then slash # join [slash] (cs @ [f]) else join [slash] (cs @ [f]))"
    using assms by (simp add: path_Join_def es path_Clean_def Let_def split clean_elems_append_plain r_def cs_def)
  show ?thesis
  proof (cases "cs = []")
    case True
    then show ?thesis using cl by (cases r) (auto intro: exI [of _ "[slash]"])
  next
    case False
    then have "join [slash] (cs @ [f]) = (join [slash] cs @ [slash]) @ f" by (simp add: join_append)
    then show ?thesis using cl by (cases r) (auto intro!: exI [of _ "slash # join [slash] cs @ [slash]"] exI [of _ "join [slash] cs @ [slash]"])
  qed
qed

lemma after_last_slash:
  "slash \<notin> set f \<Longrightarrow> d = [] \<or> last d = slash \<Longrightarrow> takeWhile (\<lambda>c. c \<noteq> slash) (rev (d @ f)) = rev f"
proof -
  assume f: "slash \<notin> set f" and d: "d = [] \<or> last d = slash"
  have "takeWhile (\<lambda>c. c \<noteq> slash) (rev f @ rev d) = rev f @ takeWhile (\<lambda>c. c \<noteq> slash) (rev d)"
    using f by (intro takeWhile_append2) auto
  moreover have "takeWhile (\<lambda>c. c \<noteq> slash) (rev d) = []"
    using d by (cases d rule: rev_cases) auto
  ultimately show ?thesis by simp
qed

lemma path_Join_name_inject:
  assumes "plain_name f" and "plain_name g" and "path_Join (es @ [f]) = path_Join (ds @ [g])"
  shows "f = g"
proof -
  obtain d where d: "path_Join (es @ [f]) = d @ f" "d = [] \<or> last d = slash"
    using path_Join_last [OF assms(1)] by blast
  obtain e where e: "path_Join (ds @ [g]) = e @ g" "e = [] \<or> last e = slash"
    using path_Join_last [OF assms(2)] by blast
  have "rev f = takeWhile (\<lambda>c. c \<noteq> slash) (rev (d @ f))"
    using after_last_slash [OF _ d(2)] assms(1) by (simp add: plain_name_def)
  also have "\<dots> = takeWhile (\<lambda>c. c \<noteq> slash) (rev (e @ g))" using d(1) e(1) assms(3) by simp
  also have "\<dots> = rev g" using after_last_slash [OF _ e(2)] assms(2) by (simp add: plain_name_def)
  finally show ?thesis by simp
qed

end
