(* ===== verification/World.thy ===== *)
theory World
  imports Garden_Types Go_Path
begin

text \<open>
  What the program sees of the outside: the command runner, the kernel's bridges, the image store
  and the file system of the depot. None of that code is part of the sources, so its answers are
  parameters: an \<open>outside\<close> gives the result of every external call as a function of all external
  calls made before it. That is the most general sequential environment; any one execution is
  described by some \<open>outside\<close>. Every external call is recorded as an event, so that the theorems
  can say which calls a method makes and in which order. Log messages are left out.
\<close>

section \<open>Commands and events\<close>

record cmd =
  cmd_path :: string
  cmd_args :: "string list"
  cmd_env :: "string list"

text \<open>\<open>exec.Command(path, args...)\<close>.\<close>

definition exec_Command :: "string \<Rightarrow> string list \<Rightarrow> cmd" where
  "exec_Command p args = \<lparr>cmd_path = p, cmd_args = args, cmd_env = []\<rparr>"

text \<open>The part of the image store's specification that the resource pool fills in.\<close>

record rootfs_spec =
  rs_RootFS :: string
  rs_Namespaced :: bool
  rs_QuotaSize :: int
  rs_QuotaScope :: nat

text \<open>
  A message to the I/O daemon of a process (\<open>iodaemon/link/writer.go\<close>): every sender sets exactly
  one field of the Go struct.
\<close>

datatype link_input = StdinData string | EOF | WindowSize int int | Msg string

text \<open>
  Calls to the kernel, made directly or through the packages \<open>syscall\<close>, \<open>os\<close>, \<open>capability\<close> and
  \<open>netlink\<close>: by the programs that run inside a container, and by the network devices. A network
  interface is given by its name, an open file of the calling process by its number.
\<close>

datatype syscall =
    Getrlimit nat
  | Setrlimit nat uint64 uint64
  | Stat string
  | Mkdir string nat
  | Chown string int int
  | Chdir string
  | Touch string
  | Setgid int
  | Setuid int
  | LookPath string
  | Exec string "string list"
  | CapLoad int
  | CapApply int "nat list"
  | CloseOnExec int
  | Mount string string string int string
  | PivotRoot string string
  | Setenv string string
  | Clone string "string list" "string list" "(int \<times> int \<times> int) list"
  | OpenPair string
  | CloseFd nat
  | StartProcess cmd "nat list" bool
  | FindProcess int
  | SignalProcess int int
  | Dial string
  | ReadMessage
  | WriteMessage string
  | Interfaces
  | InterfaceByName string
  | LinkAdd string string
  | LinkAddIp string ip ipnet
  | LinkUp string
  | LinkSetMTU string int
  | LinkSetNsPid string int
  | AddDefaultGw string string
  | AddToBridge string string
  | DeleteBridge string
  | CreateVethPair string string
  | SetHostname string

datatype event =
    Run cmd
  | Start cmd
  | Wait cmd
  | Kill cmd
  | CreateBridge string ip ipnet
  | DestroyBridge string
  | ListBridges
  | CreateRootfs string rootfs_spec
  | DestroyRootfs string
  | MkdirAll string
  | RemoveAll string
  | MkdirChown string int
  | WriteFile string string
  | ReadFile string
  | ReadDir string
  | Background cmd
  | OpenFile string
  | CreateFile string
  | SeekFile string
  | StatFile string
  | CloseFile string
  | AppendFile string string
  | CopyFile string string
  | ReadLine cmd
  | OpenPipe
  | LinkCreate string
  | LinkWait string
  | LinkSend string link_input
  | SinkWrite string string
  | QuotaSetup
  | QuotaSetLimits string disk_limits
  | QuotaGetLimits string
  | QuotaGetUsage string
  | Sys syscall

type_synonym files = "(string \<times> string) list"

record world =
  trace :: "event list"
  files :: files

section \<open>The outside\<close>

text \<open>
  \<open>o_err\<close> says whether a call fails, given the calls made before. \<open>o_files\<close> is what a call that
  the sources do not spell out (a script run by the command runner, \<open>RemoveAll\<close>) does to the files.
  The others are the values that successful calls return.
\<close>

record outside =
  o_err :: "event list \<Rightarrow> event \<Rightarrow> error option"
  o_stdout :: "event list \<Rightarrow> cmd \<Rightarrow> string"
  o_stderr :: "event list \<Rightarrow> cmd \<Rightarrow> string"
  o_files :: "event list \<Rightarrow> event \<Rightarrow> files \<Rightarrow> files"
  o_bridges :: "event list \<Rightarrow> string list"
  o_rootfs :: "event list \<Rightarrow> string \<Rightarrow> rootfs_spec \<Rightarrow> string \<times> string list"
  o_dir :: "event list \<Rightarrow> string \<Rightarrow> string list"
  o_kernel :: "event list \<Rightarrow> string \<Rightarrow> string"
  o_disk_limits :: "event list \<Rightarrow> string \<Rightarrow> disk_limits"
  o_disk_usage :: "event list \<Rightarrow> string \<Rightarrow> disk_stat"
  o_url_ok :: "string \<Rightarrow> error option"
  o_semver :: "string \<Rightarrow> string res"
  o_missing_version :: "string \<Rightarrow> bool"
  o_getenv :: "string \<Rightarrow> string"
  o_rlimit :: "event list \<Rightarrow> nat \<Rightarrow> uint64 \<times> uint64"
  o_is_dir :: "event list \<Rightarrow> string \<Rightarrow> bool"
  o_lookpath :: "event list \<Rightarrow> string \<Rightarrow> string"
  o_interfaces :: "event list \<Rightarrow> string list"
  o_pid :: "event list \<Rightarrow> int"

definition perform :: "outside \<Rightarrow> event \<Rightarrow> world \<Rightarrow> unit res \<times> world" where
  "perform out e w =
     ((case o_err out (trace w) e of None \<Rightarrow> Ok () | Some x \<Rightarrow> Err x),
      w\<lparr>trace := trace w @ [e], files := o_files out (trace w) e (files w)\<rparr>)"

text \<open>\<open>runner.Run(cmd)\<close>.\<close>

definition run_cmd :: "outside \<Rightarrow> cmd \<Rightarrow> world \<Rightarrow> unit res \<times> world" where
  "run_cmd out c = perform out (Run c)"

text \<open>\<open>ioutil.WriteFile\<close>: the content replaces the file's when the call succeeds.\<close>

definition write_file :: "outside \<Rightarrow> string \<Rightarrow> string \<Rightarrow> world \<Rightarrow> unit res \<times> world" where
  "write_file out p s w =
     (case o_err out (trace w) (WriteFile p s) of
        None \<Rightarrow> (Ok (), w\<lparr>trace := trace w @ [WriteFile p s], files := AList.update p s (files w)\<rparr>)
      | Some x \<Rightarrow> (Err x, w\<lparr>trace := trace w @ [WriteFile p s]\<rparr>))"

text \<open>\<open>ioutil.ReadFile\<close>: \<open>os.IsNotExist\<close> holds of the first error and of no other.\<close>

definition not_exist :: error where
  "not_exist = External ''no such file or directory''"

definition read_file :: "outside \<Rightarrow> string \<Rightarrow> world \<Rightarrow> string res \<times> world" where
  "read_file out p w =
     ((case o_err out (trace w) (ReadFile p) of
         Some x \<Rightarrow> Err x
       | None \<Rightarrow> (case map_of (files w) p of None \<Rightarrow> Err not_exist | Some s \<Rightarrow> Ok s)),
      w\<lparr>trace := trace w @ [ReadFile p]\<rparr>)"

text \<open>
  A read of a file that the kernel or another process keeps (a cgroup file, \<open>/proc\<close>, \<open>/sys\<close>): its
  content is the outside's, whatever the program wrote there before.
\<close>

definition read_kernel :: "outside \<Rightarrow> event \<Rightarrow> string \<Rightarrow> world \<Rightarrow> string res \<times> world" where
  "read_kernel out e p w =
     ((case o_err out (trace w) e of Some x \<Rightarrow> Err x | None \<Rightarrow> Ok (o_kernel out (trace w) p)),
      w\<lparr>trace := trace w @ [e]\<rparr>)"

text \<open>A write to such a file leaves the files of the depot alone.\<close>

definition write_kernel :: "outside \<Rightarrow> event \<Rightarrow> world \<Rightarrow> unit res \<times> world" where
  "write_kernel out e w =
     ((case o_err out (trace w) e of Some x \<Rightarrow> Err x | None \<Rightarrow> Ok ()), w\<lparr>trace := trace w @ [e]\<rparr>)"

text \<open>A system call: like a write to such a file, it leaves the files of the depot alone.\<close>

definition sys :: "outside \<Rightarrow> syscall \<Rightarrow> world \<Rightarrow> unit res \<times> world" where
  "sys out c = write_kernel out (Sys c)"

section \<open>Sequencing calls that may fail\<close>

text \<open>
  \<open>if err := f(); err != nil { return err }\<close> followed by the rest, an error wrapped with a prefix,
  and \<open>defer cleanup(&err, undo)\<close>.
\<close>

fun then_do :: "'a res \<times> 's \<Rightarrow> ('a \<Rightarrow> 's \<Rightarrow> 'b res \<times> 's) \<Rightarrow> 'b res \<times> 's" where
  "then_do (Ok x, s) f = f x s"
| "then_do (Err e, s) f = (Err e, s)"
| "then_do (Panic m, s) f = (Panic m, s)"

fun wrap_error :: "string \<Rightarrow> 'a res \<times> 's \<Rightarrow> 'a res \<times> 's" where
  "wrap_error prefix (Err e, s) = (Err (Errorf prefix e), s)"
| "wrap_error prefix (r, s) = (r, s)"

fun on_error :: "('s \<Rightarrow> 's) \<Rightarrow> 'a res \<times> 's \<Rightarrow> 'a res \<times> 's" where
  "on_error undo (Err e, s) = (Err e, undo s)"
| "on_error undo (r, s) = (r, s)"

text \<open>
  A loop over a list that stops at the first error, \<open>for _, x := range xs { if err := f(x); err != nil
  { return err } }\<close>.
\<close>

fun do_all :: "('x \<Rightarrow> 's \<Rightarrow> unit res \<times> 's) \<Rightarrow> 'x list \<Rightarrow> 's \<Rightarrow> unit res \<times> 's" where
  "do_all f [] s = (Ok (), s)"
| "do_all f (x # xs) s = then_do (f x s) (\<lambda>_. do_all f xs)"

lemma perform_trace [simp]: "trace (snd (perform out e w)) = trace w @ [e]"
  by (simp add: perform_def)

lemma perform_no_panic [simp]: "fst (perform out e w) \<noteq> Panic m"
  by (simp add: perform_def split: option.splits)

lemma write_kernel_trace [simp]: "trace (snd (write_kernel out e w)) = trace w @ [e]"
  by (simp add: write_kernel_def)

lemma write_kernel_files [simp]: "files (snd (write_kernel out e w)) = files w"
  by (simp add: write_kernel_def)

lemma read_kernel_trace [simp]: "trace (snd (read_kernel out e p w)) = trace w @ [e]"
  by (simp add: read_kernel_def)

lemma read_kernel_files [simp]: "files (snd (read_kernel out e p w)) = files w"
  by (simp add: read_kernel_def)

lemma read_file_trace [simp]: "trace (snd (read_file out p w)) = trace w @ [ReadFile p]"
  by (simp add: read_file_def)

lemma read_file_files [simp]: "files (snd (read_file out p w)) = files w"
  by (simp add: read_file_def)

lemma write_file_trace [simp]: "trace (snd (write_file out p s w)) = trace w @ [WriteFile p s]"
  by (simp add: write_file_def split: option.splits)

lemma no_panics [simp]:
  "fst (write_file out p s w) \<noteq> Panic m" "fst (read_file out p w) \<noteq> Panic m"
  "fst (write_kernel out e w) \<noteq> Panic m" "fst (read_kernel out e p w) \<noteq> Panic m"
  by (simp_all add: write_file_def read_file_def write_kernel_def read_kernel_def split: option.splits)

lemma sys_trace [simp]: "trace (snd (sys out c w)) = trace w @ [Sys c]"
  by (simp add: sys_def)

lemma sys_files [simp]: "files (snd (sys out c w)) = files w"
  by (simp add: sys_def)

lemma sys_no_panic [simp]: "fst (sys out c w) \<noteq> Panic m"
  by (simp add: sys_def)

lemma run_cmd_trace [simp]: "trace (snd (run_cmd out c w)) = trace w @ [Run c]"
  by (simp add: run_cmd_def)

lemma run_cmd_trace_eq: "run_cmd out c w = (r, w') \<Longrightarrow> trace w' = trace w @ [Run c]"
  using run_cmd_trace [of out c w] by simp

lemma run_cmd_cases:
  obtains w' where "run_cmd out c w = (Ok (), w')" "o_err out (trace w) (Run c) = None"
    "trace w' = trace w @ [Run c]"
  | e w' where "run_cmd out c w = (Err e, w')" "o_err out (trace w) (Run c) = Some e"
    "trace w' = trace w @ [Run c]"
proof (cases "o_err out (trace w) (Run c)")
  case None
  then show ?thesis by (intro that(1)) (auto simp: run_cmd_def perform_def)
next
  case (Some e)
  then show ?thesis by (intro that(2)) (auto simp: run_cmd_def perform_def)
qed

lemma then_do_Ok [simp]: "then_do r (\<lambda>_ s. (Ok (), s)) = (r :: unit res \<times> 's)"
  by (cases r; cases "fst r") auto

lemma then_do_assoc: "then_do (then_do r f) g = then_do r (\<lambda>x s. then_do (f x s) g)"
  by (cases r; cases "fst r") auto

lemma do_all_Nil [simp]: "do_all f [] = (\<lambda>s. (Ok (), s))"
  by (rule ext) simp

lemma do_all_Cons [simp]: "do_all f (x # xs) = (\<lambda>s. then_do (f x s) (\<lambda>_. do_all f xs))"
  by (rule ext) simp

lemma do_all_append: "do_all f (xs @ ys) s = then_do (do_all f xs s) (\<lambda>_. do_all f ys)"
proof (induction xs arbitrary: s)
  case (Cons x xs)
  then have "do_all f (xs @ ys) = (\<lambda>s. then_do (do_all f xs s) (\<lambda>_. do_all f ys))" by (intro ext)
  then show ?case by (simp add: then_do_assoc)
qed simp

lemma do_all_no_panic: "(\<And>x s m. fst (f x s) \<noteq> Panic m) \<Longrightarrow> fst (do_all f xs s) \<noteq> Panic m"
proof (induction xs arbitrary: s)
  case (Cons x xs)
  obtain r s' where "f x s = (r, s')" by (cases "f x s")
  with Cons show ?case by (cases r) (auto, metis fst_conv)
qed simp

text \<open>
  When each step of such a loop makes one external call, the calls made are those of a prefix of the
  list: all of it when the loop succeeds, and up to the failing step when it does not.
\<close>

lemma do_all_prefix:
  assumes "\<And>x w. trace (snd (f x w)) = trace w @ [ev x]"
  shows "\<exists>n\<le>length xs. trace (snd (do_all f xs w)) = trace w @ map ev (take n xs)
    \<and> (is_ok (fst (do_all f xs w)) \<longrightarrow> n = length xs) \<and> (\<not> is_ok (fst (do_all f xs w)) \<longrightarrow> n > 0)"
proof (induction xs arbitrary: w)
  case (Cons x xs)
  obtain r w' where r: "f x w = (r, w')" by (cases "f x w")
  with assms [of x w] have t: "trace w' = trace w @ [ev x]" by simp
  show ?case
  proof (cases r)
    case (Ok u)
    from Cons [of w'] obtain n where "n \<le> length xs" "trace (snd (do_all f xs w')) = trace w' @ map ev (take n xs)"
      "is_ok (fst (do_all f xs w')) \<longrightarrow> n = length xs" by blast
    with Ok r t show ?thesis by (intro exI [of _ "Suc n"]) auto
  qed (use r t in \<open>auto intro!: exI [of _ 1]\<close>)
qed simp

lemma perform_trace_eq: "perform out e w = (r, w') \<Longrightarrow> trace w' = trace w @ [e]"
  using perform_trace [of out e w] by simp

text \<open>An outside where every call succeeds, for concrete runs.\<close>

definition quiet :: outside where
  "quiet = \<lparr>o_err = \<lambda>_ _. None, o_stdout = \<lambda>_ _. '''', o_stderr = \<lambda>_ _. '''', o_files = \<lambda>_ _ f. f, o_bridges = \<lambda>_. [],
     o_rootfs = \<lambda>_ _ _. ('''', []), o_dir = \<lambda>_ _. [], o_kernel = \<lambda>_ _. '''',
     o_disk_limits = \<lambda>_ _. zero_disk_limits, o_disk_usage = \<lambda>_ _. zero_disk_stat,
     o_url_ok = \<lambda>_. None, o_semver = Ok, o_missing_version = \<lambda>v. v = ''0.0.0'', o_getenv = \<lambda>_. '''',
     o_rlimit = \<lambda>_ _. (0, 0), o_is_dir = \<lambda>_ _. True, o_lookpath = \<lambda>_ p. p, o_interfaces = \<lambda>_. [], o_pid = \<lambda>_. 1\<rparr>"

definition empty_world :: world where
  "empty_world = \<lparr>trace = [], files = []\<rparr>"

lemma empty_world_sel [simp]: "trace empty_world = []" "files empty_world = []"
  by (simp_all add: empty_world_def)

end
