(* ===== verification/Process_Env.thy ===== *)
theory Process_Env
  imports World
begin

text \<open>
  Process environments (\<open>process/env.go\<close>). An \<open>Env\<close> is a Go map from names to values, kept as an
  association list with distinct keys; \<open>Array\<close> sorts its result, so the order of the list does not
  show. The theorems: an environment survives the trip through \<open>Array\<close> and \<open>NewEnv\<close>, \<open>NewEnv\<close>
  accepts exactly the lists of \<open>key=value\<close> strings with the last binding winning, and \<open>Merge\<close> is
  right-biased.
\<close>

section \<open>Definitions\<close>

type_synonym env = "(string \<times> string) list"

fun NewEnv_loop :: "string list \<Rightarrow> env \<Rightarrow> env res" where
  "NewEnv_loop [] env = Ok env"
| "NewEnv_loop (str # array) env =
     (if str = '''' then Err (EnvError EnvEmptyString)
      else case split_n2 (CHR ''='') str of
             [key, val] \<Rightarrow>
               if key = '''' then Err (EnvError (EnvEmptyKey str))
               else NewEnv_loop array (AList.update key val env)
           | _ \<Rightarrow> Err (EnvError (EnvNotKeyValue str)))"

definition NewEnv :: "string list \<Rightarrow> env res" where
  "NewEnv array = NewEnv_loop array []"

definition Env_Merge :: "env \<Rightarrow> env \<Rightarrow> env" where
  "Env_Merge env other =
     fold (\<lambda>kv. AList.update (fst kv) (snd kv)) other (fold (\<lambda>kv. AList.update (fst kv) (snd kv)) env [])"

definition env_entry :: "string \<times> string \<Rightarrow> string" where
  "env_entry kv = fst kv @ ''='' @ snd kv"

definition Env_Array :: "env \<Rightarrow> string list" where
  "Env_Array env = sort (map env_entry env)"

definition EnvFromFile :: "outside \<Rightarrow> string \<Rightarrow> world \<Rightarrow> env res \<times> world" where
  "EnvFromFile out filePath w =
     then_do (wrap_error ''process: EnvFromFile: '' (read_file out filePath w)) (\<lambda>f w.
       (NewEnv (filter (\<lambda>line. line \<noteq> '''') (split_on (CHR 0x0A) (trim_space f))), w))"

section \<open>Well-formed environments\<close>

definition env_ok :: "env \<Rightarrow> bool" where
  "env_ok env \<longleftrightarrow> distinct (map fst env) \<and> (\<forall>kv\<in>set env. fst kv \<noteq> '''' \<and> CHR ''='' \<notin> set (fst kv))"

text \<open>The entry a well-formed string stands for.\<close>

definition entry_of :: "string \<Rightarrow> string \<times> string" where
  "entry_of str = (takeWhile (\<lambda>c. c \<noteq> CHR ''='') str, tl (dropWhile (\<lambda>c. c \<noteq> CHR ''='') str))"

definition well_formed_entry :: "string \<Rightarrow> bool" where
  "well_formed_entry str \<longleftrightarrow> CHR ''='' \<in> set str \<and> hd str \<noteq> CHR ''=''"

definition env_error_of :: "string \<Rightarrow> env_error" where
  "env_error_of s =
     (if s = '''' then EnvEmptyString else if CHR ''='' \<in> set s then EnvEmptyKey s else EnvNotKeyValue s)"

lemma split_n2_entry:
  "CHR ''='' \<in> set str \<Longrightarrow> split_n2 (CHR ''='') str = [fst (entry_of str), snd (entry_of str)]"
  by (simp add: split_n2_def entry_of_def)

lemma well_formed_key: "well_formed_entry str \<longleftrightarrow> CHR ''='' \<in> set str \<and> fst (entry_of str) \<noteq> []"
  by (cases str) (auto simp: well_formed_entry_def entry_of_def)

lemma entry_of_key_no_eq: "CHR ''='' \<notin> set (fst (entry_of str))"
  by (auto simp: entry_of_def dest: set_takeWhileD)

lemma env_ok_update:
  assumes "env_ok env" and "k \<noteq> ''''" and "CHR ''='' \<notin> set k"
  shows "env_ok (AList.update k v env)"
  using assms AList_update_subset [of k v env] by (auto simp: env_ok_def distinct_update)

lemma NewEnv_loop_eq:
  "NewEnv_loop array env =
     (case find (\<lambda>s. \<not> well_formed_entry s) array of
        None \<Rightarrow> Ok (fold (\<lambda>kv. AList.update (fst kv) (snd kv)) (map entry_of array) env)
      | Some s \<Rightarrow> Err (EnvError (env_error_of s)))"
proof (induction array arbitrary: env)
  case (Cons str array)
  show ?case
  proof (cases "CHR ''='' \<in> set str")
    case True
    then show ?thesis using Cons
      by (auto simp: split_n2_entry well_formed_key env_error_of_def split: option.splits)
  next
    case False
    then have "split_n2 (CHR ''='') str = [str]" by (simp add: split_n2_def)
    with False show ?thesis by (simp add: well_formed_entry_def env_error_of_def)
  qed
qed simp

lemma fold_update_ok:
  "env_ok env \<Longrightarrow> \<forall>kv\<in>set kvs. fst kv \<noteq> '''' \<and> CHR ''='' \<notin> set (fst kv) \<Longrightarrow>
   env_ok (fold (\<lambda>kv. AList.update (fst kv) (snd kv)) kvs env)"
  by (induction kvs arbitrary: env) (auto simp: env_ok_update)

lemma map_of_fold_update:
  "map_of (fold (\<lambda>kv. AList.update (fst kv) (snd kv)) kvs env) = map_of env ++ map_of (rev kvs)"
  by (induction kvs arbitrary: env) (auto simp: update_conv' map_add_def split: option.splits)

lemma NewEnv_ok:
  assumes "NewEnv array = Ok env"
  shows "env_ok env"
proof -
  from assms have none: "find (\<lambda>s. \<not> well_formed_entry s) array = None"
    and env: "env = fold (\<lambda>kv. AList.update (fst kv) (snd kv)) (map entry_of array) []"
    by (auto simp: NewEnv_def NewEnv_loop_eq split: option.splits)
  have "\<forall>kv\<in>set (map entry_of array). fst kv \<noteq> '''' \<and> CHR ''='' \<notin> set (fst kv)"
    using none by (simp add: find_None_iff well_formed_key entry_of_key_no_eq)
  then show ?thesis unfolding env by (intro fold_update_ok) (simp_all add: env_ok_def)
qed

lemma entry_of_env_entry: "CHR ''='' \<notin> set (fst kv) \<Longrightarrow> entry_of (env_entry kv) = kv"
  using split_n2_key_value [of "CHR ''=''" "fst kv" "snd kv"] split_n2_entry [of "env_entry kv"]
  by (simp add: env_entry_def prod_eq_iff)

section \<open>Properties\<close>

text \<open>
  C21. Environments survive being handed over as an array: for every environment \<open>NewEnv\<close> can
  produce, parsing the output of \<open>Array\<close> gives back the same map.
\<close>

theorem env_roundtrip:
  assumes "env_ok env"
  shows "\<exists>env'. NewEnv (Env_Array env) = Ok env' \<and> map_of env' = map_of env"
proof -
  have d: "distinct (map fst env)" and k: "\<forall>kv\<in>set env. fst kv \<noteq> '''' \<and> CHR ''='' \<notin> set (fst kv)"
    using assms by (auto simp: env_ok_def)
  have "\<forall>s\<in>set (Env_Array env). well_formed_entry s"
    using k by (auto simp: Env_Array_def well_formed_key entry_of_env_entry) (simp add: env_entry_def)
  then have "find (\<lambda>s. \<not> well_formed_entry s) (Env_Array env) = None" by (auto simp: find_None_iff)
  then have new: "NewEnv (Env_Array env) =
      Ok (fold (\<lambda>kv. AList.update (fst kv) (snd kv)) (map entry_of (Env_Array env)) [])"
    by (simp add: NewEnv_def NewEnv_loop_eq)
  have "mset (map entry_of (Env_Array env)) = mset (map (entry_of \<circ> env_entry) env)"
    by (simp add: Env_Array_def multiset.map_comp)
  also have "map (entry_of \<circ> env_entry) env = env" using k by (simp add: map_idI entry_of_env_entry)
  finally have m: "mset (rev (map entry_of (Env_Array env))) = mset env" by simp
  then have "mset (map fst (rev (map entry_of (Env_Array env)))) = mset (map fst env)" by (metis mset_map)
  with d have "distinct (map fst (rev (map entry_of (Env_Array env))))" by (metis mset_eq_imp_distinct_iff)
  then have "map_of (rev (map entry_of (Env_Array env))) = map_of env"
    using m by (rule map_of_permuted)
  with new show ?thesis by (auto simp: map_of_fold_update)
qed

theorem env_roundtrip_witness:
  "\<exists>env'. NewEnv [''HOME=/root'', ''PATH=/bin:/a=b''] = Ok env'
     \<and> map_of env' = map_of [(''PATH'', ''/bin:/a=b''), (''HOME'', ''/root'')]"
proof -
  have "env_ok [(''PATH'', ''/bin:/a=b''), (''HOME'', ''/root'')]" by (simp add: env_ok_def)
  moreover have "Env_Array [(''PATH'', ''/bin:/a=b''), (''HOME'', ''/root'')] = [''HOME=/root'', ''PATH=/bin:/a=b'']"
    by code_simp
  ultimately show ?thesis using env_roundtrip by metis
qed

text \<open>
  \<open>NewEnv\<close> rejects a list exactly when it has an empty string, a string without \<open>=\<close> or one with
  an empty key, and reports the first such string; otherwise the last binding of a key wins.
\<close>

theorem NewEnv_correct:
  "case NewEnv array of
     Ok env \<Rightarrow> (\<forall>s\<in>set array. well_formed_entry s) \<and> map_of env = map_of (rev (map entry_of array))
   | Err e \<Rightarrow> (\<exists>before s after. array = before @ s # after \<and> (\<forall>x\<in>set before. well_formed_entry x)
       \<and> \<not> well_formed_entry s \<and> e = EnvError (env_error_of s))
   | Panic m \<Rightarrow> False"
proof (cases "find (\<lambda>s. \<not> well_formed_entry s) array")
  case None
  moreover from None have "\<forall>s\<in>set array. well_formed_entry s" by (auto simp: find_None_iff)
  ultimately show ?thesis by (simp add: NewEnv_def NewEnv_loop_eq map_of_fold_update)
next
  case (Some s)
  then obtain i where i: "i < length array" "\<not> well_formed_entry (array ! i)" "s = array ! i"
    "\<forall>j<i. well_formed_entry (array ! j)" by (auto simp: find_Some_iff)
  then have "array = take i array @ s # drop (Suc i) array" by (simp add: id_take_nth_drop)
  moreover have "\<forall>x\<in>set (take i array). well_formed_entry x" using i by (auto simp: in_set_conv_nth)
  ultimately show ?thesis using i(2,3) Some
    by (simp add: NewEnv_def NewEnv_loop_eq) blast
qed

theorem NewEnv_correct_witness:
  "NewEnv [''A=1'', ''=x'', ''B''] = Err (EnvError (EnvEmptyKey ''=x''))
   \<and> (\<exists>before s after. [''A=1'', ''=x'', ''B''] = before @ s # after \<and> \<not> well_formed_entry s)"
proof -
  have "NewEnv [''A=1'', ''=x'', ''B''] = Err (EnvError (EnvEmptyKey ''=x''))" by code_simp
  with NewEnv_correct [of "[''A=1'', ''=x'', ''B'']"] show ?thesis by auto
qed

text \<open>
  \<open>Merge\<close> gives the union of the two maps, the argument's bindings taking precedence; this is
  how a container's own variables override those of its image.
\<close>

theorem Env_Merge_correct:
  assumes "env_ok env" and "env_ok other"
  shows "map_of (Env_Merge env other) = map_of env ++ map_of other \<and> env_ok (Env_Merge env other)"
proof -
  have r: "map_of (rev kvs) = map_of kvs" if "distinct (map fst kvs)" for kvs :: env
    using that by (intro map_of_permuted) (simp_all add: rev_map [symmetric])
  have "env_ok (Env_Merge env other)"
    unfolding Env_Merge_def using assms
    by (intro fold_update_ok) (auto simp: env_ok_def)
  then show ?thesis
    using assms by (auto simp: Env_Merge_def map_of_fold_update r env_ok_def)
qed

theorem Env_Merge_correct_witness:
  "map_of (Env_Merge [(''A'', ''1''), (''B'', ''2'')] [(''A'', ''3'')]) =
     map_of [(''A'', ''1''), (''B'', ''2'')] ++ map_of [(''A'', ''3'')]"
  using Env_Merge_correct [of "[(''A'', ''1''), (''B'', ''2'')]" "[(''A'', ''3'')]"]
  by (simp add: env_ok_def)

end
