(* ===== verification/Bridge_Mgr.thy ===== *)
theory Bridge_Mgr
  imports World Subnets
begin

text \<open>
  The bridge manager (\<open>network/bridgemgr\<close>): which bridge serves which subnet and which containers
  own a bridge, the generator of bridge names, and the pruning of unknown bridges. The bridge
  devices themselves are outside. The theorems: the two maps stay inverse to each other and every
  known bridge has an owner, a bridge is destroyed only when its last owner releases it, pruning
  spares reserved bridges, and generated names are distinct for a four-character prefix but
  repeat for a longer one.
\<close>

unbundle bit_operations_syntax

section \<open>Names\<close>

text \<open>
  The digits of \<open>bridgeNum\<close>, an \<open>int64\<close>: an arithmetic shift and the low five bits, printed in base
  32. A shift distance that is negative wraps around as a \<open>uint\<close> and shifts everything out.
\<close>

definition digit5 :: "64 word \<Rightarrow> nat \<Rightarrow> char" where
  "digit5 num i =
     digit_char (unat (signed_drop_bit (if 5 * (i + 1) \<le> 55 then 55 - 5 * (i + 1) else 64) num AND 31))"

definition randPartLen :: "string \<Rightarrow> nat" where
  "randPartLen prefix = unat (15 - of_nat (length prefix) :: 64 word)"

text \<open>The string sent to the channel for a given number.\<close>

definition name_digits :: "nat \<Rightarrow> 64 word \<Rightarrow> string" where
  "name_digits n num = map (digit5 num) [0..<n]"

record name_gen =
  ng_prefix :: string
  ng_num :: "64 word"

definition NewBridgeNameGenerator :: "string \<Rightarrow> 64 word \<Rightarrow> name_gen" where
  "NewBridgeNameGenerator prefix now = \<lparr>ng_prefix = prefix, ng_num = now\<rparr>"

definition Generate :: "name_gen \<Rightarrow> string \<times> name_gen" where
  "Generate g = (ng_prefix g @ name_digits (randPartLen (ng_prefix g)) (ng_num g),
                 g\<lparr>ng_num := ng_num g + 1\<rparr>)"

fun generate_many :: "nat \<Rightarrow> name_gen \<Rightarrow> string list" where
  "generate_many 0 g = []"
| "generate_many (Suc n) g = (let (s, g') = Generate g in s # generate_many n g')"

section \<open>The manager\<close>

record mgr =
  mgr_prefix :: string
  names :: name_gen
  owners :: "(string \<times> string list) list"
  bridgeSubnet :: "(string \<times> string) list"
  subnetBridge :: "(string \<times> string) list"

definition BridgeMgr_New :: "string \<Rightarrow> 64 word \<Rightarrow> mgr" where
  "BridgeMgr_New prefix now =
     \<lparr>mgr_prefix = prefix, names = NewBridgeNameGenerator prefix now,
      owners = [], bridgeSubnet = [], subnetBridge = []\<rparr>"

definition owners_of :: "mgr \<Rightarrow> string \<Rightarrow> string list" where
  "owners_of m b = (case map_of (owners m) b of None \<Rightarrow> [] | Some ids \<Rightarrow> ids)"

definition add_owner :: "string \<Rightarrow> string \<Rightarrow> mgr \<Rightarrow> mgr" where
  "add_owner b containerId m = m\<lparr>owners := AList.update b (owners_of m b @ [containerId]) (owners m)\<rparr>"

definition assign_bridge :: "string \<Rightarrow> string \<Rightarrow> mgr \<Rightarrow> mgr" where
  "assign_bridge sn b m =
     m\<lparr>subnetBridge := AList.update sn b (subnetBridge m),
       bridgeSubnet := AList.update b sn (bridgeSubnet m)\<rparr>"

definition Mgr_Reserve ::
  "outside \<Rightarrow> ipnet \<Rightarrow> string \<Rightarrow> mgr \<times> world \<Rightarrow> string res \<times> mgr \<times> world" where
  "Mgr_Reserve out subnet containerId = (\<lambda>(m, w).
     case map_of (subnetBridge m) (IPNet_String subnet) of
       Some name \<Rightarrow> (Ok name, add_owner name containerId m, w)
     | None \<Rightarrow>
         let (name, g) = Generate (names m); m = m\<lparr>names := g\<rparr> in
         case GatewayIP subnet of
           Panic msg \<Rightarrow> (Panic msg, m, w)
         | Err e \<Rightarrow> (Err e, m, w)
         | Ok gw \<Rightarrow>
             (case perform out (CreateBridge name gw subnet) w of
                (Ok _, w) \<Rightarrow> (Ok name, add_owner name containerId (assign_bridge (IPNet_String subnet) name m), w)
              | (Err e, w) \<Rightarrow> (Err e, m, w)
              | (Panic msg, w) \<Rightarrow> (Panic msg, m, w)))"

definition Mgr_Rereserve :: "string \<Rightarrow> ipnet \<Rightarrow> string \<Rightarrow> mgr \<Rightarrow> unit res \<times> mgr" where
  "Mgr_Rereserve bridgeName subnet containerId m =
     (if bridgeName = '''' then
        (Err (ErrorNew ''bridgemgr: re-reserving bridge: bridge name must not be empty''), m)
      else
        let accept = (Ok (), assign_bridge (IPNet_String subnet) bridgeName (add_owner bridgeName containerId m)) in
        case map_of (bridgeSubnet m) bridgeName of
          Some sn \<Rightarrow>
            if sn \<noteq> IPNet_String subnet then
              (Err (ErrorNew (''bridgemgr: reacquired bridge name '' @ [CHR 0x27] @ bridgeName @ [CHR 0x27]
                 @ '' has already been acquired for subnet '' @ sn)), m)
            else accept
        | None \<Rightarrow> accept)"

text \<open>The bookkeeping of \<open>Release\<close>, under the lock; the flag is \<open>shouldDelete\<close>.\<close>

definition Mgr_release_owner :: "string \<Rightarrow> string \<Rightarrow> mgr \<Rightarrow> bool \<times> mgr" where
  "Mgr_release_owner bridgeName containerId m =
     (let m = m\<lparr>owners := AList.update bridgeName (remove1 containerId (owners_of m bridgeName)) (owners m)\<rparr> in
      if owners_of m bridgeName = [] then
        (True,
         m\<lparr>owners := AList.delete bridgeName (owners m),
           subnetBridge := AList.delete
             (case map_of (bridgeSubnet m) bridgeName of None \<Rightarrow> '''' | Some sn \<Rightarrow> sn) (subnetBridge m),
           bridgeSubnet := AList.delete bridgeName (bridgeSubnet m)\<rparr>)
      else (False, m))"

definition Mgr_Release ::
  "outside \<Rightarrow> string \<Rightarrow> string \<Rightarrow> mgr \<times> world \<Rightarrow> unit res \<times> mgr \<times> world" where
  "Mgr_Release out bridgeName containerId = (\<lambda>(m, w).
     let (shouldDelete, m) = Mgr_release_owner bridgeName containerId m in
     if shouldDelete then (let (r, w) = perform out (DestroyBridge bridgeName) w in (r, m, w))
     else (Ok (), m, w))"

definition isReserved :: "mgr \<Rightarrow> string \<Rightarrow> bool" where
  "isReserved m r \<longleftrightarrow> map_of (bridgeSubnet m) r \<noteq> None"

fun prune_loop :: "outside \<Rightarrow> mgr \<Rightarrow> string list \<Rightarrow> world \<Rightarrow> world" where
  "prune_loop out m [] w = w"
| "prune_loop out m (b # bs) w =
     prune_loop out m bs
       (if has_prefix b (mgr_prefix m) \<and> \<not> isReserved m b
        then snd (perform out (DestroyBridge b) w) else w)"

definition Mgr_Prune :: "outside \<Rightarrow> mgr \<times> world \<Rightarrow> unit res \<times> mgr \<times> world" where
  "Mgr_Prune out = (\<lambda>(m, w).
     case perform out ListBridges w of
       (Err e, w) \<Rightarrow> (Err (Errorf ''bridgemgr: pruning bridges: '' e), m, w)
     | (Panic msg, w) \<Rightarrow> (Panic msg, m, w)
     | (Ok _, w') \<Rightarrow> (Ok (), m, prune_loop out m (o_bridges out (trace w)) w'))"

section \<open>The invariant\<close>

text \<open>
  The maps between bridges and subnets are inverse to each other, and the known bridges are those
  with an owner.
\<close>

definition mgr_ok :: "mgr \<Rightarrow> bool" where
  "mgr_ok m \<longleftrightarrow>
     (\<forall>b sn. map_of (bridgeSubnet m) b = Some sn \<longleftrightarrow> map_of (subnetBridge m) sn = Some b)
     \<and> (\<forall>b. owners_of m b \<noteq> [] \<longleftrightarrow> isReserved m b)
     \<and> map_of (subnetBridge m) '''' = None"

lemma v4_string_nonempty: "IPNet_String n \<noteq> ''''"
  by (auto simp: IPNet_String_def split: prod.splits option.splits)

lemma owners_of_add_owner [simp]:
  "owners_of (add_owner b c m) b' = (if b' = b then owners_of m b @ [c] else owners_of m b')"
  by (simp add: owners_of_def add_owner_def update_conv')

lemma add_owner_maps [simp]:
  "bridgeSubnet (add_owner b c m) = bridgeSubnet m" "subnetBridge (add_owner b c m) = subnetBridge m"
  "mgr_prefix (add_owner b c m) = mgr_prefix m" "names (add_owner b c m) = names m"
  by (simp_all add: add_owner_def)

lemma assign_bridge_maps [simp]:
  "map_of (bridgeSubnet (assign_bridge sn b m)) = (map_of (bridgeSubnet m))(b \<mapsto> sn)"
  "map_of (subnetBridge (assign_bridge sn b m)) = (map_of (subnetBridge m))(sn \<mapsto> b)"
  "owners_of (assign_bridge sn b m) = owners_of m"
  by (simp_all add: assign_bridge_def update_conv' owners_of_def fun_eq_iff)

lemma isReserved_maps [simp]:
  "isReserved (add_owner b c m) = isReserved m"
  "isReserved (assign_bridge sn b m) b' \<longleftrightarrow> b' = b \<or> isReserved m b'"
  by (auto simp: isReserved_def fun_eq_iff)

lemma mgr_ok_names [simp]: "mgr_ok (m\<lparr>names := g\<rparr>) = mgr_ok m"
  by (simp add: mgr_ok_def owners_of_def isReserved_def)

lemma mgr_ok_add_owner: "mgr_ok m \<Longrightarrow> isReserved m b \<Longrightarrow> mgr_ok (add_owner b c m)"
  by (auto simp: mgr_ok_def isReserved_def)

lemma mgr_ok_assign:
  assumes "mgr_ok m" and "map_of (bridgeSubnet m) b \<in> {None, Some sn}"
    and "map_of (subnetBridge m) sn \<in> {None, Some b}" and "sn \<noteq> ''''"
  shows "mgr_ok (add_owner b c (assign_bridge sn b m))"
proof -
  have inv: "map_of (bridgeSubnet m) x = Some y \<longleftrightarrow> map_of (subnetBridge m) y = Some x" for x y
    using assms(1) by (simp add: mgr_ok_def)
  have "(if x = b then Some sn else map_of (bridgeSubnet m) x) = Some y
      \<longleftrightarrow> (if y = sn then Some b else map_of (subnetBridge m) y) = Some x" for x y
    using inv [of x y] inv [of x sn] inv [of b y] assms(2,3) by auto
  then have "\<forall>x y. map_of (bridgeSubnet (add_owner b c (assign_bridge sn b m))) x = Some y
      \<longleftrightarrow> map_of (subnetBridge (add_owner b c (assign_bridge sn b m))) y = Some x" by simp
  with assms(1,4) show ?thesis by (simp add: mgr_ok_def)
qed

lemma add_owner_assign_commute: "assign_bridge sn b (add_owner b c m) = add_owner b c (assign_bridge sn b m)"
  by (simp add: assign_bridge_def add_owner_def owners_of_def)

lemma Reserve_ok:
  assumes "mgr_ok m" and fresh: "\<not> isReserved m (fst (Generate (names m)))"
    and "Mgr_Reserve out sn c (m, w) = (r, m', w')"
  shows "mgr_ok m'"
proof (cases "map_of (subnetBridge m) (IPNet_String sn)")
  case (Some b)
  then have "isReserved m b" using assms(1) by (auto simp: mgr_ok_def isReserved_def)
  with Some assms show ?thesis by (auto simp: Mgr_Reserve_def mgr_ok_add_owner)
next
  case None
  obtain b g where b: "Generate (names m) = (b, g)" by (cases "Generate (names m)")
  have "mgr_ok (add_owner b c (assign_bridge (IPNet_String sn) b (m\<lparr>names := g\<rparr>)))"
    using assms(1) fresh None b by (intro mgr_ok_assign) (auto simp: isReserved_def v4_string_nonempty)
  with None assms(1,3) b show ?thesis
    by (auto simp: Mgr_Reserve_def Let_def split: res.splits prod.splits)
qed

lemma Rereserve_ok:
  assumes "mgr_ok m" and "map_of (subnetBridge m) (IPNet_String sn) \<in> {None, Some b}"
    and "Mgr_Rereserve b sn c m = (r, m')"
  shows "mgr_ok m'"
  using assms mgr_ok_assign [OF assms(1) _ assms(2) v4_string_nonempty]
  by (auto simp: Mgr_Rereserve_def Let_def add_owner_assign_commute split: if_splits option.splits)

lemma release_owner_ok:
  assumes ok: "mgr_ok m" and rel: "Mgr_release_owner b c m = (del, m')"
  shows "mgr_ok m' \<and> (del \<longleftrightarrow> owners_of m' b = []) \<and> owners_of m' b = remove1 c (owners_of m b)
    \<and> (\<forall>b'. b' \<noteq> b \<longrightarrow> owners_of m' b' = owners_of m b'
          \<and> map_of (bridgeSubnet m') b' = map_of (bridgeSubnet m) b')
    \<and> (\<not> del \<longrightarrow> bridgeSubnet m' = bridgeSubnet m \<and> subnetBridge m' = subnetBridge m)"
proof -
  let ?r = "remove1 c (owners_of m b)"
  let ?m1 = "m\<lparr>owners := AList.update b ?r (owners m)\<rparr>"
  have o1: "owners_of ?m1 b' = (if b' = b then ?r else owners_of m b')" for b'
    by (simp add: owners_of_def update_conv')
  have inv: "map_of (bridgeSubnet m) x = Some y \<longleftrightarrow> map_of (subnetBridge m) y = Some x" for x y
    using ok by (simp add: mgr_ok_def)
  have own: "owners_of m x \<noteq> [] \<longleftrightarrow> isReserved m x" for x using ok by (simp add: mgr_ok_def)
  have emp: "map_of (subnetBridge m) '''' = None" using ok by (simp add: mgr_ok_def)
  show ?thesis
  proof (cases "?r = []")
    case False
    then have "owners_of m b \<noteq> []" by auto
    moreover have "isReserved ?m1 = isReserved m" by (simp add: isReserved_def fun_eq_iff)
    moreover have "del = False" "m' = ?m1" using False rel o1 by (auto simp: Mgr_release_owner_def Let_def)
    ultimately show ?thesis using False o1 own emp inv by (simp add: mgr_ok_def)
  next
    case True
    define sn where "sn = (case map_of (bridgeSubnet m) b of None \<Rightarrow> '''' | Some sn \<Rightarrow> sn)"
    define m2 where "m2 = m\<lparr>owners := AList.delete b (AList.update b ?r (owners m)),
      subnetBridge := AList.delete sn (subnetBridge m), bridgeSubnet := AList.delete b (bridgeSubnet m)\<rparr>"
    have m': "m' = m2" "del" using rel True o1 by (auto simp: Mgr_release_owner_def Let_def sn_def m2_def)
    have o2: "owners_of m2 b' = (if b' = b then [] else owners_of m b')" for b'
      by (simp add: m2_def owners_of_def delete_conv' update_conv')
    have maps: "map_of (bridgeSubnet m2) = (map_of (bridgeSubnet m))(b := None)"
      "map_of (subnetBridge m2) = (map_of (subnetBridge m))(sn := None)"
      by (simp_all add: m2_def delete_conv')
    have "map_of (bridgeSubnet m2) x = Some y \<longleftrightarrow> map_of (subnetBridge m2) y = Some x" for x y
      using inv [of x y] inv [of b y] inv [of x sn] emp by (auto simp: maps sn_def split: option.splits)
    moreover have "isReserved m2 b' \<longleftrightarrow> b' \<noteq> b \<and> isReserved m b'" for b' by (simp add: isReserved_def maps)
    ultimately have "mgr_ok m2" using own emp by (simp add: mgr_ok_def o2) (simp add: maps)
    then show ?thesis using True by (simp add: m' o2 maps)
  qed
qed

section \<open>Reachable states\<close>

text \<open>
  The calls the resource pool makes. A new bridge needs a name that is not in use, and a restored
  container's bridge is the one its subnet already has, if it has one.
\<close>

inductive mgr_step :: "outside \<Rightarrow> mgr \<times> world \<Rightarrow> mgr \<times> world \<Rightarrow> bool" for out where
  reserve: "\<not> isReserved m (fst (Generate (names m))) \<Longrightarrow> Mgr_Reserve out sn c (m, w) = (r, s') \<Longrightarrow>
    mgr_step out (m, w) s'"
| rereserve: "map_of (subnetBridge m) (IPNet_String sn) \<in> {None, Some b} \<Longrightarrow> Mgr_Rereserve b sn c m = (r, m') \<Longrightarrow>
    mgr_step out (m, w) (m', w)"
| release: "Mgr_Release out b c (m, w) = (r, s') \<Longrightarrow> mgr_step out (m, w) s'"
| prune: "Mgr_Prune out (m, w) = (r, s') \<Longrightarrow> mgr_step out (m, w) s'"

lemma mgr_step_ok: "mgr_step out s s' \<Longrightarrow> mgr_ok (fst s) \<Longrightarrow> mgr_ok (fst s')"
proof (induction rule: mgr_step.induct)
  case (reserve m sn c w r s')
  then show ?case by (cases s') (auto intro: Reserve_ok)
next
  case (rereserve m sn b c r m' w)
  then show ?case by (auto intro: Rereserve_ok)
next
  case (release b c m w r s')
  obtain del m2 where d: "Mgr_release_owner b c m = (del, m2)" by (cases "Mgr_release_owner b c m")
  with release release_owner_ok [OF _ d] show ?case
    by (auto simp: Mgr_Release_def split: if_splits prod.splits)
next
  case (prune m w r s')
  then show ?case by (auto simp: Mgr_Prune_def split: prod.splits res.splits)
qed

lemma mgr_reachable_ok: "(mgr_step out)\<^sup>*\<^sup>* s s' \<Longrightarrow> mgr_ok (fst s) \<Longrightarrow> mgr_ok (fst s')"
  by (induction rule: rtranclp_induct) (auto intro: mgr_step_ok)

lemma BridgeMgr_New_ok: "mgr_ok (BridgeMgr_New prefix now)"
  by (simp add: mgr_ok_def BridgeMgr_New_def owners_of_def isReserved_def)

section \<open>Distinctness of generated names\<close>

lemma and_31: "(x::64 word) AND 31 = take_bit 5 x"
proof -
  have "(31::64 word) = mask 5" by (simp add: mask_eq_exp_minus_1)
  then show ?thesis by (simp add: take_bit_eq_mask)
qed

lemma unat_take_bit_less: "unat (take_bit 5 (x::64 word)) < 32"
  using take_bit_nat_less_exp [of 5 "unat x"] by (simp add: unsigned_take_bit_eq)

lemma digit5_eq_iff:
  assumes "i < 11"
  shows "digit5 v i = digit5 w i \<longleftrightarrow> (\<forall>r<5. bit v (50 - 5 * i + r) = bit w (50 - 5 * i + r))"
proof -
  have b: "bit (take_bit 5 (signed_drop_bit (50 - 5 * i) x)) r \<longleftrightarrow> r < 5 \<and> bit x (50 - 5 * i + r)"
    for x :: "64 word" and r
    using assms by (auto simp: bit_take_bit_iff bit_signed_drop_bit_iff)
  have "digit5 v i = digit5 w i \<longleftrightarrow>
      take_bit 5 (signed_drop_bit (50 - 5 * i) v) = take_bit 5 (signed_drop_bit (50 - 5 * i) w)"
    using assms
    by (simp add: digit5_def and_31 digit_char_inject unat_take_bit_less word_unat_eq_iff)
  also have "\<dots> \<longleftrightarrow> (\<forall>r<5. bit v (50 - 5 * i + r) = bit w (50 - 5 * i + r))"
  proof (rule iffI, intro allI impI)
    fix r :: nat assume eq: "take_bit 5 (signed_drop_bit (50 - 5 * i) v) = take_bit 5 (signed_drop_bit (50 - 5 * i) w)"
      and r: "r < 5"
    from eq have "bit (take_bit 5 (signed_drop_bit (50 - 5 * i) v)) r = bit (take_bit 5 (signed_drop_bit (50 - 5 * i) w)) r"
      by simp
    with r show "bit v (50 - 5 * i + r) = bit w (50 - 5 * i + r)" by (simp add: b)
  qed (rule bit_eqI, auto simp: b)
  finally show ?thesis .
qed

lemma name_digits_eq_iff:
  assumes "n \<le> 11"
  shows "name_digits n v = name_digits n w \<longleftrightarrow> (\<forall>b. 55 - 5 * n \<le> b \<and> b < 55 \<longrightarrow> bit v b = bit w b)"
proof -
  have "name_digits n v = name_digits n w \<longleftrightarrow> (\<forall>i<n. digit5 v i = digit5 w i)"
    by (auto simp: name_digits_def)
  also have "\<dots> \<longleftrightarrow> (\<forall>i<n. \<forall>r<5. bit v (50 - 5 * i + r) = bit w (50 - 5 * i + r))"
    using assms by (auto simp: digit5_eq_iff)
  also have "\<dots> \<longleftrightarrow> (\<forall>b. 55 - 5 * n \<le> b \<and> b < 55 \<longrightarrow> bit v b = bit w b)"
  proof (rule iffI, intro allI impI)
    fix b assume all: "\<forall>i<n. \<forall>r<5. bit v (50 - 5 * i + r) = bit w (50 - 5 * i + r)"
      and b: "55 - 5 * n \<le> b \<and> b < 55"
    have "50 - 5 * (10 - b div 5) + b mod 5 = b" and "10 - b div 5 < n" using b assms by presburger+
    then show "bit v b = bit w b" using all by (metis mod_less_divisor zero_less_numeral)
  next
    assume all: "\<forall>b. 55 - 5 * n \<le> b \<and> b < 55 \<longrightarrow> bit v b = bit w b"
    show "\<forall>i<n. \<forall>r<5. bit v (50 - 5 * i + r) = bit w (50 - 5 * i + r)"
    proof (intro allI impI)
      fix i r :: nat assume "i < n" "r < 5"
      then have "55 - 5 * n \<le> 50 - 5 * i + r \<and> 50 - 5 * i + r < 55" using assms by linarith
      with all show "bit v (50 - 5 * i + r) = bit w (50 - 5 * i + r)" by blast
    qed
  qed
  finally show ?thesis .
qed

lemma generate_many_nth:
  "i < n \<Longrightarrow> generate_many n g ! i =
     ng_prefix g @ name_digits (randPartLen (ng_prefix g)) (ng_num g + of_nat i)"
proof (induction n arbitrary: g i)
  case (Suc n)
  then show ?case by (cases i) (auto simp: Generate_def algebra_simps)
qed simp

lemma length_generate_many [simp]: "length (generate_many n g) = n"
  by (induction n arbitrary: g) (auto simp: Generate_def)

lemma low_bits_differ:
  fixes w :: "64 word"
  assumes "m \<le> 64" and "i < 2 ^ m" and "j < 2 ^ m" and "\<forall>b<m. bit (w + of_nat i) b = bit (w + of_nat j) b"
  shows "i = j"
proof -
  have "take_bit m (w + of_nat i) = take_bit m (w + of_nat j)"
    using assms(4) by (auto simp: bit_eq_iff bit_take_bit_iff)
  then have "unat (take_bit m (w + of_nat i)) = unat (take_bit m (w + of_nat j))" by simp
  moreover have "unat (take_bit m (w + of_nat k)) = (unat w + k) mod 2 ^ m" for k
  proof -
    have "unat (w + of_nat k) = (unat w + k) mod 2 ^ 64"
      by (simp add: unat_word_ariths unat_of_nat take_bit_eq_mod mod_simps)
    moreover have "(x mod 2 ^ 64) mod 2 ^ m = x mod (2 ^ m :: nat)" for x
      by (rule mod_mod_cancel) (rule le_imp_power_dvd [OF assms(1)])
    ultimately show ?thesis
      by (simp only: unsigned_take_bit_eq take_bit_eq_mod [where 'a = nat])
  qed
  ultimately show ?thesis using mod_add_cancel_nat assms(2,3) by metis
qed

lemma randPartLen_eq: "length prefix \<le> 15 \<Longrightarrow> randPartLen prefix = 15 - length prefix"
proof -
  assume l: "length prefix \<le> 15"
  have "unat (of_nat (length prefix) :: 64 word) = length prefix"
    using l by (simp add: unat_of_nat take_bit_nat_eq_self)
  moreover from this l have "of_nat (length prefix) \<le> (15 :: 64 word)" by (simp add: word_le_nat_alt)
  ultimately show ?thesis by (simp add: randPartLen_def unat_sub)
qed

lemma high_bits_same:
  fixes w :: "64 word"
  assumes "unat w mod 32 \<noteq> 31" and "5 \<le> b"
  shows "bit (w + 1) b = bit w b"
proof -
  have "unat w mod 32 < 32" by (rule mod_less_divisor) simp
  then have "unat w mod 32 < 31" using assms(1) by linarith
  then have "(unat w mod 32 + 1) div 32 = 0" by simp
  then have "(unat w div 32 * 32 + (unat w mod 32 + 1)) div 32 = unat w div 32"
    by (simp only: div_mult_self3 zero_neq_numeral not_False_eq_True add_0_right)
  then have "(unat w + 1) div 32 = unat w div 32" by (metis add.assoc div_mult_mod_eq)
  moreover have "unat (w + 1) = unat w + 1"
  proof -
    have "unat w < 2 ^ 64" using unsigned_less [of w] by simp
    moreover have "unat w \<noteq> 2 ^ 64 - 1" using assms(1) by auto
    ultimately show ?thesis by (simp add: unat_word_ariths)
  qed
  ultimately have "drop_bit 5 (unat (w + 1)) = drop_bit 5 (unat w)" by (simp add: drop_bit_eq_div)
  then have "bit (unat (w + 1)) (5 + (b - 5)) = bit (unat w) (5 + (b - 5))"
    by (metis bit_drop_bit_eq comp_apply)
  then show ?thesis using assms(2) by (simp add: bit_unsigned_iff)
qed

section \<open>Properties\<close>



text \<open>
  Releasing a bridge removes one reservation of the container. The bridge device is destroyed
  exactly when no owner is left, and then it is also forgotten; the bridges of other subnets are
  untouched.
\<close>

theorem Mgr_Release_correct:
  assumes "mgr_ok m" and "Mgr_Release out b c (m, w) = (r, m', w')"
  shows "owners_of m' b = remove1 c (owners_of m b)
    \<and> (if owners_of m' b = []
       then trace w' = trace w @ [DestroyBridge b] \<and> \<not> isReserved m' b
       else r = Ok () \<and> w' = w \<and> map_of (bridgeSubnet m') b = map_of (bridgeSubnet m) b)
    \<and> (\<forall>b'. b' \<noteq> b \<longrightarrow> owners_of m' b' = owners_of m b' \<and> map_of (bridgeSubnet m') b' = map_of (bridgeSubnet m) b')"
proof -
  obtain del m2 where d: "Mgr_release_owner b c m = (del, m2)" by (cases "Mgr_release_owner b c m")
  note ok = release_owner_ok [OF assms(1) d]
  have m': "m' = m2" and tr: "del \<Longrightarrow> trace w' = trace w @ [DestroyBridge b]" and nd: "\<not> del \<Longrightarrow> r = Ok () \<and> w' = w"
    using assms(2) d by (auto simp: Mgr_Release_def dest: perform_trace_eq split: if_splits prod.splits)
  from ok have "owners_of m2 b = [] \<longleftrightarrow> \<not> isReserved m2 b" by (auto simp: mgr_ok_def)
  with ok tr nd show ?thesis by (auto simp: m')
qed

theorem Mgr_Release_correct_witness:
  "let m = fst (snd (Mgr_Reserve quiet (example_net 0) ''c1'' (BridgeMgr_New ''w1b-'' 0, empty_world)));
       (r, m', w') = Mgr_Release quiet ''w1b-00000000000'' ''c1'' (m, empty_world)
   in trace w' = [DestroyBridge ''w1b-00000000000''] \<and> \<not> isReserved m' ''w1b-00000000000''"
proof -
  let ?m = "fst (snd (Mgr_Reserve quiet (example_net 0) ''c1'' (BridgeMgr_New ''w1b-'' 0, empty_world)))"
  obtain r m' w' where rel: "Mgr_Release quiet ''w1b-00000000000'' ''c1'' (?m, empty_world) = (r, m', w')"
    by (cases "Mgr_Release quiet ''w1b-00000000000'' ''c1'' (?m, empty_world)") auto
  have "\<not> isReserved (BridgeMgr_New ''w1b-'' 0) b" for b by (simp add: isReserved_def BridgeMgr_New_def)
  then have "mgr_ok ?m"
    using Reserve_ok [OF BridgeMgr_New_ok] by (metis prod.collapse)
  from Mgr_Release_correct [OF this rel] have "owners_of m' ''w1b-00000000000'' = remove1 ''c1'' (owners_of ?m ''w1b-00000000000'')"
    and "owners_of m' ''w1b-00000000000'' = [] \<longrightarrow> trace w' = trace empty_world @ [DestroyBridge ''w1b-00000000000'']
      \<and> \<not> isReserved m' ''w1b-00000000000''" by (auto split: if_splits)
  moreover have "owners_of ?m ''w1b-00000000000'' = [''c1'']" by code_simp
  ultimately show ?thesis by (simp add: rel)
qed

lemma prune_loop_trace:
  "trace (prune_loop out m bs w) =
     trace w @ map DestroyBridge (filter (\<lambda>b. has_prefix b (mgr_prefix m) \<and> \<not> isReserved m b) bs)"
  by (induction bs arbitrary: w) auto

text \<open>
  Pruning lists the bridges once and then destroys, in that order, exactly the listed bridges
  that carry the manager's prefix and that no container has reserved; failures to destroy one do not
  stop it, and the bookkeeping is unchanged.
\<close>

theorem Mgr_Prune_correct:
  "case Mgr_Prune out (m, w) of (r, m', w') \<Rightarrow> m' = m \<and>
     (case o_err out (trace w) ListBridges of
        Some e \<Rightarrow> r = Err (Errorf ''bridgemgr: pruning bridges: '' e) \<and> trace w' = trace w @ [ListBridges]
      | None \<Rightarrow> r = Ok () \<and> trace w' = trace w @ ListBridges #
          map DestroyBridge (filter (\<lambda>b. has_prefix b (mgr_prefix m) \<and> \<not> isReserved m b) (o_bridges out (trace w))))"
  by (auto simp: Mgr_Prune_def perform_def prune_loop_trace split: option.splits)

text \<open>
  With a four-character prefix (a one-character tag) the generator gives \<open>2 ^ 55\<close> pairwise
  distinct names before any repeats.
\<close>

theorem bridge_names_distinct:
  assumes "length prefix = 4" and "n \<le> 2 ^ 55"
  shows "distinct (generate_many n (NewBridgeNameGenerator prefix now))"
proof -
  have r: "randPartLen prefix = 11" using assms(1) by (simp add: randPartLen_eq)
  have "i = j" if "i < n" "j < n" "generate_many n (NewBridgeNameGenerator prefix now) ! i
      = generate_many n (NewBridgeNameGenerator prefix now) ! j" for i j
  proof -
    from that have "name_digits 11 (now + of_nat i) = name_digits 11 (now + of_nat j)"
      by (simp add: generate_many_nth NewBridgeNameGenerator_def r)
    then have "\<forall>b<55. bit (now + of_nat i) b = bit (now + of_nat j) b" by (simp add: name_digits_eq_iff)
    then show ?thesis using that(1,2) assms(2) by (intro low_bits_differ [of 55 i j now]) simp_all
  qed
  then show ?thesis by (auto simp: distinct_conv_nth)
qed

theorem bridge_names_distinct_witness:
  "distinct (generate_many 3 (NewBridgeNameGenerator ''w1b-'' 1447574400000000000))"
  using bridge_names_distinct [of "''w1b-''" 3 1447574400000000000] by simp

text \<open>
  With a five-character prefix (a two-character tag, which the server accepts) only ten digits
  are printed and the five lowest bits of the counter are dropped: the generator repeats its previous
  name unless the counter's last five bits are all ones, and two subnets then get the same bridge.
\<close>

theorem bridge_names_repeat:
  assumes "length (mgr_prefix m) = 5" and "names m = \<lparr>ng_prefix = mgr_prefix m, ng_num = now\<rparr>"
    and "unat now mod 32 \<noteq> 31"
    and "map_of (subnetBridge m) (IPNet_String sn1) = None" and "map_of (subnetBridge m) (IPNet_String sn2) = None"
    and "IPNet_String sn1 \<noteq> IPNet_String sn2"
    and "Mgr_Reserve out sn1 c1 (m, w) = (Ok b1, m1, w1)"
    and "Mgr_Reserve out sn2 c2 (m1, w1) = (Ok b2, m2, w2)"
  shows "b1 = b2 \<and> map_of (subnetBridge m2) (IPNet_String sn1) = Some b1
    \<and> map_of (subnetBridge m2) (IPNet_String sn2) = Some b1
    \<and> map_of (bridgeSubnet m2) b1 = Some (IPNet_String sn2)"
proof -
  have r: "randPartLen (mgr_prefix m) = 10" using assms(1) by (simp add: randPartLen_eq)
  have same: "name_digits 10 (now + 1) = name_digits 10 now"
    using high_bits_same [OF assms(3)] by (simp add: name_digits_eq_iff)
  let ?g = "\<lparr>ng_prefix = mgr_prefix m, ng_num = now + 1\<rparr>"
  have b1: "b1 = mgr_prefix m @ name_digits 10 now"
    and m1: "m1 = add_owner b1 c1 (assign_bridge (IPNet_String sn1) b1 (m\<lparr>names := ?g\<rparr>))"
    using assms(2,4,7) by (auto simp: Mgr_Reserve_def Generate_def r Let_def split: res.splits prod.splits)
  have "names m1 = ?g" by (simp add: m1 assign_bridge_def)
  moreover have "map_of (subnetBridge m1) (IPNet_String sn2) = None" using assms(5,6) by (simp add: m1)
  ultimately have b2: "b2 = mgr_prefix m @ name_digits 10 (now + 1)"
    and m2: "\<exists>g. m2 = add_owner b2 c2 (assign_bridge (IPNet_String sn2) b2 (m1\<lparr>names := g\<rparr>))"
    using assms(8) by (auto simp: Mgr_Reserve_def Generate_def r Let_def split: res.splits prod.splits)
  from m2 obtain g where "m2 = add_owner b2 c2 (assign_bridge (IPNet_String sn2) b2 (m1\<lparr>names := g\<rparr>))" ..
  moreover have "b2 = b1" by (simp add: b1 b2 same)
  ultimately show ?thesis using assms(6) by (auto simp: m1)
qed

lemma Mgr_Reserve_quiet:
  "GatewayIP sn = Ok gw \<Longrightarrow> \<exists>b m' w'. Mgr_Reserve quiet sn c (m, w) = (Ok b, m', w')"
  by (auto simp: Mgr_Reserve_def perform_def quiet_def split: option.splits prod.splits)

theorem bridge_names_repeat_witness:
  "let m = BridgeMgr_New ''w12b-'' 1447574400000000000;
       (b1, m1, w1) = Mgr_Reserve quiet (example_net 0) ''c1'' (m, empty_world);
       (b2, m2, w2) = Mgr_Reserve quiet (example_net 4) ''c2'' (m1, w1)
   in b1 = b2"
proof -
  let ?m = "BridgeMgr_New ''w12b-'' 1447574400000000000"
  have "GatewayIP (example_net 0) = Ok [10, 254, 0, 1]" "GatewayIP (example_net 4) = Ok [10, 254, 0, 5]"
    by code_simp+
  then obtain b1 m1 w1 b2 m2 w2
    where 1: "Mgr_Reserve quiet (example_net 0) ''c1'' (?m, empty_world) = (Ok b1, m1, w1)"
      and 2: "Mgr_Reserve quiet (example_net 4) ''c2'' (m1, w1) = (Ok b2, m2, w2)"
    by (metis Mgr_Reserve_quiet)
  have str: "IPNet_String (example_net 0) = ''10.254.0.0/30''" "IPNet_String (example_net 4) = ''10.254.0.4/30''"
    by code_simp+
  have "b1 = b2"
    using bridge_names_repeat [OF _ _ _ _ _ _ 1 2]
    by (simp add: BridgeMgr_New_def NewBridgeNameGenerator_def str)
  then show ?thesis by (simp add: 1 2)
qed

end
