(* ===== verification/Iptables.thy ===== *)
theory Iptables
  imports World
begin

text \<open>
  The wrapper around the \<open>iptables\<close> command (\<open>network/iptables\<close>) and the per-container filter
  built on it (\<open>network/filter.go\<close>). A chain turns rules into command lines; the kernel's tables are
  outside. The theorems say which commands a call runs, in which order, and what happens when one
  of them fails.
\<close>

section \<open>Rules\<close>

text \<open>
  \<open>garden.NetOutRule\<close> and its parts. \<open>ProtocolOther\<close> is a protocol number that is not in the
  \<open>protocols\<close> map.
\<close>

datatype protocol = ProtocolAll | ProtocolTCP | ProtocolICMP | ProtocolUDP | ProtocolOther nat

record ip_range =
  r_Start :: ip
  r_End :: ip

record port_rng =
  p_Start :: "16 word"
  p_End :: "16 word"

record icmp_control =
  icmp_Type :: byte
  icmp_Code :: "byte option"

record net_out_rule =
  Protocol :: protocol
  Networks :: "ip_range list"
  Ports :: "port_rng list"
  ICMPs :: "icmp_control option"
  Log :: bool

fun protocols :: "protocol \<Rightarrow> string option" where
  "protocols ProtocolAll = Some ''all''"
| "protocols ProtocolTCP = Some ''tcp''"
| "protocols ProtocolICMP = Some ''icmp''"
| "protocols ProtocolUDP = Some ''udp''"
| "protocols (ProtocolOther _) = None"

text \<open>\<open>strings.ToUpper\<close> on ASCII letters.\<close>

definition to_upper :: "string \<Rightarrow> string" where
  "to_upper = map (\<lambda>c. case index_of (\<lambda>x. x = c) ''abcdefghijklmnopqrstuvwxyz'' of
       None \<Rightarrow> c | Some i \<Rightarrow> ''ABCDEFGHIJKLMNOPQRSTUVWXYZ'' ! i)"

datatype action = ReturnAction | SourceNAT | RejectAction | DropAction

fun action_string :: "action \<Rightarrow> string" where
  "action_string ReturnAction = ''RETURN''"
| "action_string SourceNAT = ''SNAT''"
| "action_string RejectAction = ''REJECT''"
| "action_string DropAction = ''DROP''"

text \<open>A \<open>rule\<close> of the source: the table is given by \<open>rule_typ\<close>, the empty string or \<open>nat\<close>.\<close>

record ipt_rule =
  rule_typ :: string
  source :: string
  destination :: string
  to_ip :: ip
  jump :: action

section \<open>Chains\<close>

record chain =
  ch_name :: string
  logChainName :: string
  useKernelLogging :: bool

definition NewGlobalChain :: "string \<Rightarrow> chain" where
  "NewGlobalChain name = \<lparr>ch_name = name, logChainName = '''', useKernelLogging = False\<rparr>"

definition NewLoggingChain :: "string \<Rightarrow> bool \<Rightarrow> chain" where
  "NewLoggingChain name kernelLog =
     \<lparr>ch_name = name, logChainName = name @ ''-log'', useKernelLogging = kernelLog\<rparr>"

definition iptables :: "string list \<Rightarrow> cmd" where
  "iptables args = exec_Command ''/sbin/iptables'' args"

definition buildLogParams :: "chain \<Rightarrow> string \<Rightarrow> string list" where
  "buildLogParams ch logPrefix =
     (if useKernelLogging ch then [''--jump'', ''LOG'', ''--log-prefix'', logPrefix]
      else [''--jump'', ''NFLOG'', ''--nflog-prefix'', logPrefix, ''--nflog-group'', ''1''])"

definition Chain_TearDown :: "outside \<Rightarrow> chain \<Rightarrow> world \<Rightarrow> unit res \<times> world" where
  "Chain_TearDown out ch w =
     (if logChainName ch = '''' then (Panic ''cannot tear down chains without associated log chains'', w)
      else let (_, w) = run_cmd out (iptables [''-w'', ''-F'', logChainName ch]) w;
               (_, w) = run_cmd out (iptables [''-w'', ''-X'', logChainName ch]) w
           in (Ok (), w))"

definition Chain_Setup :: "outside \<Rightarrow> chain \<Rightarrow> string \<Rightarrow> world \<Rightarrow> unit res \<times> world" where
  "Chain_Setup out ch logPrefix w =
     (if logChainName ch = '''' then (Panic ''cannot set up chains without associated log chains'', w)
      else then_do (Chain_TearDown out ch w) (\<lambda>_ w.
        wrap_error ''iptables: log chain setup: ''
          (then_do (run_cmd out (iptables [''-w'', ''-N'', logChainName ch]) w) (\<lambda>_ w.
           then_do (run_cmd out (iptables
             ([''-w'', ''-A'', logChainName ch, ''-m'', ''conntrack'', ''--ctstate'', ''NEW,UNTRACKED,INVALID'',
               ''--protocol'', ''tcp''] @ buildLogParams ch logPrefix)) w) (\<lambda>_ w.
           run_cmd out (iptables [''-w'', ''-A'', logChainName ch, ''--jump'', ''RETURN'']) w)))))"

definition flags :: "string \<Rightarrow> string \<Rightarrow> ipt_rule \<Rightarrow> string list" where
  "flags act ch n =
     [''-w'']
     @ (if rule_typ n \<noteq> '''' then [''-t'', rule_typ n] else [])
     @ [act, ch]
     @ (if source n \<noteq> '''' then [''--source'', source n] else [])
     @ (if destination n \<noteq> '''' then [''--destination'', destination n] else [])
     @ [''--jump'', action_string (jump n)]
     @ (if to_ip n \<noteq> nil_IP then [''--to'', IP_String (to_ip n)] else [])"

definition Chain_Create :: "outside \<Rightarrow> chain \<Rightarrow> ipt_rule \<Rightarrow> world \<Rightarrow> unit res \<times> world" where
  "Chain_Create out c rule = run_cmd out (iptables (flags ''-A'' (ch_name c) rule))"

definition Chain_Destroy :: "outside \<Rightarrow> chain \<Rightarrow> ipt_rule \<Rightarrow> world \<Rightarrow> unit res \<times> world" where
  "Chain_Destroy out c rule = run_cmd out (iptables (flags ''-D'' (ch_name c) rule))"

definition AppendRule :: "outside \<Rightarrow> chain \<Rightarrow> string \<Rightarrow> string \<Rightarrow> action \<Rightarrow> world \<Rightarrow> unit res \<times> world" where
  "AppendRule out ch src dst j =
     Chain_Create out ch \<lparr>rule_typ = '''', source = src, destination = dst, to_ip = nil_IP, jump = j\<rparr>"

definition DeleteRule :: "outside \<Rightarrow> chain \<Rightarrow> string \<Rightarrow> string \<Rightarrow> action \<Rightarrow> world \<Rightarrow> unit res \<times> world" where
  "DeleteRule out ch src dst j =
     Chain_Destroy out ch \<lparr>rule_typ = '''', source = src, destination = dst, to_ip = nil_IP, jump = j\<rparr>"

definition AppendNatRule ::
  "outside \<Rightarrow> chain \<Rightarrow> string \<Rightarrow> string \<Rightarrow> action \<Rightarrow> ip \<Rightarrow> world \<Rightarrow> unit res \<times> world" where
  "AppendNatRule out ch src dst j to =
     Chain_Create out ch \<lparr>rule_typ = ''nat'', source = src, destination = dst, to_ip = to, jump = j\<rparr>"

definition DeleteNatRule ::
  "outside \<Rightarrow> chain \<Rightarrow> string \<Rightarrow> string \<Rightarrow> action \<Rightarrow> ip \<Rightarrow> world \<Rightarrow> unit res \<times> world" where
  "DeleteNatRule out ch src dst j to =
     Chain_Destroy out ch \<lparr>rule_typ = ''nat'', source = src, destination = dst, to_ip = to, jump = j\<rparr>"

section \<open>Filter rules\<close>

record single_rule =
  sr_Protocol :: protocol
  sr_Networks :: "ip_range option"
  sr_Ports :: "port_rng option"
  sr_ICMPs :: "icmp_control option"
  sr_Log :: bool

definition allowsPort :: "protocol \<Rightarrow> bool" where
  "allowsPort p \<longleftrightarrow> p = ProtocolTCP \<or> p = ProtocolUDP"

definition network_params :: "ip_range option \<Rightarrow> string list" where
  "network_params n =
     (case n of
        None \<Rightarrow> []
      | Some r \<Rightarrow>
          if r_Start r \<noteq> nil_IP \<and> r_End r \<noteq> nil_IP then
            [''-m'', ''iprange'', ''--dst-range'', IP_String (r_Start r) @ ''-'' @ IP_String (r_End r)]
          else if r_Start r \<noteq> nil_IP then [''--destination'', IP_String (r_Start r)]
          else if r_End r \<noteq> nil_IP then [''--destination'', IP_String (r_End r)]
          else [])"

definition port_params :: "port_rng option \<Rightarrow> string list" where
  "port_params p =
     (case p of
        None \<Rightarrow> []
      | Some r \<Rightarrow>
          [''--destination-port'',
           if p_End r \<noteq> p_Start r then show_word (p_Start r) @ '':'' @ show_word (p_End r)
           else show_word (p_Start r)])"

definition icmp_params :: "icmp_control option \<Rightarrow> string list" where
  "icmp_params i =
     (case i of
        None \<Rightarrow> []
      | Some c \<Rightarrow>
          [''--icmp-type'',
           case icmp_Code c of
             None \<Rightarrow> show_word (icmp_Type c)
           | Some code \<Rightarrow> show_word (icmp_Type c) @ ''/'' @ show_word code])"

definition single_rule_cmd :: "chain \<Rightarrow> string \<Rightarrow> single_rule \<Rightarrow> cmd" where
  "single_rule_cmd ch protocolString r =
     iptables ([''-w'', ''-I'', ch_name ch, ''1'', ''--protocol'', protocolString]
       @ network_params (sr_Networks r) @ port_params (sr_Ports r) @ icmp_params (sr_ICMPs r)
       @ (if sr_Log r then [''--goto'', logChainName ch] else [''--jump'', ''RETURN'']))"

definition prependSingleRule :: "outside \<Rightarrow> chain \<Rightarrow> single_rule \<Rightarrow> world \<Rightarrow> unit res \<times> world" where
  "prependSingleRule out ch r w =
     (case protocols (sr_Protocol r) of
        None \<Rightarrow>
          (Err (ErrorNew (''invalid protocol: ''
             @ (case sr_Protocol r of ProtocolOther n \<Rightarrow> show_nat n | _ \<Rightarrow> ''''))), w)
      | Some protocolString \<Rightarrow>
          let c = single_rule_cmd ch protocolString r in
          (case run_cmd out c w of
             (Err e, w') \<Rightarrow> (Err (ErrorfTail ''iptables: '' e ('', '' @ o_stderr out (trace w) c)), w')
           | x \<Rightarrow> x))"

text \<open>
  The two nested loops of \<open>PrependFilterRule\<close>; each runs at least once. \<open>single\<close> is overwritten
  in every round.
\<close>

function ports_loop ::
  "outside \<Rightarrow> chain \<Rightarrow> net_out_rule \<Rightarrow> single_rule \<Rightarrow> nat \<Rightarrow> nat \<Rightarrow> world \<Rightarrow> unit res \<times> world" where
  "ports_loop out ch r single j i w =
     (if \<not> (i < length (Ports r) \<or> i = 0) then (Ok (), w)
      else
        let single = (if Ports r \<noteq> [] then single\<lparr>sr_Ports := Some (Ports r ! i)\<rparr> else single);
            single = (if Networks r \<noteq> [] then single\<lparr>sr_Networks := Some (Networks r ! j)\<rparr> else single)
        in then_do (prependSingleRule out ch single w) (\<lambda>_ w. ports_loop out ch r single j (Suc i) w))"
  by pat_completeness auto
termination
  by (relation "measure (\<lambda>(out, ch, r, single, j, i, w). Suc (length (Ports r)) - i)") auto

function networks_loop ::
  "outside \<Rightarrow> chain \<Rightarrow> net_out_rule \<Rightarrow> single_rule \<Rightarrow> nat \<Rightarrow> world \<Rightarrow> unit res \<times> world" where
  "networks_loop out ch r single j w =
     (if \<not> (j < length (Networks r) \<or> j = 0) then (Ok (), w)
      else then_do (ports_loop out ch r single j 0 w) (\<lambda>_ w. networks_loop out ch r single (Suc j) w))"
  by pat_completeness auto
termination
  by (relation "measure (\<lambda>(out, ch, r, single, j, w). Suc (length (Networks r)) - j)") auto

declare ports_loop.simps [simp del] networks_loop.simps [simp del]

definition PrependFilterRule :: "outside \<Rightarrow> chain \<Rightarrow> net_out_rule \<Rightarrow> world \<Rightarrow> unit res \<times> world" where
  "PrependFilterRule out ch r w =
     (if Ports r \<noteq> [] \<and> \<not> allowsPort (Protocol r) then
        (Err (ErrorNew (''Ports cannot be specified for Protocol ''
           @ to_upper (case protocols (Protocol r) of None \<Rightarrow> '''' | Some s \<Rightarrow> s))), w)
      else networks_loop out ch r
             \<lparr>sr_Protocol = Protocol r, sr_Networks = None, sr_Ports = None, sr_ICMPs = ICMPs r, sr_Log = Log r\<rparr> 0 w)"

section \<open>The filter of a container\<close>

definition Filter_Setup :: "outside \<Rightarrow> chain \<Rightarrow> string \<Rightarrow> world \<Rightarrow> unit res \<times> world" where
  "Filter_Setup out ch logPrefix w = wrap_error ''network: log chain setup: '' (Chain_Setup out ch logPrefix w)"

definition Filter_TearDown :: "outside \<Rightarrow> chain \<Rightarrow> world \<Rightarrow> unit res \<times> world" where
  "Filter_TearDown out ch w = Chain_TearDown out ch w"

definition Filter_NetOut :: "outside \<Rightarrow> chain \<Rightarrow> net_out_rule \<Rightarrow> world \<Rightarrow> unit res \<times> world" where
  "Filter_NetOut out ch r w = PrependFilterRule out ch r w"

section \<open>The loops as one list\<close>

text \<open>The networks or ports a rule ranges over; a rule without any has one round with none.\<close>

definition choices :: "'a list \<Rightarrow> 'a option list" where
  "choices xs = (if xs = [] then [None] else map Some xs)"

definition single_rules :: "net_out_rule \<Rightarrow> single_rule list" where
  "single_rules r =
     [\<lparr>sr_Protocol = Protocol r, sr_Networks = n, sr_Ports = p, sr_ICMPs = ICMPs r, sr_Log = Log r\<rparr>.
        n \<leftarrow> choices (Networks r), p \<leftarrow> choices (Ports r)]"

lemma length_choices [simp]: "length (choices xs) = max 1 (length xs)"
  by (cases xs) (simp_all add: choices_def)

lemma choices_nth: "xs \<noteq> [] \<Longrightarrow> i < length xs \<Longrightarrow> choices xs ! i = Some (xs ! i)"
  by (simp add: choices_def)

text \<open>One row of the loops: the rules for a fixed network.\<close>

definition rules_for :: "net_out_rule \<Rightarrow> ip_range option \<Rightarrow> port_rng option list \<Rightarrow> single_rule list" where
  "rules_for r n ps =
     map (\<lambda>p. \<lparr>sr_Protocol = Protocol r, sr_Networks = n, sr_Ports = p, sr_ICMPs = ICMPs r, sr_Log = Log r\<rparr>) ps"

lemma single_rules_rows: "single_rules r = concat (map (\<lambda>n. rules_for r n (choices (Ports r))) (choices (Networks r)))"
  by (simp add: single_rules_def rules_for_def)

definition row_single :: "net_out_rule \<Rightarrow> single_rule \<Rightarrow> bool" where
  "row_single r s \<longleftrightarrow> sr_Protocol s = Protocol r \<and> sr_ICMPs s = ICMPs r \<and> sr_Log s = Log r
     \<and> (Networks r = [] \<longrightarrow> sr_Networks s = None) \<and> (Ports r = [] \<longrightarrow> sr_Ports s = None)"

lemma ports_loop_eq:
  assumes "row_single r s" and "Networks r = [] \<or> j < length (Networks r)"
  shows "ports_loop out ch r s j i w =
    do_all (prependSingleRule out ch)
      (rules_for r (if Networks r = [] then None else Some (Networks r ! j)) (drop i (choices (Ports r)))) w"
  using assms
proof (induction "Suc (length (Ports r)) - i" arbitrary: i s w)
  case 0
  then show ?case by (simp add: ports_loop.simps [of out ch r s j i] rules_for_def choices_def)
next
  case (Suc n)
  show ?case
  proof (cases "i < length (Ports r) \<or> i = 0")
    case False
    then have "drop i (choices (Ports r)) = []" by (simp add: not_less max_def)
    with False show ?thesis by (simp add: ports_loop.simps [of out ch r s j i] rules_for_def)
  next
    case True
    let ?n = "if Networks r = [] then None else Some (Networks r ! j)"
    define s' where "s' = \<lparr>sr_Protocol = Protocol r, sr_Networks = ?n,
      sr_Ports = (if Ports r = [] then None else Some (Ports r ! i)), sr_ICMPs = ICMPs r, sr_Log = Log r\<rparr>"
    have row: "row_single r s'" by (simp add: row_single_def s'_def)
    have "i < length (choices (Ports r))" using True by auto
    then have d: "drop i (choices (Ports r)) = choices (Ports r) ! i # drop (Suc i) (choices (Ports r))"
      by (simp add: Cons_nth_drop_Suc)
    have c: "choices (Ports r) ! i = (if Ports r = [] then None else Some (Ports r ! i))"
      using True by (auto simp: choices_def)
    define s1 where "s1 = (if Ports r \<noteq> [] then s\<lparr>sr_Ports := Some (Ports r ! i)\<rparr> else s)"
    have s2: "(if Networks r \<noteq> [] then s1\<lparr>sr_Networks := Some (Networks r ! j)\<rparr> else s1) = s'"
      using Suc.prems(1) by (cases s) (auto simp: s1_def s'_def row_single_def)
    have "ports_loop out ch r s j i w =
        then_do (prependSingleRule out ch s' w) (\<lambda>_ w. ports_loop out ch r s' j (Suc i) w)"
      using True unfolding ports_loop.simps [of out ch r s j i] s1_def [symmetric] s2 Let_def by simp
    also have "(\<lambda>w. ports_loop out ch r s' j (Suc i) w) =
        do_all (prependSingleRule out ch) (rules_for r ?n (drop (Suc i) (choices (Ports r))))"
      using Suc.hyps row Suc.prems(2) by (intro ext) simp
    finally show ?thesis by (simp add: d rules_for_def c s'_def)
  qed
qed

lemma networks_loop_eq:
  assumes "row_single r s" and "j \<le> length (Networks r) \<or> j \<le> 1"
  shows "networks_loop out ch r s j w =
    do_all (prependSingleRule out ch)
      (concat (map (\<lambda>n. rules_for r n (choices (Ports r))) (drop j (choices (Networks r))))) w"
  using assms
proof (induction "Suc (length (Networks r)) - j" arbitrary: j w)
  case 0
  then have "drop j (choices (Networks r)) = []" by (simp add: not_less max_def)
  with 0 show ?case by (simp add: networks_loop.simps [of out ch r s j])
next
  case (Suc n)
  show ?case
  proof (cases "j < length (Networks r) \<or> j = 0")
    case False
    then have "drop j (choices (Networks r)) = []" by (simp add: not_less max_def)
    with False show ?thesis by (simp add: networks_loop.simps [of out ch r s j])
  next
    case True
    have "j < length (choices (Networks r))" using True by auto
    then have d: "drop j (choices (Networks r)) = choices (Networks r) ! j # drop (Suc j) (choices (Networks r))"
      by (simp add: Cons_nth_drop_Suc)
    have c: "choices (Networks r) ! j = (if Networks r = [] then None else Some (Networks r ! j))"
      using True by (auto simp: choices_def)
    have "networks_loop out ch r s j w =
        then_do (ports_loop out ch r s j 0 w) (\<lambda>_ w. networks_loop out ch r s (Suc j) w)"
      using True by (simp add: networks_loop.simps [of out ch r s j])
    also have "(\<lambda>w. networks_loop out ch r s (Suc j) w) = do_all (prependSingleRule out ch)
        (concat (map (\<lambda>n. rules_for r n (choices (Ports r))) (drop (Suc j) (choices (Networks r)))))"
      using Suc.hyps Suc.prems(1) True by (intro ext) auto
    finally show ?thesis
      using True ports_loop_eq [OF Suc.prems(1), of j out ch 0 w] by (auto simp: d c do_all_append)
  qed
qed

section \<open>Properties\<close>

lemma prependSingleRule_trace:
  assumes "protocols (sr_Protocol s) = Some ps"
  shows "trace (snd (prependSingleRule out ch s w)) = trace w @ [Run (single_rule_cmd ch ps s)]"
  using assms
  by (auto simp: prependSingleRule_def Let_def dest: run_cmd_trace_eq split: prod.splits res.splits)

lemma do_all_prependSingleRule_prefix:
  assumes "\<forall>s\<in>set ss. protocols (sr_Protocol s) = Some ps"
  shows "\<exists>n\<le>length ss. trace (snd (do_all (prependSingleRule out ch) ss w)) =
      trace w @ map Run (take n (map (single_rule_cmd ch ps) ss))
    \<and> (is_ok (fst (do_all (prependSingleRule out ch) ss w)) \<longrightarrow> n = length ss)"
  using assms
proof (induction ss arbitrary: w)
  case (Cons s ss)
  obtain r w' where r: "prependSingleRule out ch s w = (r, w')" by (cases "prependSingleRule out ch s w")
  with prependSingleRule_trace [of s ps out ch w] Cons.prems
  have t: "trace w' = trace w @ [Run (single_rule_cmd ch ps s)]" by simp
  show ?case
  proof (cases r)
    case (Ok u)
    from Cons.IH [of w'] Cons.prems obtain n where "n \<le> length ss"
      "trace (snd (do_all (prependSingleRule out ch) ss w')) = trace w' @ map Run (take n (map (single_rule_cmd ch ps) ss))"
      "is_ok (fst (do_all (prependSingleRule out ch) ss w')) \<longrightarrow> n = length ss" by auto
    with Ok r t show ?thesis by (intro exI [of _ "Suc n"]) auto
  qed (use r t in \<open>auto intro!: exI [of _ 1]\<close>)
qed simp

text \<open>
  C22. A filter rule becomes one \<open>iptables -I\<close> command per pair of a network and a port range, in
  the order of the two nested loops and at least one: when the call succeeds all of them have run,
  and when it fails those up to the failing one have. A rule with ports for a protocol that has
  none is refused before any command is run.
\<close>

theorem PrependFilterRule_commands:
  assumes "protocols (Protocol r) = Some ps"
  shows "PrependFilterRule out ch r w =
      (if Ports r \<noteq> [] \<and> \<not> allowsPort (Protocol r)
       then (Err (ErrorNew (''Ports cannot be specified for Protocol '' @ to_upper ps)), w)
       else do_all (prependSingleRule out ch) (single_rules r) w)
    \<and> length (single_rules r) = max 1 (length (Networks r)) * max 1 (length (Ports r))
    \<and> (\<exists>n\<le>length (single_rules r). trace (snd (PrependFilterRule out ch r w)) =
          trace w @ map Run (take n (map (single_rule_cmd ch ps) (single_rules r)))
        \<and> (is_ok (fst (PrependFilterRule out ch r w)) \<longrightarrow> n = length (single_rules r)))"
proof -
  let ?s = "\<lparr>sr_Protocol = Protocol r, sr_Networks = None, sr_Ports = None, sr_ICMPs = ICMPs r, sr_Log = Log r\<rparr>"
  have "networks_loop out ch r ?s 0 w = do_all (prependSingleRule out ch) (single_rules r) w"
    using networks_loop_eq [of r ?s 0 out ch w] by (simp add: row_single_def single_rules_rows)
  then have eq: "PrependFilterRule out ch r w =
      (if Ports r \<noteq> [] \<and> \<not> allowsPort (Protocol r)
       then (Err (ErrorNew (''Ports cannot be specified for Protocol '' @ to_upper ps)), w)
       else do_all (prependSingleRule out ch) (single_rules r) w)"
    using assms by (simp add: PrependFilterRule_def)
  have "length (single_rules r) = sum_list (map (\<lambda>_. max 1 (length (Ports r))) (choices (Networks r)))"
    by (simp add: single_rules_def length_concat comp_def)
  also have "\<dots> = max 1 (length (Networks r)) * max 1 (length (Ports r))"
    by (simp add: sum_list_triv)
  finally have len: "length (single_rules r) = max 1 (length (Networks r)) * max 1 (length (Ports r))" .
  have "\<forall>s\<in>set (single_rules r). protocols (sr_Protocol s) = Some ps"
    using assms by (auto simp: single_rules_def)
  note pre = do_all_prependSingleRule_prefix [OF this, of out ch w]
  have "\<exists>n\<le>length (single_rules r). trace (snd (PrependFilterRule out ch r w)) =
      trace w @ map Run (take n (map (single_rule_cmd ch ps) (single_rules r)))
    \<and> (is_ok (fst (PrependFilterRule out ch r w)) \<longrightarrow> n = length (single_rules r))"
  proof (cases "Ports r \<noteq> [] \<and> \<not> allowsPort (Protocol r)")
    case True
    then show ?thesis by (intro exI [of _ 0]) (simp add: eq)
  next
    case False
    then have "PrependFilterRule out ch r w = do_all (prependSingleRule out ch) (single_rules r) w"
      unfolding eq by (simp only: if_False)
    then show ?thesis using pre by (simp only:)
  qed
  then show ?thesis using eq len by blast
qed

theorem PrependFilterRule_commands_witness:
  "trace (snd (PrependFilterRule quiet (NewLoggingChain ''w-1-instance-x'' False)
      \<lparr>Protocol = ProtocolTCP, Networks = [], Ports = [\<lparr>p_Start = 80, p_End = 80\<rparr>, \<lparr>p_Start = 8080, p_End = 8090\<rparr>],
       ICMPs = None, Log = True\<rparr> empty_world)) =
   map Run [iptables [''-w'', ''-I'', ''w-1-instance-x'', ''1'', ''--protocol'', ''tcp'',
                      ''--destination-port'', ''80'', ''--goto'', ''w-1-instance-x-log''],
            iptables [''-w'', ''-I'', ''w-1-instance-x'', ''1'', ''--protocol'', ''tcp'',
                      ''--destination-port'', ''8080:8090'', ''--goto'', ''w-1-instance-x-log'']]"
proof -
  let ?ch = "NewLoggingChain ''w-1-instance-x'' False"
  let ?r = "\<lparr>Protocol = ProtocolTCP, Networks = [], Ports = [\<lparr>p_Start = 80, p_End = 80\<rparr>, \<lparr>p_Start = 8080, p_End = 8090\<rparr>],
       ICMPs = None, Log = True\<rparr>"
  have p: "protocols (Protocol ?r) = Some ''tcp''" by simp
  have sh: "show_word (80::16 word) = ''80''" "show_word (8080::16 word) @ CHR '':'' # show_word (8090::16 word) = ''8080:8090''"
    by (simp_all add: show_word_def show_nat.simps digit_char_def digits_def)
  have cmds: "map (single_rule_cmd ?ch ''tcp'') (single_rules ?r) =
      [iptables [''-w'', ''-I'', ''w-1-instance-x'', ''1'', ''--protocol'', ''tcp'',
                      ''--destination-port'', ''80'', ''--goto'', ''w-1-instance-x-log''],
       iptables [''-w'', ''-I'', ''w-1-instance-x'', ''1'', ''--protocol'', ''tcp'',
                      ''--destination-port'', ''8080:8090'', ''--goto'', ''w-1-instance-x-log'']]"
    using sh by (simp add: single_rules_def choices_def single_rule_cmd_def NewLoggingChain_def network_params_def
        port_params_def icmp_params_def)
  have ok: "is_ok (fst (PrependFilterRule quiet ?ch ?r empty_world))"
    using PrependFilterRule_commands [OF p, of quiet ?ch empty_world]
    by (simp add: single_rules_def choices_def allowsPort_def prependSingleRule_def run_cmd_def perform_def quiet_def)
  from PrependFilterRule_commands [OF p, of quiet ?ch empty_world] obtain n where
    "trace (snd (PrependFilterRule quiet ?ch ?r empty_world)) =
       trace empty_world @ map Run (take n (map (single_rule_cmd ?ch ''tcp'') (single_rules ?r)))"
    and "is_ok (fst (PrependFilterRule quiet ?ch ?r empty_world)) \<longrightarrow> n = length (single_rules ?r)" by blast
  moreover have "length (single_rules ?r) = 2" by (simp add: single_rules_def choices_def)
  ultimately show ?thesis using ok cmds by simp
qed

definition setup_cmds :: "chain \<Rightarrow> string \<Rightarrow> cmd list" where
  "setup_cmds ch logPrefix =
     [iptables [''-w'', ''-N'', logChainName ch],
      iptables ([''-w'', ''-A'', logChainName ch, ''-m'', ''conntrack'', ''--ctstate'', ''NEW,UNTRACKED,INVALID'',
                 ''--protocol'', ''tcp''] @ buildLogParams ch logPrefix),
      iptables [''-w'', ''-A'', logChainName ch, ''--jump'', ''RETURN'']]"

definition teardown_cmds :: "chain \<Rightarrow> cmd list" where
  "teardown_cmds ch = [iptables [''-w'', ''-F'', logChainName ch], iptables [''-w'', ''-X'', logChainName ch]]"

lemma Chain_TearDown_trace:
  "logChainName ch \<noteq> '''' \<Longrightarrow> \<exists>w'. Chain_TearDown out ch w = (Ok (), w') \<and> trace w' = trace w @ map Run (teardown_cmds ch)"
  by (auto simp: Chain_TearDown_def teardown_cmds_def dest!: run_cmd_trace_eq split: prod.splits)

text \<open>
  Setting up a logging chain first flushes and deletes a chain of the same name, ignoring
  failures, and then runs the three creating commands in order, stopping at the first that fails:
  the call succeeds exactly when all three do. A chain without a log chain panics, running nothing.
\<close>

theorem Chain_Setup_commands:
  "if logChainName ch = ''''
   then Chain_Setup out ch p w = (Panic ''cannot set up chains without associated log chains'', w)
   else \<exists>n\<le>3. trace (snd (Chain_Setup out ch p w)) =
          trace w @ map Run (teardown_cmds ch) @ map Run (take n (setup_cmds ch p))
        \<and> (is_ok (fst (Chain_Setup out ch p w)) \<longrightarrow> n = 3)
        \<and> (\<not> is_ok (fst (Chain_Setup out ch p w)) \<longrightarrow> n > 0
            \<and> (\<exists>e. fst (Chain_Setup out ch p w) = Err (Errorf ''iptables: log chain setup: '' e)))"
proof (cases "logChainName ch = ''''")
  case False
  from Chain_TearDown_trace [OF this, of out w] obtain w1 where
    w1: "Chain_TearDown out ch w = (Ok (), w1)" "trace w1 = trace w @ map Run (teardown_cmds ch)" by blast
  let ?r = "do_all (run_cmd out) (setup_cmds ch p) w1"
  have eq: "Chain_Setup out ch p w = wrap_error ''iptables: log chain setup: '' ?r"
    using False w1(1) by (simp add: Chain_Setup_def setup_cmds_def)
  have "length (setup_cmds ch p) = 3" by (simp add: setup_cmds_def)
  with do_all_prefix [of "run_cmd out" Run "setup_cmds ch p" w1] obtain n where
    n: "n \<le> 3" "trace (snd ?r) = trace w1 @ map Run (take n (setup_cmds ch p))"
      "is_ok (fst ?r) \<longrightarrow> n = 3" "\<not> is_ok (fst ?r) \<longrightarrow> n > 0" by auto
  have np: "fst ?r \<noteq> Panic m" for m
    by (rule do_all_no_panic) (auto simp: run_cmd_def)
  obtain x w2 where r: "?r = (x, w2)" by (cases ?r)
  show ?thesis
    using False n np w1(2) unfolding eq r by (cases x) (auto intro!: exI [of _ n])
qed (simp add: Chain_Setup_def)

theorem Chain_Setup_commands_witness:
  "trace (snd (Chain_Setup quiet (NewLoggingChain ''w--instance-a'' True) ''h'' empty_world)) =
     map Run (teardown_cmds (NewLoggingChain ''w--instance-a'' True))
     @ map Run (setup_cmds (NewLoggingChain ''w--instance-a'' True) ''h'')"
proof -
  let ?ch = "NewLoggingChain ''w--instance-a'' True"
  have l: "logChainName ?ch \<noteq> ''''" by (simp add: NewLoggingChain_def)
  have ok: "is_ok (fst (Chain_Setup quiet ?ch ''h'' empty_world))"
    using l by (simp add: Chain_Setup_def Chain_TearDown_def run_cmd_def perform_def quiet_def)
  show ?thesis
    using Chain_Setup_commands [of ?ch quiet "''h''" empty_world] l ok by (auto simp: setup_cmds_def)
qed

end
