(* ===== verification/Iptables_Mgr.thy ===== *)
theory Iptables_Mgr
  imports Sysconfig
begin

text \<open>
  The manager of a container's own chains (\<open>linux_container/iptables_manager\<close>): the filter chain,
  the NAT chain, and the manager that sets all of them up, undoing the earlier ones when one fails,
  and tears them down.
\<close>

section \<open>The chains\<close>

datatype mgr_chain = FilterChain filter_config | NATChain nat_config

text \<open>A backslash and a double quote inside the shell commands.\<close>

abbreviation bs :: string where "bs \<equiv> [CHR 0x5C]"
abbreviation dq :: string where "dq \<equiv> [CHR 0x22]"

definition sh :: "string \<Rightarrow> cmd" where
  "sh script = exec_Command ''sh'' [''-c'', script]"

definition filter_setup_cmds :: "filter_config \<Rightarrow> string \<Rightarrow> string \<Rightarrow> ip \<Rightarrow> ipnet \<Rightarrow> cmd list" where
  "filter_setup_cmds cfg containerID bridgeName ip network =
     (let instanceChain = FilterInstancePrefix cfg @ containerID in
      [exec_Command ''iptables'' [''--wait'', ''-N'', instanceChain],
       exec_Command ''iptables'' [''--wait'', ''-A'', instanceChain, ''-s'', IPNet_String network,
         ''-d'', IPNet_String network, ''-j'', ''ACCEPT''],
       exec_Command ''iptables'' [''--wait'', ''-A'', instanceChain, ''--goto'', DefaultChain cfg],
       exec_Command ''iptables'' [''--wait'', ''-I'', ForwardChain cfg, ''2'', ''--in-interface'', bridgeName,
         ''--source'', IP_String ip, ''--goto'', instanceChain]])"

definition filter_teardown_cmds :: "filter_config \<Rightarrow> string \<Rightarrow> cmd list" where
  "filter_teardown_cmds cfg containerID =
     (let instanceChain = FilterInstancePrefix cfg @ containerID in
      [sh (''iptables --wait -S '' @ ForwardChain cfg @ '' 2> /dev/null | grep '' @ dq @ bs @ ''-g '' @ instanceChain
           @ bs @ ''b'' @ dq @ '' | sed -e '' @ dq @ ''s/-A/-D/'' @ dq
           @ '' | xargs --no-run-if-empty --max-lines=1 iptables --wait''),
       sh (''iptables --wait -F '' @ instanceChain @ '' 2> /dev/null || true''),
       sh (''iptables --wait -X '' @ instanceChain @ '' 2> /dev/null || true'')])"

definition nat_setup_cmds :: "nat_config \<Rightarrow> string \<Rightarrow> ipnet \<Rightarrow> cmd list" where
  "nat_setup_cmds cfg containerID network =
     (let instanceChain = NATInstancePrefix cfg @ containerID in
      [exec_Command ''iptables'' [''--wait'', ''--table'', ''nat'', ''-N'', instanceChain],
       exec_Command ''iptables'' [''--wait'', ''--table'', ''nat'', ''-A'', PreroutingChain cfg, ''--jump'', instanceChain],
       sh (''(iptables --wait --table nat -S '' @ PostroutingChain cfg @ '' | grep '' @ dq @ bs @ ''-j MASQUERADE'' @ bs
           @ ''b'' @ dq @ '' | grep -q -F -- '' @ dq @ ''-s '' @ IPNet_String network @ dq
           @ '') || iptables --wait --table nat -A '' @ PostroutingChain cfg @ '' --source '' @ IPNet_String network
           @ '' ! --destination '' @ IPNet_String network @ '' --jump MASQUERADE'')])"

definition nat_teardown_cmds :: "nat_config \<Rightarrow> string \<Rightarrow> cmd list" where
  "nat_teardown_cmds cfg containerID =
     (let instanceChain = NATInstancePrefix cfg @ containerID in
      [sh (''iptables --wait --table nat -S '' @ PreroutingChain cfg @ '' 2> /dev/null | grep '' @ dq @ bs @ ''-j ''
           @ instanceChain @ bs @ ''b'' @ dq @ '' | sed -e '' @ dq @ ''s/-A/-D/'' @ dq
           @ '' | xargs --no-run-if-empty --max-lines=1 iptables --wait --table nat''),
       sh (''iptables --wait --table nat -F '' @ instanceChain @ '' 2> /dev/null || true''),
       sh (''iptables --wait --table nat -X '' @ instanceChain @ '' 2> /dev/null || true'')])"

text \<open>The NAT chain's \<open>Setup\<close> runs a command that failed a second time.\<close>

definition run_retry :: "outside \<Rightarrow> cmd \<Rightarrow> world \<Rightarrow> unit res \<times> world" where
  "run_retry out c w = (case run_cmd out c w of (Err e, w) \<Rightarrow> run_cmd out c w | x \<Rightarrow> x)"

fun MgrChain_Setup :: "outside \<Rightarrow> mgr_chain \<Rightarrow> string \<Rightarrow> string \<Rightarrow> ip \<Rightarrow> ipnet \<Rightarrow> world \<Rightarrow> unit res \<times> world" where
  "MgrChain_Setup out (FilterChain cfg) containerID bridgeName ip network w =
     wrap_error ''iptables_manager: filter: ''
       (do_all (run_cmd out) (filter_setup_cmds cfg containerID bridgeName ip network) w)"
| "MgrChain_Setup out (NATChain cfg) containerID bridgeName ip network w =
     wrap_error ''iptables_manager: nat: ''
       (do_all (run_retry out) (nat_setup_cmds cfg containerID network) w)"

fun MgrChain_Teardown :: "outside \<Rightarrow> mgr_chain \<Rightarrow> string \<Rightarrow> world \<Rightarrow> unit res \<times> world" where
  "MgrChain_Teardown out (FilterChain cfg) containerID w =
     wrap_error ''iptables_manager: filter: '' (do_all (run_cmd out) (filter_teardown_cmds cfg containerID) w)"
| "MgrChain_Teardown out (NATChain cfg) containerID w =
     wrap_error ''iptables_manager: nat: '' (do_all (run_cmd out) (nat_teardown_cmds cfg containerID) w)"

section \<open>The manager\<close>

definition AddChain :: "mgr_chain list \<Rightarrow> mgr_chain \<Rightarrow> mgr_chain list" where
  "AddChain chs c = chs @ [c]"

text \<open>\<open>ContainerTeardown\<close>: every chain is torn down, the last error is returned.\<close>

fun teardown_loop :: "outside \<Rightarrow> mgr_chain list \<Rightarrow> string \<Rightarrow> unit res \<Rightarrow> world \<Rightarrow> unit res \<times> world" where
  "teardown_loop out [] containerID lastErr w = (lastErr, w)"
| "teardown_loop out (c # cs) containerID lastErr w =
     (case MgrChain_Teardown out c containerID w of
        (Err e, w) \<Rightarrow> teardown_loop out cs containerID (Err e) w
      | (Panic m, w) \<Rightarrow> (Panic m, w)
      | (Ok _, w) \<Rightarrow> teardown_loop out cs containerID lastErr w)"

definition ContainerTeardown :: "outside \<Rightarrow> mgr_chain list \<Rightarrow> string \<Rightarrow> world \<Rightarrow> unit res \<times> world" where
  "ContainerTeardown out chs containerID w = teardown_loop out chs containerID (Ok ()) w"

text \<open>
  The loop of \<open>ContainerSetup\<close>: \<open>set_up\<close> holds the chains already set up, which are torn down in
  order when a later one fails.
\<close>

fun setup_loop ::
  "outside \<Rightarrow> mgr_chain list \<Rightarrow> mgr_chain list \<Rightarrow> string \<Rightarrow> string \<Rightarrow> ip \<Rightarrow> ipnet \<Rightarrow> world \<Rightarrow> unit res \<times> world" where
  "setup_loop out set_up [] containerID bridgeName ip network w = (Ok (), w)"
| "setup_loop out set_up (c # cs) containerID bridgeName ip network w =
     (case MgrChain_Setup out c containerID bridgeName ip network w of
        (Err e, w) \<Rightarrow> (Err e, fold (\<lambda>c w. snd (MgrChain_Teardown out c containerID w)) set_up w)
      | (Panic m, w) \<Rightarrow> (Panic m, w)
      | (Ok _, w) \<Rightarrow> setup_loop out (set_up @ [c]) cs containerID bridgeName ip network w)"

definition ContainerSetup ::
  "outside \<Rightarrow> mgr_chain list \<Rightarrow> string \<Rightarrow> string \<Rightarrow> ip \<Rightarrow> ipnet \<Rightarrow> world \<Rightarrow> unit res \<times> world" where
  "ContainerSetup out chs containerID bridgeName ip network w =
     then_do (ContainerTeardown out chs containerID w) (\<lambda>_ w.
       setup_loop out [] chs containerID bridgeName ip network w)"

section \<open>Properties\<close>

abbreviation teardown_all :: "outside \<Rightarrow> string \<Rightarrow> mgr_chain list \<Rightarrow> world \<Rightarrow> world" where
  "teardown_all out containerID cs w \<equiv> fold (\<lambda>c w. snd (MgrChain_Teardown out c containerID w)) cs w"

lemma wrap_error_no_panic: "fst x \<noteq> Panic m \<Longrightarrow> fst (wrap_error p x) \<noteq> Panic m"
  by (cases x; cases "fst x") auto

lemma run_cmd_no_panic: "fst (run_cmd out c w) \<noteq> Panic m"
  by (simp add: run_cmd_def)

lemma run_cmd_no_panicD: "run_cmd out c w = (Panic m, w') \<Longrightarrow> False"
  using run_cmd_no_panic [of out c w m] by simp

lemma run_retry_no_panic: "fst (run_retry out c w) \<noteq> Panic m"
  by (auto simp: run_retry_def run_cmd_no_panic split: prod.splits res.splits dest: run_cmd_no_panicD)

lemma MgrChain_no_panic:
  "fst (MgrChain_Setup out c i b a n w) \<noteq> Panic m" "fst (MgrChain_Teardown out c i w) \<noteq> Panic m"
  by (cases c; simp add: wrap_error_no_panic do_all_no_panic run_cmd_no_panic run_retry_no_panic)+

lemma teardown_loop_spec:
  "snd (teardown_loop out cs i r w) = teardown_all out i cs w
   \<and> (is_ok (fst (teardown_loop out cs i r w)) \<longleftrightarrow>
        (is_ok r \<and> (\<forall>k<length cs. is_ok (fst (MgrChain_Teardown out (cs ! k) i (teardown_all out i (take k cs) w))))))"
proof (induction cs arbitrary: r w)
  case (Cons c cs)
  obtain x w' where x: "MgrChain_Teardown out c i w = (x, w')" by (cases "MgrChain_Teardown out c i w")
  have np: "x \<noteq> Panic m" for m using MgrChain_no_panic(2) [of out c i w m] x by simp
  have "(\<forall>k<length (c # cs). is_ok (fst (MgrChain_Teardown out ((c # cs) ! k) i (teardown_all out i (take k (c # cs)) w))))
      \<longleftrightarrow> is_ok x \<and> (\<forall>k<length cs. is_ok (fst (MgrChain_Teardown out (cs ! k) i (teardown_all out i (take k cs) w'))))"
    using x by (auto simp: less_Suc_eq_0_disj All_less_Suc2)
  with Cons [of "Err e" w' for e] Cons [of r w'] x np show ?case
    by (cases x) auto
qed simp

lemma setup_loop_spec:
  assumes "setup_loop out done cs i b a n w = (r, w')"
  shows "(r = Ok () \<and> do_all (\<lambda>c. MgrChain_Setup out c i b a n) cs w = (Ok (), w'))
    \<or> (\<exists>k w0 e w1. k < length cs \<and> do_all (\<lambda>c. MgrChain_Setup out c i b a n) (take k cs) w = (Ok (), w0)
         \<and> MgrChain_Setup out (cs ! k) i b a n w0 = (Err e, w1) \<and> r = Err e
         \<and> w' = teardown_all out i (done @ take k cs) w1)"
  using assms
proof (induction cs arbitrary: "done" w)
  case (Cons c cs)
  obtain x w1 where x: "MgrChain_Setup out c i b a n w = (x, w1)" by (cases "MgrChain_Setup out c i b a n w")
  have np: "x \<noteq> Panic m" for m using MgrChain_no_panic(1) [of out c i b a n w m] x by simp
  show ?case
  proof (cases x)
    case (Ok u)
    with Cons.prems x have "setup_loop out (done @ [c]) cs i b a n w1 = (r, w')" by simp
    from Cons.IH [OF this] show ?thesis
    proof (elim disjE exE conjE)
      fix k w0 e w2 assume k: "k < length cs" "do_all (\<lambda>c. MgrChain_Setup out c i b a n) (take k cs) w1 = (Ok (), w0)"
        "MgrChain_Setup out (cs ! k) i b a n w0 = (Err e, w2)" "r = Err e"
        "w' = teardown_all out i ((done @ [c]) @ take k cs) w2"
      then show ?thesis using x Ok
        by (intro disjI2 exI [of _ "Suc k"] exI [of _ w0] exI [of _ e] exI [of _ w2]) simp
    qed (use x Ok in simp)
  next
    case (Err e)
    then show ?thesis using x Cons.prems
      by (intro disjI2 exI [of _ 0] exI [of _ w] exI [of _ e] exI [of _ w1]) simp
  qed (use np in blast)
qed simp

text \<open>
  C11. Setting up a container's chains is all or nothing for the chains before the one that fails:
  it either sets up every chain in order and succeeds, or, when the \<open>k\<close>-th one fails, tears down
  exactly the \<open>k\<close> chains set up before it and returns that error.
\<close>

theorem ContainerSetup_rollback:
  assumes "ContainerTeardown out chs i w = (Ok (), w0)"
    and "ContainerSetup out chs i b a n w = (r, w')"
  shows "(r = Ok () \<and> do_all (\<lambda>c. MgrChain_Setup out c i b a n) chs w0 = (Ok (), w'))
    \<or> (\<exists>k w1 e w2. k < length chs \<and> do_all (\<lambda>c. MgrChain_Setup out c i b a n) (take k chs) w0 = (Ok (), w1)
         \<and> MgrChain_Setup out (chs ! k) i b a n w1 = (Err e, w2) \<and> r = Err e
         \<and> w' = teardown_all out i (take k chs) w2)"
  using setup_loop_spec [of out "[]" chs i b a n w0 r w'] assms by (simp add: ContainerSetup_def)

theorem ContainerSetup_rollback_witness:
  "fst (ContainerSetup quiet [FilterChain (cfg_Filter (NewConfig ''1'' False))] ''id'' ''br'' [10, 0, 0, 2]
      \<lparr>net_IP = [10, 0, 0, 0], net_Mask = [255, 255, 255, 252]\<rparr> empty_world) = Ok ()"
proof -
  let ?chs = "[FilterChain (cfg_Filter (NewConfig ''1'' False))]"
  let ?n = "\<lparr>net_IP = [10, 0, 0, 0], net_Mask = [255, 255, 255, 252]\<rparr>"
  obtain w0 where t: "ContainerTeardown quiet ?chs ''id'' empty_world = (Ok (), w0)"
    by (simp add: ContainerTeardown_def filter_teardown_cmds_def run_cmd_def perform_def quiet_def Let_def)
  obtain r w' where s: "ContainerSetup quiet ?chs ''id'' ''br'' [10, 0, 0, 2] ?n empty_world = (r, w')"
    by (cases "ContainerSetup quiet ?chs ''id'' ''br'' [10, 0, 0, 2] ?n empty_world")
  have ok: "fst (MgrChain_Setup quiet c ''id'' ''br'' [10, 0, 0, 2] ?n w) = Ok ()" if "c \<in> set ?chs" for c w
    using that by (auto simp: filter_setup_cmds_def run_cmd_def perform_def quiet_def Let_def)
  have "r = Ok ()"
    using ContainerSetup_rollback [OF t s] ok
  proof (elim disjE exE conjE)
    fix k w1 e w2 assume "k < length ?chs" "MgrChain_Setup quiet (?chs ! k) ''id'' ''br'' [10, 0, 0, 2] ?n w1 = (Err e, w2)"
    with ok [of "?chs ! k" w1] show ?thesis by (metis fst_conv nth_mem res.distinct(1))
  qed
  with s show ?thesis by simp
qed

text \<open>
  Tearing down a container's chains never stops early: every chain is torn down, each in the
  state the previous one left, and the call succeeds exactly when all of them did.
\<close>

theorem ContainerTeardown_all:
  "snd (ContainerTeardown out chs i w) = teardown_all out i chs w
   \<and> (is_ok (fst (ContainerTeardown out chs i w)) \<longleftrightarrow>
        (\<forall>k<length chs. is_ok (fst (MgrChain_Teardown out (chs ! k) i (teardown_all out i (take k chs) w)))))"
  using teardown_loop_spec [of out chs i "Ok ()" w] by (simp add: ContainerTeardown_def)

theorem ContainerTeardown_all_witness:
  "is_ok (fst (ContainerTeardown quiet [FilterChain (cfg_Filter (NewConfig ''1'' False))] ''id'' empty_world))"
  using ContainerTeardown_all [of quiet "[FilterChain (cfg_Filter (NewConfig ''1'' False))]" "''id''" empty_world]
  by (simp add: filter_teardown_cmds_def run_cmd_def perform_def quiet_def Let_def)

end
