(* ===== verification/Cgroups.thy ===== *)
theory Cgroups
  imports World
begin

text \<open>
  The cgroups manager of a container (\<open>linux_container/cgroups_manager\<close>): where a container's
  control group lives, read from the server's own entry in \<open>/proc/self/cgroup\<close>, and the reads and
  writes of its control files. The reader keeps the file open between calls.
\<close>

section \<open>Lifting\<close>

text \<open>A call on the world from a method that also has a state of its own.\<close>

definition on_world :: "(world \<Rightarrow> 'a res \<times> world) \<Rightarrow> 's \<times> world \<Rightarrow> 'a res \<times> 's \<times> world" where
  "on_world f = (\<lambda>(s, w). let (r, w) = f w in (r, s, w))"

abbreviation newline :: char where "newline \<equiv> CHR 0x0A"

section \<open>The reader\<close>

record cgroup_reader =
  cr_Path :: string
  cr_open :: bool

definition findCgroupEntry :: "string \<Rightarrow> string \<Rightarrow> string" where
  "findCgroupEntry contents subsystem =
     (case find (\<lambda>line. str_contains line (subsystem @ '':'')) (split_on newline contents) of
        None \<Rightarrow> '''' | Some line \<Rightarrow> line)"

definition reader_open :: "outside \<Rightarrow> cgroup_reader \<times> world \<Rightarrow> unit res \<times> cgroup_reader \<times> world" where
  "reader_open out = (\<lambda>(c, w).
     if cr_open c then (Ok (), c, w)
     else case write_kernel out (OpenFile (cr_Path c)) w of
            (Ok _, w) \<Rightarrow> (Ok (), c\<lparr>cr_open := True\<rparr>, w)
          | (Err e, w) \<Rightarrow> (Err (Errorf ''cgroups_manager: opening file: '' e), c, w)
          | (Panic m, w) \<Rightarrow> (Panic m, c, w))"

definition CgroupNode :: "outside \<Rightarrow> string \<Rightarrow> cgroup_reader \<times> world \<Rightarrow> string res \<times> cgroup_reader \<times> world" where
  "CgroupNode out subsystem s =
     then_do (reader_open out s) (\<lambda>_ s. let p = cr_Path (fst s) in
     then_do (wrap_error ''cgroups_manager: seeking start of file: ''
       (on_world (write_kernel out (SeekFile p)) s)) (\<lambda>_ s.
     then_do (wrap_error ''cgroups_manager: reading file: ''
       (on_world (read_kernel out (ReadFile p) p) s)) (\<lambda>contents s.
       let line = findCgroupEntry contents subsystem in
       if line = '''' then
         (Err (ErrorNew (''cgroups_manager: requested subsystem '' @ subsystem @ '' does not exist'')), s)
       else
         let columns = split_on CHR '':'' line in
         if length columns \<noteq> 3 then (Err (ErrorNew (''cgroups_manager: cgroup file malformed: '' @ contents)), s)
         else (Ok (columns ! 2), s))))"

section \<open>The manager\<close>

record cgroups =
  cg_Path :: string
  cg_containerID :: string

text \<open>\<open>cgroups_manager.New\<close>, with the reader that \<open>ProvideContainer\<close> gives it.\<close>

definition NewCgroups :: "string \<Rightarrow> string \<Rightarrow> cgroups" where
  "NewCgroups cgroupsPath containerID = \<lparr>cg_Path = cgroupsPath, cg_containerID = containerID\<rparr>"

definition SubsystemPath :: "outside \<Rightarrow> cgroups \<Rightarrow> string \<Rightarrow> cgroup_reader \<times> world \<Rightarrow> string res \<times> cgroup_reader \<times> world" where
  "SubsystemPath out m subsystem s =
     then_do (CgroupNode out subsystem s) (\<lambda>cgroupNode s.
       (Ok (path_Join [cg_Path m, subsystem, cgroupNode, ''instance-'' @ cg_containerID m]), s))"

definition Cgroups_Set ::
  "outside \<Rightarrow> cgroups \<Rightarrow> string \<Rightarrow> string \<Rightarrow> string \<Rightarrow> cgroup_reader \<times> world \<Rightarrow> unit res \<times> cgroup_reader \<times> world" where
  "Cgroups_Set out m subsystem nm val s =
     then_do (wrap_error ''cgroups_manager: set: '' (SubsystemPath out m subsystem s)) (\<lambda>cgroupPath s.
       on_world (write_kernel out (WriteFile (path_Join [cgroupPath, nm]) val)) s)"

definition Cgroups_Get ::
  "outside \<Rightarrow> cgroups \<Rightarrow> string \<Rightarrow> string \<Rightarrow> cgroup_reader \<times> world \<Rightarrow> string res \<times> cgroup_reader \<times> world" where
  "Cgroups_Get out m subsystem nm s =
     then_do (wrap_error ''cgroups_manager: get: '' (SubsystemPath out m subsystem s)) (\<lambda>cgroupPath s.
     let p = path_Join [cgroupPath, nm] in
     then_do (on_world (read_kernel out (ReadFile p) p) s) (\<lambda>body s. (Ok (trim_newlines body), s)))"

definition cpuset_init :: "outside \<Rightarrow> cgroups \<Rightarrow> string \<Rightarrow> string \<Rightarrow> world \<Rightarrow> unit res \<times> world" where
  "cpuset_init out m subsystemPath fl w =
     (let from = path_Join [cg_Path m, ''cpuset'', fl]; to = path_Join [subsystemPath, fl] in
      then_do (wrap_error ''cgroups: initialize cpuset: '' (write_kernel out (OpenFile from) w)) (\<lambda>_ w.
      then_do (wrap_error ''cgroups: initialize cpuset: '' (write_kernel out (OpenFile to) w)) (\<lambda>_ w.
      write_kernel out (CopyFile from to) w)))"

definition Cgroups_Setup ::
  "outside \<Rightarrow> cgroups \<Rightarrow> string list \<Rightarrow> cgroup_reader \<times> world \<Rightarrow> unit res \<times> cgroup_reader \<times> world" where
  "Cgroups_Setup out m = do_all (\<lambda>subsystem s.
     then_do (SubsystemPath out m subsystem s) (\<lambda>subsystemPath s.
     then_do (on_world (write_kernel out (MkdirAll subsystemPath)) s) (\<lambda>_ s.
     if subsystem = ''cpuset''
     then on_world (do_all (cpuset_init out m subsystemPath) [''cpuset.cpus'', ''cpuset.mems'']) s
     else (Ok (), s))))"

definition Cgroups_Add ::
  "outside \<Rightarrow> cgroups \<Rightarrow> int \<Rightarrow> string list \<Rightarrow> cgroup_reader \<times> world \<Rightarrow> unit res \<times> cgroup_reader \<times> world" where
  "Cgroups_Add out m pid = do_all (\<lambda>subsystem s.
     then_do (SubsystemPath out m subsystem s) (\<lambda>subsystemPath s.
     let tasks = path_Join [subsystemPath, ''tasks''] in
     then_do (on_world (write_kernel out (OpenFile tasks)) s) (\<lambda>_ s.
     on_world (write_kernel out (AppendFile tasks (show_int pid @ [newline]))) s)))"

section \<open>Properties\<close>

lemma has_prefix_append [simp]: "has_prefix (p @ s) p"
  by (simp add: has_prefix_def)

lemma str_contains_middle: "str_contains (a @ b @ c) b"
proof (induction a)
  case Nil
  show ?case
  proof (cases "b @ c")
    case (Cons x xs)
    then show ?thesis using has_prefix_append [of b c] by simp
  qed simp
qed simp

lemma findCgroupEntry_first:
  assumes "\<forall>l\<in>set (pre @ line # post). newline \<notin> set l"
    and "\<forall>l\<in>set pre. \<not> str_contains l (subsystem @ '':'')" and "str_contains line (subsystem @ '':'')"
  shows "findCgroupEntry (join [newline] (pre @ line # post)) subsystem = line"
proof -
  have "split_on newline (join [newline] (pre @ line # post)) = pre @ line # post"
    using assms(1) by (intro split_on_join) auto
  moreover have "find (\<lambda>l. str_contains l (subsystem @ '':'')) (pre @ line # post) = Some line"
    using assms(2,3) by (induction pre) auto
  ultimately show ?thesis by (simp add: findCgroupEntry_def)
qed

lemma split_three:
  assumes "sep \<notin> set a" "sep \<notin> set b" "sep \<notin> set c"
  shows "split_on sep (a @ sep # b @ sep # c) = [a, b, c]"
  using assms by (simp add: split_on_append_sep split_on_no_sep)

text \<open>
  A process's cgroup file has one line \<open>hierarchy:subsystem:node\<close> per hierarchy.
\<close>

definition cgroup_line :: "string \<Rightarrow> string \<Rightarrow> string \<Rightarrow> string" where
  "cgroup_line hier subsystem node = hier @ '':'' @ subsystem @ '':'' @ node"

lemma CgroupNode_found:
  assumes fl: "\<And>t. o_kernel out t (cr_Path c) = join [newline] (pre @ cgroup_line hier subsystem node # post)"
    and readable: "\<And>t e. e \<in> {OpenFile (cr_Path c), SeekFile (cr_Path c), ReadFile (cr_Path c)} \<Longrightarrow> o_err out t e = None"
    and lines: "\<forall>l\<in>set (pre @ cgroup_line hier subsystem node # post). newline \<notin> set l"
    and earlier: "\<forall>l\<in>set pre. \<not> str_contains l (subsystem @ '':'')"
    and cols: "CHR '':'' \<notin> set hier \<union> set subsystem \<union> set node"
  shows "CgroupNode out subsystem (c, w) =
    (Ok node, c\<lparr>cr_open := True\<rparr>, w\<lparr>trace := trace w
        @ (if cr_open c then [] else [OpenFile (cr_Path c)]) @ [SeekFile (cr_Path c), ReadFile (cr_Path c)]\<rparr>)"
proof -
  have "str_contains (cgroup_line hier subsystem node) (subsystem @ '':'')"
    using str_contains_middle [of "hier @ '':''" "subsystem @ '':''" node] by (simp add: cgroup_line_def)
  then have entry: "findCgroupEntry (join [newline] (pre @ cgroup_line hier subsystem node # post)) subsystem
      = cgroup_line hier subsystem node"
    using findCgroupEntry_first lines earlier by blast
  have "split_on CHR '':'' (cgroup_line hier subsystem node) = [hier, subsystem, node]"
    using cols by (simp add: cgroup_line_def split_three)
  moreover have "cgroup_line hier subsystem node \<noteq> ''''" by (simp add: cgroup_line_def)
  ultimately show ?thesis
    using readable entry
    by (auto simp: CgroupNode_def reader_open_def on_world_def write_kernel_def read_kernel_def fl Let_def)
qed



end
