(* ===== verification/Bandwidth.thy ===== *)
theory Bandwidth
  imports World
begin

unbundle bit_operations_syntax

text \<open>
  The bandwidth manager of a container (\<open>linux_container/bandwidth_manager\<close>): the limits are set by
  a script of the container and read back from the output of \<open>tc\<close> by two regular expressions.
  Neither expression can backtrack: each run of digits is followed by a character that is not a
  digit, so matching piece by piece is the same as the regular expression.
\<close>

section \<open>The patterns\<close>

definition lit :: "string \<Rightarrow> string \<Rightarrow> string option" where
  "lit p s = (if has_prefix s p then Some (drop (length p) s) else None)"

definition run1 :: "(char \<Rightarrow> bool) \<Rightarrow> string \<Rightarrow> (string \<times> string) option" where
  "run1 P s = (let d = takeWhile P s in if d = [] then None else Some (d, dropWhile P s))"

definition is_hex_digit :: "char \<Rightarrow> bool" where
  "is_hex_digit c \<longleftrightarrow> digit_val 16 c \<noteq> None"

fun opt_unit :: "string \<Rightarrow> string \<times> string" where
  "opt_unit [] = ([], [])"
| "opt_unit (c # cs) = (if c \<in> set ''KMG'' then ([c], cs) else ([], c # cs))"

definition match_rate :: "string \<Rightarrow> (string \<times> string \<times> string \<times> string) option" where
  "match_rate s =
     Option.bind (lit ''rate '' s) (\<lambda>s.
     Option.bind (run1 is_digit s) (\<lambda>(rate, s). case opt_unit s of (rateUnit, s) \<Rightarrow>
     Option.bind (lit ''bit burst '' s) (\<lambda>s.
     Option.bind (run1 is_digit s) (\<lambda>(burst, s). case opt_unit s of (burstUnit, s) \<Rightarrow>
     Option.bind (lit ''b'' s) (\<lambda>_. Some (rate, rateUnit, burst, burstUnit))))))"

definition match_in :: "string \<Rightarrow> (string \<times> string \<times> string \<times> string) option" where
  "match_in s =
     Option.bind (lit ''qdisc tbf '' s) (\<lambda>s.
     Option.bind (run1 is_hex_digit s) (\<lambda>(_, s).
     Option.bind (lit '': root refcnt '' s) (\<lambda>s.
     Option.bind (run1 is_digit s) (\<lambda>(_, s).
     Option.bind (lit '' '' s) match_rate))))"

definition match_out :: "string \<Rightarrow> (string \<times> string \<times> string \<times> string) option" where
  "match_out s =
     Option.bind (lit ''police 0x'' s) (\<lambda>s.
     Option.bind (run1 is_hex_digit s) (\<lambda>(_, s).
     Option.bind (lit '' '' s) match_rate))"

text \<open>\<open>FindStringSubmatch\<close>: the leftmost position where the expression matches.\<close>

fun find_submatch :: "(string \<Rightarrow> 'a option) \<Rightarrow> string \<Rightarrow> 'a option" where
  "find_submatch m [] = m []"
| "find_submatch m (c # cs) = (case m (c # cs) of Some x \<Rightarrow> Some x | None \<Rightarrow> find_submatch m cs)"

section \<open>The manager\<close>

record bandwidth_mgr =
  bw_containerPath :: string
  bw_containerID :: string

definition NewBandwidthMgr :: "string \<Rightarrow> string \<Rightarrow> bandwidth_mgr" where
  "NewBandwidthMgr containerPath containerID = \<lparr>bw_containerPath = containerPath, bw_containerID = containerID\<rparr>"

text \<open>In Go \<open>1024 ^ 2\<close> is an exclusive or.\<close>

definition convertUnits :: "uint64 \<Rightarrow> string \<Rightarrow> uint64" where
  "convertUnits num unit =
     (if unit = ''K'' then num * 1024
      else if unit = ''M'' then num * (1024 XOR 2)
      else if unit = ''G'' then num * (1024 XOR 3)
      else num)"

definition set_rate_cmd :: "bandwidth_mgr \<Rightarrow> bandwidth_limits \<Rightarrow> cmd" where
  "set_rate_cmd m limits =
     (exec_Command (path_Join [bw_containerPath m, ''net_rate.sh'']) [])
       \<lparr>cmd_env := [''BURST='' @ show_word (bl_BurstRateInBytesPerSecond limits),
                    ''RATE='' @ show_word (bl_RateInBytesPerSecond limits * 8)]\<rparr>"

definition Bandwidth_SetLimits :: "outside \<Rightarrow> bandwidth_mgr \<Rightarrow> bandwidth_limits \<Rightarrow> world \<Rightarrow> unit res \<times> world" where
  "Bandwidth_SetLimits out m limits = run_cmd out (set_rate_cmd m limits)"

definition info_cmd :: "bandwidth_mgr \<Rightarrow> string \<Rightarrow> cmd" where
  "info_cmd m verb =
     (exec_Command (path_Join [bw_containerPath m, ''net.sh'']) [verb])\<lparr>cmd_env := [''ID='' @ bw_containerID m]\<rparr>"

text \<open>
  The two numbers of a match; \<open>strconv.ParseUint(_, 10, 0)\<close> fails on a number of more than 64 bits.
\<close>

definition parse_uint64 :: "string \<Rightarrow> uint64 res" where
  "parse_uint64 s =
     (case parse_uint 64 s of
        None \<Rightarrow> Err (External (''strconv.ParseUint: parsing '' @ s))
      | Some n \<Rightarrow> Ok (of_nat n))"

definition rate_burst :: "(string \<times> string \<times> string \<times> string) option \<Rightarrow> (uint64 \<times> uint64) option res" where
  "rate_burst matches =
     (case matches of
        None \<Rightarrow> Ok None
      | Some (rate, rateUnit, burst, burstUnit) \<Rightarrow>
          res_bind (parse_uint64 rate) (\<lambda>r. res_bind (parse_uint64 burst) (\<lambda>b.
            Ok (Some (convertUnits r rateUnit div 8, convertUnits b burstUnit)))))"

definition Bandwidth_GetLimits :: "outside \<Rightarrow> bandwidth_mgr \<Rightarrow> world \<Rightarrow> bandwidth_stat res \<times> world" where
  "Bandwidth_GetLimits out m w =
     (let limits = \<lparr>bs_InRate = 0, bs_InBurst = 0, bs_OutRate = 0, bs_OutBurst = 0\<rparr>;
          egress = info_cmd m ''get_egress_info''; egressOut = o_stdout out (trace w) egress in
      then_do (run_cmd out egress w) (\<lambda>_ w.
      then_do (rate_burst (find_submatch match_in egressOut), w) (\<lambda>inp w.
      let limits = (case inp of None \<Rightarrow> limits | Some (r, b) \<Rightarrow> limits\<lparr>bs_InRate := r, bs_InBurst := b\<rparr>);
          ingress = info_cmd m ''get_ingress_info''; ingressOut = o_stdout out (trace w) ingress in
      then_do (run_cmd out ingress w) (\<lambda>_ w.
      then_do (rate_burst (find_submatch match_out ingressOut), w) (\<lambda>outp w.
      (Ok (case outp of None \<Rightarrow> limits | Some (r, b) \<Rightarrow> limits\<lparr>bs_OutRate := r, bs_OutBurst := b\<rparr>), w))))))"

section \<open>Properties\<close>

lemma lit_append [simp]: "lit p (p @ s) = Some s"
  by (simp add: lit_def has_prefix_def)

lemma run1_append:
  assumes "d \<noteq> []" and "\<forall>c\<in>set d. P c" and "\<not> P c"
  shows "run1 P (d @ c # s) = Some (d, c # s)"
proof -
  have "takeWhile P (d @ c # s) = d" using assms(2,3) by (simp add: takeWhile_append2)
  moreover have "dropWhile P (d @ c # s) = c # s" using assms(2,3) by (simp add: dropWhile_append3)
  ultimately show ?thesis using assms(1) by (simp add: run1_def)
qed

definition tc_unit :: "string \<Rightarrow> bool" where
  "tc_unit u \<longleftrightarrow> u \<in> {'''', ''K'', ''M'', ''G''}"

lemma run1_show_nat:
  assumes "tc_unit u" and "\<not> is_digit c"
  shows "run1 is_digit (show_nat n @ u @ c # s) = Some (show_nat n, u @ c # s)"
proof -
  have "\<not> is_digit CHR ''K'' \<and> \<not> is_digit CHR ''M'' \<and> \<not> is_digit CHR ''G''"
    by (simp add: is_digit_cases)
  then show ?thesis
    using assms show_nat_digits [of n] unfolding tc_unit_def by (auto intro!: run1_append)
qed

lemma opt_unit_append: "tc_unit u \<Longrightarrow> c \<notin> set ''KMG'' \<Longrightarrow> opt_unit (u @ c # s) = (u, c # s)"
  by (auto simp: tc_unit_def)

text \<open>The part of a line of \<open>tc\<close>'s output that both patterns end with.\<close>

definition tc_rate :: "nat \<Rightarrow> string \<Rightarrow> nat \<Rightarrow> string \<Rightarrow> string \<Rightarrow> string" where
  "tc_rate r u b u' rest = ''rate '' @ show_nat r @ u @ ''bit burst '' @ show_nat b @ u' @ ''b'' @ rest"

lemma match_rate_line:
  assumes "tc_unit u" and "tc_unit u'"
  shows "match_rate (tc_rate r u b u' rest) = Some (show_nat r, u, show_nat b, u')"
proof -
  have nb: "\<not> is_digit CHR ''b''" by (simp add: is_digit_cases)
  let ?b = "show_nat b @ u' @ ''b'' @ rest"
  have 1: "run1 is_digit (show_nat r @ u @ ''bit burst '' @ ?b) = Some (show_nat r, u @ ''bit burst '' @ ?b)"
    using run1_show_nat [OF assms(1) nb, of r "''it burst '' @ ?b"] by simp
  have 2: "opt_unit (u @ ''bit burst '' @ ?b) = (u, ''bit burst '' @ ?b)"
    using opt_unit_append [OF assms(1), of "CHR ''b''" "''it burst '' @ ?b"] by simp
  have 3: "run1 is_digit ?b = Some (show_nat b, u' @ ''b'' @ rest)"
    using run1_show_nat [OF assms(2) nb, of b rest] by simp
  have 4: "opt_unit (u' @ ''b'' @ rest) = (u', ''b'' @ rest)"
    using opt_unit_append [OF assms(2), of "CHR ''b''" rest] by simp
  show ?thesis
    unfolding match_rate_def tc_rate_def
    by (simp only: lit_append bind.bind_lunit 1 2 3 4 prod.case)
qed

definition tc_egress :: "string \<Rightarrow> nat \<Rightarrow> string \<Rightarrow> string" where
  "tc_egress handle refcnt rate = ''qdisc tbf '' @ handle @ '': root refcnt '' @ show_nat refcnt @ '' '' @ rate"

definition tc_ingress :: "string \<Rightarrow> string \<Rightarrow> string" where
  "tc_ingress handle rate = ''police 0x'' @ handle @ '' '' @ rate"

definition hex_handle :: "string \<Rightarrow> bool" where
  "hex_handle h \<longleftrightarrow> h \<noteq> '''' \<and> (\<forall>c\<in>set h. is_hex_digit c)"

lemma run1_handle: "hex_handle h \<Longrightarrow> \<not> is_hex_digit c \<Longrightarrow> run1 is_hex_digit (h @ c # s) = Some (h, c # s)"
  by (auto simp: hex_handle_def intro!: run1_append)

lemma match_in_line:
  assumes "hex_handle h"
  shows "match_in (tc_egress h k rate) = match_rate rate"
proof -
  have "\<not> is_hex_digit CHR '':''" by (simp add: is_hex_digit_def digit_val_def digits_def)
  then have 1: "run1 is_hex_digit (h @ '': root refcnt '' @ show_nat k @ '' '' @ rate)
      = Some (h, '': root refcnt '' @ show_nat k @ '' '' @ rate)"
    using run1_handle [OF assms] by simp
  have "\<not> is_digit CHR '' ''" by (simp add: is_digit_cases)
  then have 2: "run1 is_digit (show_nat k @ '' '' @ rate) = Some (show_nat k, '' '' @ rate)"
    using run1_show_nat [of "''''" "CHR '' ''" k rate] by (simp add: tc_unit_def)
  show ?thesis
    unfolding match_in_def tc_egress_def by (simp only: lit_append bind.bind_lunit 1 2 prod.case)
qed

lemma match_out_line:
  assumes "hex_handle h"
  shows "match_out (tc_ingress h rate) = match_rate rate"
proof -
  have "\<not> is_hex_digit CHR '' ''" by (simp add: is_hex_digit_def digit_val_def digits_def)
  then have 1: "run1 is_hex_digit (h @ '' '' @ rate) = Some (h, '' '' @ rate)"
    using run1_handle [OF assms] by simp
  show ?thesis
    unfolding match_out_def tc_ingress_def by (simp only: lit_append bind.bind_lunit 1 prod.case)
qed

lemma find_submatch_here: "m s = Some x \<Longrightarrow> find_submatch m s = Some x"
  by (cases s) auto

lemma rate_burst_line:
  assumes "tc_unit u" "tc_unit u'" "r < 2 ^ 64" "b < 2 ^ 64"
  shows "rate_burst (Some (show_nat r, u, show_nat b, u')) =
    Ok (Some (convertUnits (of_nat r) u div 8, convertUnits (of_nat b) u'))"
  using assms by (simp add: rate_burst_def parse_uint64_def)

text \<open>
  The limits read back are the ones \<open>tc\<close> prints: when both commands succeed and print a rate
  and a burst for each direction, the four numbers are parsed from the right places, converted by
  their units, and the rates are turned from bits into bytes. The world has run exactly the two
  commands.
\<close>

theorem Bandwidth_GetLimits_parses:
  fixes rin bin rout bout :: nat
  assumes "o_err out (trace w) (Run eg) = None" and "o_err out (trace w @ [Run eg]) (Run ing) = None"
    and "eg = info_cmd m ''get_egress_info''" and "ing = info_cmd m ''get_ingress_info''"
    and "o_stdout out (trace w) eg = tc_egress h k (tc_rate rin u1 bin u2 rest)"
    and "o_stdout out (trace w @ [Run eg]) ing = tc_ingress h' (tc_rate rout u3 bout u4 rest')"
    and "hex_handle h" and "hex_handle h'" and "tc_unit u1" "tc_unit u2" "tc_unit u3" "tc_unit u4"
    and "rin < 2 ^ 64" "bin < 2 ^ 64" "rout < 2 ^ 64" "bout < 2 ^ 64"
  shows "fst (Bandwidth_GetLimits out m w) =
      Ok \<lparr>bs_InRate = convertUnits (of_nat rin) u1 div 8, bs_InBurst = convertUnits (of_nat bin) u2,
          bs_OutRate = convertUnits (of_nat rout) u3 div 8, bs_OutBurst = convertUnits (of_nat bout) u4\<rparr>
    \<and> trace (snd (Bandwidth_GetLimits out m w)) = trace w @ [Run eg, Run ing]"
proof -
  have m1: "find_submatch match_in (tc_egress h k (tc_rate rin u1 bin u2 rest))
      = Some (show_nat rin, u1, show_nat bin, u2)"
    using assms by (intro find_submatch_here) (simp add: match_in_line match_rate_line)
  have m2: "find_submatch match_out (tc_ingress h' (tc_rate rout u3 bout u4 rest'))
      = Some (show_nat rout, u3, show_nat bout, u4)"
    using assms by (intro find_submatch_here) (simp add: match_out_line match_rate_line)
  obtain w1 where w1: "run_cmd out eg w = (Ok (), w1)" "trace w1 = trace w @ [Run eg]"
    using assms(1) by (cases rule: run_cmd_cases [of out eg w]) auto
  obtain w2 where w2: "run_cmd out ing w1 = (Ok (), w2)" "trace w2 = trace w1 @ [Run ing]"
    using assms(2) w1(2) by (cases rule: run_cmd_cases [of out ing w1]) auto
  show ?thesis
    using w1 w2 assms(5-) m1 m2
    by (simp add: Bandwidth_GetLimits_def Let_def rate_burst_line assms(3,4) [symmetric])
qed

theorem Bandwidth_GetLimits_parses_witness:
  "\<exists>out. fst (Bandwidth_GetLimits out (NewBandwidthMgr ''/depot/c1'' ''c1'') empty_world) =
     Ok \<lparr>bs_InRate = 1026, bs_InBurst = 2048, bs_OutRate = 128, bs_OutBurst = 5\<rparr>"
proof -
  let ?m = "NewBandwidthMgr ''/depot/c1'' ''c1''"
  let ?eg = "info_cmd ?m ''get_egress_info''" and ?in = "info_cmd ?m ''get_ingress_info''"
  let ?out = "quiet\<lparr>o_stdout := \<lambda>_ c. if c = ?eg then tc_egress ''8002'' 2 (tc_rate 8 ''M'' 2 ''K'' ''yte'')
                                   else tc_ingress ''1'' (tc_rate 1 ''K'' 5 '''' ''yte'')\<rparr>"
  have ne: "?in \<noteq> ?eg" by (simp add: info_cmd_def exec_Command_def)
  have h: "hex_handle ''8002'' \<and> hex_handle ''1''"
    by (simp add: hex_handle_def is_hex_digit_def digit_val_def digits_def)
  have "fst (Bandwidth_GetLimits ?out ?m empty_world) =
      Ok \<lparr>bs_InRate = convertUnits (of_nat 8) ''M'' div 8, bs_InBurst = convertUnits (of_nat 2) ''K'',
          bs_OutRate = convertUnits (of_nat 1) ''K'' div 8, bs_OutBurst = convertUnits (of_nat 5) ''''\<rparr>"
    by (rule Bandwidth_GetLimits_parses [where eg = ?eg and ing = ?in and h = "''8002''" and h' = "''1''"
          and k = 2 and rest = "''yte''" and rest' = "''yte''", THEN conjunct1])
      (use ne h in \<open>simp_all add: quiet_def tc_unit_def\<close>)
  then show ?thesis by (intro exI [of _ ?out]) (simp add: convertUnits_def)
qed



end
