(* ===== verification/Process_Tracker.thy ===== *)
theory Process_Tracker
  imports Process_Env
begin

text \<open>
  The processes of a container as the server sees them (\<open>process_tracker\<close> and its \<open>writer\<close>
  package, with the client side of \<open>iodaemon/link\<close>): spawning through the I/O daemon, linking to
  its socket, signalling, and the table of live processes. A call that waits on a channel is \<open>None\<close>
  in the states where the channel is not ready: it returns in no other way. The goroutines that
  link to a process and unregister it are the steps of \<open>tracker_step\<close>.
\<close>

section \<open>Writers\<close>

text \<open>\<open>fanIn\<close>: the standard input of a process; it has a sink once the link is up.\<close>

record fan_in =
  fi_w :: "string option"
  fi_closed :: bool

definition NewFanIn :: fan_in where
  "NewFanIn = \<lparr>fi_w = None, fi_closed = False\<rparr>"

definition FanIn_Write :: "outside \<Rightarrow> string \<Rightarrow> fan_in \<Rightarrow> world \<Rightarrow> (unit res \<times> world) option" where
  "FanIn_Write out data fw w =
     (case fi_w fw of
        None \<Rightarrow> None
      | Some sock \<Rightarrow>
          Some (if fi_closed fw then (Err (ErrorNew ''write after close''), w)
                else write_kernel out (LinkSend sock (StdinData data)) w))"

definition FanIn_Close :: "outside \<Rightarrow> fan_in \<Rightarrow> world \<Rightarrow> (unit res \<times> fan_in \<times> world) option" where
  "FanIn_Close out fw w =
     (case fi_w fw of
        None \<Rightarrow> None
      | Some sock \<Rightarrow>
          Some (if fi_closed fw then (Err (ErrorNew ''already closed''), fw, w)
                else let (r, w) = write_kernel out (LinkSend sock EOF) w in (r, fw\<lparr>fi_closed := True\<rparr>, w)))"

definition FanIn_AddSink :: "string \<Rightarrow> fan_in \<Rightarrow> fan_in res" where
  "FanIn_AddSink sink fw =
     (if fi_w fw \<noteq> None then Panic ''close of closed channel'' else Ok (fw\<lparr>fi_w := Some sink\<rparr>))"

text \<open>
  The goroutine of \<open>AddSource\<close>: it copies what the source yields, a list of chunks that ends
  with the end of the stream or with a read error, and closes the sink after a copy without error.
\<close>

fun copy_chunks :: "outside \<Rightarrow> fan_in \<Rightarrow> string list \<Rightarrow> world \<Rightarrow> (unit res \<times> world) option" where
  "copy_chunks out fw [] w = Some (Ok (), w)"
| "copy_chunks out fw (c # cs) w =
     (case FanIn_Write out c fw w of
        None \<Rightarrow> None
      | Some (Ok _, w) \<Rightarrow> copy_chunks out fw cs w
      | Some (r, w) \<Rightarrow> Some (r, w))"

definition FanIn_AddSource ::
  "outside \<Rightarrow> string list \<Rightarrow> error option \<Rightarrow> fan_in \<Rightarrow> world \<Rightarrow> (fan_in \<times> world) option" where
  "FanIn_AddSource out chunks readErr fw w =
     (case copy_chunks out fw chunks w of
        None \<Rightarrow> None
      | Some (Ok _, w) \<Rightarrow>
          (if readErr \<noteq> None then Some (fw, w) else map_option snd (FanIn_Close out fw w))
      | Some (_, w) \<Rightarrow> Some (fw, w))"

text \<open>\<open>fanOut\<close>: a list of sinks, each of which gets every write; their errors are ignored.\<close>

type_synonym fan_out = "string list"

definition FanOut_AddSink :: "string \<Rightarrow> fan_out \<Rightarrow> fan_out" where
  "FanOut_AddSink sink sinks = sinks @ [sink]"

fun FanOut_Write :: "outside \<Rightarrow> string \<Rightarrow> fan_out \<Rightarrow> world \<Rightarrow> nat res \<times> world" where
  "FanOut_Write out data [] w = (Ok (length data), w)"
| "FanOut_Write out data (s # ss) w = FanOut_Write out data ss (snd (write_kernel out (SinkWrite s data) w))"

section \<open>Signallers\<close>

abbreviation quote :: char where "quote \<equiv> CHR 0x27"

datatype signaller = NamespacedSignaller string nat | LinkSignaller

text \<open>
  \<open>fmt.Sprintf("%d.pid", s)\<close> of a string: the verb does not fit the argument, and \<open>fmt\<close> prints the
  mismatch.
\<close>

definition sprintf_d_string :: "string \<Rightarrow> string" where
  "sprintf_d_string s = ''%!d(string='' @ s @ '')''"

definition signal_pidfile :: "string \<Rightarrow> string \<Rightarrow> string" where
  "signal_pidfile containerPath pid = path_Join [containerPath, ''processes'', sprintf_d_string pid @ ''.pid'']"

text \<open>The loops of \<open>openPIDFile\<close> and \<open>readPIDFile\<close>, \<open>n\<close> being \<open>timeout / 100ms\<close>.\<close>

fun openPIDFile :: "outside \<Rightarrow> string \<Rightarrow> nat \<Rightarrow> error option \<Rightarrow> world \<Rightarrow> unit res \<times> world" where
  "openPIDFile out p 0 err w =
     (Err (case err of None \<Rightarrow> ErrorNew (''linux_backend: can'' @ [quote] @ ''t open PID file: %!s(<nil>)'')
                     | Some e \<Rightarrow> Errorf (''linux_backend: can'' @ [quote] @ ''t open PID file: '') e), w)"
| "openPIDFile out p (Suc n) err w =
     (case write_kernel out (OpenFile p) w of
        (Err e, w) \<Rightarrow> openPIDFile out p n (Some e) w
      | r \<Rightarrow> r)"

definition pid_buffer :: "string \<Rightarrow> string" where
  "pid_buffer content = take 32 content @ replicate (32 - length content) CHR 0x00"

fun readPIDFile :: "outside \<Rightarrow> string \<Rightarrow> nat \<Rightarrow> world \<Rightarrow> string res \<times> world" where
  "readPIDFile out p 0 w = (Err (ErrorNew (''linux_backend: can'' @ [quote] @ ''t read PID file: is empty or non existent'')), w)"
| "readPIDFile out p (Suc n) w =
     (case read_kernel out (ReadFile p) p w of
        (Ok content, w) \<Rightarrow>
          (if content = '''' then readPIDFile out p n (snd (write_kernel out (SeekFile p) w))
           else (Ok (pid_buffer content), w))
      | (_, w) \<Rightarrow> readPIDFile out p n (snd (write_kernel out (SeekFile p) w)))"

definition PidFromFile :: "outside \<Rightarrow> string \<Rightarrow> nat \<Rightarrow> world \<Rightarrow> int res \<times> world" where
  "PidFromFile out p n w =
     then_do (openPIDFile out p n None w) (\<lambda>_ w.
     then_do (readPIDFile out p n w) (\<lambda>content w.
       case sscanf_int content of
         None \<Rightarrow> (Err (Errorf (''linux_backend: can'' @ [quote] @ ''t parse PID file content: '') (External ''expected integer'')), w)
       | Some pid \<Rightarrow> (Ok pid, w)))"

definition kill_cmd :: "string \<Rightarrow> int \<Rightarrow> int \<Rightarrow> cmd" where
  "kill_cmd containerPath sig pid =
     exec_Command (path_Join [containerPath, ''bin/wsh''])
       [''--socket'', path_Join [containerPath, ''run/wshd.sock''], ''--user'', ''root'',
        ''kill'', ''-'' @ show_int sig, show_int pid]"

definition Namespaced_Signal :: "outside \<Rightarrow> string \<Rightarrow> nat \<Rightarrow> string \<Rightarrow> int \<Rightarrow> world \<Rightarrow> unit res \<times> world" where
  "Namespaced_Signal out containerPath n pid sig w =
     then_do (PidFromFile out (signal_pidfile containerPath pid) n w) (\<lambda>p w.
       run_cmd out (kill_cmd containerPath sig p) w)"

definition signal_json :: "int \<Rightarrow> string" where
  "signal_json sig = ''{'' @ [CHR 0x22] @ ''signal'' @ [CHR 0x22] @ '':'' @ show_int sig @ ''}''"

definition Link_Signal :: "outside \<Rightarrow> string \<Rightarrow> int \<Rightarrow> world \<Rightarrow> unit res \<times> world" where
  "Link_Signal out sock sig = write_kernel out (LinkSend sock (Msg (signal_json sig)))"

section \<open>A process\<close>

record process_io =
  pio_Stdin :: "(string list \<times> error option) option"
  pio_Stdout :: "string option"
  pio_Stderr :: "string option"

record tty_spec =
  tty_WindowSize :: "(int \<times> int) option"

text \<open>
  \<open>pr_linking\<close> says that \<open>runningLink\<close> has been used, \<open>pr_linked\<close> that the channel \<open>linked\<close> is
  closed, and \<open>pr_exited\<close> that \<open>exited\<close> is closed, with the status and error it publishes.
  \<open>pr_sources\<close> are the standard inputs attached, whose copying waits for the sink.
\<close>

record process =
  pr_id :: string
  pr_containerPath :: string
  pr_linking :: bool
  pr_linked :: bool
  pr_exited :: "(int \<times> error option) option"
  pr_stdin :: fan_in
  pr_sources :: "(string list \<times> error option) list"
  pr_stdout :: fan_out
  pr_stderr :: fan_out
  pr_signaller :: signaller

definition NewProcess :: "string \<Rightarrow> string \<Rightarrow> signaller \<Rightarrow> process" where
  "NewProcess i containerPath sg =
     \<lparr>pr_id = i, pr_containerPath = containerPath, pr_linking = False, pr_linked = False, pr_exited = None,
      pr_stdin = NewFanIn, pr_sources = [], pr_stdout = [], pr_stderr = [], pr_signaller = sg\<rparr>"

definition process_sock :: "process \<Rightarrow> string" where
  "process_sock p = path_Join [pr_containerPath p, ''processes'', pr_id p @ ''.sock'']"

text \<open>\<open>Wait\<close>: blocks until the process has exited.\<close>

definition Process_Wait :: "process \<Rightarrow> (int \<times> error option) option" where
  "Process_Wait p = pr_exited p"

definition Process_SetTTY :: "outside \<Rightarrow> tty_spec \<Rightarrow> process \<Rightarrow> world \<Rightarrow> (unit res \<times> world) option" where
  "Process_SetTTY out tty p w =
     (if pr_linked p then
        Some (case tty_WindowSize tty of
                None \<Rightarrow> (Ok (), w)
              | Some (cols, rows) \<Rightarrow> write_kernel out (LinkSend (process_sock p) (WindowSize cols rows)) w)
      else None)"

datatype garden_signal = SignalTerminate | SignalKill | SignalOther int

fun syscall_signal :: "garden_signal \<Rightarrow> int option" where
  "syscall_signal SignalKill = Some 9"
| "syscall_signal SignalTerminate = Some 15"
| "syscall_signal (SignalOther _) = None"

definition Process_Signal :: "outside \<Rightarrow> garden_signal \<Rightarrow> process \<Rightarrow> world \<Rightarrow> (unit res \<times> world) option" where
  "Process_Signal out sig p w =
     (if pr_linked p then
        Some (case syscall_signal sig of
                None \<Rightarrow>
                  (Err (ErrorNew (''process_tracker: failed to send signal: unknown signal: ''
                     @ (case sig of SignalOther n \<Rightarrow> show_int n | _ \<Rightarrow> ''''))), w)
              | Some s \<Rightarrow>
                  (case pr_signaller p of
                     NamespacedSignaller containerPath n \<Rightarrow> Namespaced_Signal out containerPath n (pr_id p) s w
                   | LinkSignaller \<Rightarrow> Link_Signal out (process_sock p) s w))
      else None)"

definition Process_Attach :: "process_io \<Rightarrow> process \<Rightarrow> process" where
  "Process_Attach io p =
     p\<lparr>pr_sources := pr_sources p @ (case pio_Stdin io of None \<Rightarrow> [] | Some s \<Rightarrow> [s]),
       pr_stdout := (case pio_Stdout io of None \<Rightarrow> pr_stdout p | Some s \<Rightarrow> FanOut_AddSink s (pr_stdout p)),
       pr_stderr := (case pio_Stderr io of None \<Rightarrow> pr_stderr p | Some s \<Rightarrow> FanOut_AddSink s (pr_stderr p))\<rparr>"

text \<open>
  \<open>Spawn\<close>: the command line, then what arrives on the channels \<open>ready\<close> and \<open>active\<close>. \<open>cmd.Args\<close>
  starts with the path of the command.
\<close>

definition spawn_cmd :: "process \<Rightarrow> cmd \<Rightarrow> tty_spec option \<Rightarrow> cmd" where
  "spawn_cmd p c tty =
     (let spawnPath = path_Join [pr_containerPath p, ''bin'', ''iodaemon''] in
      (exec_Command ''bash''
         ([''-c'', spawnPath @ '' '' @ [CHR 0x22] @ ''$@'' @ [CHR 0x22] @ '' &'', spawnPath]
          @ (case tty of
               None \<Rightarrow> []
             | Some t \<Rightarrow>
                 ''-tty'' # (case tty_WindowSize t of
                               None \<Rightarrow> []
                             | Some (cols, rows) \<Rightarrow> [''-windowColumns='' @ show_int cols, ''-windowRows='' @ show_int rows]))
          @ [''spawn'', process_sock p] @ cmd_path c # cmd_args c))\<lparr>cmd_env := cmd_env c\<rparr>)"

definition Spawn_ready :: "outside \<Rightarrow> cmd \<Rightarrow> world \<Rightarrow> unit res \<times> world" where
  "Spawn_ready out spawn w =
     then_do (write_kernel out OpenPipe w) (\<lambda>_ w.
     then_do (perform out (Start spawn) w) (\<lambda>_ w.
     wrap_error ''failed to read ready: '' (write_kernel out (ReadLine spawn) w)))"

definition Spawn_active :: "outside \<Rightarrow> cmd \<Rightarrow> world \<Rightarrow> unit res \<times> world" where
  "Spawn_active out spawn w =
     then_do (wrap_error ''failed to read active: '' (write_kernel out (ReadLine spawn) w)) (\<lambda>_ w.
       (Ok (), snd (write_kernel out (Wait spawn) w)))"

definition Process_completed :: "int \<Rightarrow> error option \<Rightarrow> process \<Rightarrow> process res" where
  "Process_completed exitStatus err p =
     (if pr_exited p \<noteq> None then Panic ''close of closed channel''
      else Ok (p\<lparr>pr_exited := Some (exitStatus, err)\<rparr>))"

text \<open>
  \<open>runLinker\<close> in two parts, since it waits for the process in between: connecting, and what
  follows the end of the process. \<open>Link\<close> runs it at most once.
\<close>

definition runLinker_connect :: "outside \<Rightarrow> process \<times> world \<Rightarrow> process res \<times> world" where
  "runLinker_connect out = (\<lambda>(p, w).
     case write_kernel out (LinkCreate (process_sock p)) w of
       (Err e, w) \<Rightarrow> (Process_completed (-1) (Some e) p, w)
     | (Panic m, w) \<Rightarrow> (Panic m, w)
     | (Ok _, w) \<Rightarrow>
         (res_bind (FanIn_AddSink (process_sock p) (pr_stdin p)) (\<lambda>fi.
            if pr_linked p then Panic ''close of closed channel''
            else Ok (p\<lparr>pr_stdin := fi, pr_linked := True\<rparr>)), w))"

text \<open>\<open>link.Wait\<close> reads the exit status that the I/O daemon wrote.\<close>

definition Link_Wait :: "outside \<Rightarrow> string \<Rightarrow> world \<Rightarrow> (int \<times> error option) \<times> world" where
  "Link_Wait out sock w =
     (case read_kernel out (LinkWait sock) sock w of
        (Ok s, w) \<Rightarrow>
          (case sscanf_int s of
             Some i \<Rightarrow> ((i, None), w)
           | None \<Rightarrow> ((-1, Some (Errorf ''could not determine exit status: '' (External ''expected integer''))), w))
      | (Err e, w) \<Rightarrow> ((-1, Some (Errorf ''could not determine exit status: '' e)), w)
      | (Panic m, w) \<Rightarrow> ((-1, None), w))"

definition runLinker_exit :: "outside \<Rightarrow> process \<times> world \<Rightarrow> process res \<times> world" where
  "runLinker_exit out = (\<lambda>(p, w).
     let ((status, err), w) = Link_Wait out (process_sock p) w in
     then_do (Process_completed status err p, w) (\<lambda>p w.
       case FanIn_Close out (pr_stdin p) w of
         None \<Rightarrow> (Ok p, w)
       | Some (_, fi, w) \<Rightarrow> (Ok (p\<lparr>pr_stdin := fi\<rparr>), w)))"

definition Process_Link :: "outside \<Rightarrow> process \<times> world \<Rightarrow> process res \<times> world" where
  "Process_Link out = (\<lambda>(p, w).
     if pr_linking p then (Ok p, w)
     else then_do (runLinker_connect out (p\<lparr>pr_linking := True\<rparr>, w)) (\<lambda>p w.
            if pr_linked p then runLinker_exit out (p, w) else (Ok p, w)))"

section \<open>The tracker\<close>

text \<open>\<open>tr_links\<close> are the goroutines \<open>link(id)\<close> that have been started and not yet ended.\<close>

record tracker =
  tr_containerPath :: string
  tr_processes :: "(string \<times> process) list"
  tr_links :: "string list"

definition NewTracker :: "string \<Rightarrow> tracker" where
  "NewTracker containerPath = \<lparr>tr_containerPath = containerPath, tr_processes = [], tr_links = []\<rparr>"

definition put_process :: "string \<Rightarrow> process \<Rightarrow> tracker \<Rightarrow> tracker" where
  "put_process i p t = t\<lparr>tr_processes := AList.update i p (tr_processes t)\<rparr>"

definition go_link :: "string \<Rightarrow> tracker \<Rightarrow> tracker" where
  "go_link i t = t\<lparr>tr_links := tr_links t @ [i]\<rparr>"

definition Tracker_Run ::
  "outside \<Rightarrow> string \<Rightarrow> cmd \<Rightarrow> process_io \<Rightarrow> tty_spec option \<Rightarrow> signaller \<Rightarrow> tracker \<times> world \<Rightarrow> string res \<times> tracker \<times> world" where
  "Tracker_Run out processID c io tty sg = (\<lambda>(t, w).
     let p = NewProcess processID (tr_containerPath t) sg;
         t = put_process processID p t;
         spawn = spawn_cmd p c tty in
     case Spawn_ready out spawn w of
       (Err e, w) \<Rightarrow> (Err e, t, w)
     | (Panic m, w) \<Rightarrow> (Panic m, t, w)
     | (Ok _, w) \<Rightarrow>
         (let t = go_link processID (put_process processID (Process_Attach io p) t) in
          case Spawn_active out spawn w of
            (Ok _, w) \<Rightarrow> (Ok processID, t, w)
          | (Err e, w) \<Rightarrow> (Err e, t, w)
          | (Panic m, w) \<Rightarrow> (Panic m, t, w)))"

definition Tracker_Attach :: "string \<Rightarrow> process_io \<Rightarrow> tracker \<Rightarrow> string res \<times> tracker" where
  "Tracker_Attach processID io t =
     (case map_of (tr_processes t) processID of
        None \<Rightarrow> (Err (ErrorNew (''process_tracker: unknown process: '' @ processID)), t)
      | Some p \<Rightarrow> (Ok processID, go_link processID (put_process processID (Process_Attach io p) t)))"

definition Tracker_Restore :: "string \<Rightarrow> signaller \<Rightarrow> tracker \<Rightarrow> tracker" where
  "Tracker_Restore processID sg t =
     go_link processID (put_process processID (NewProcess processID (tr_containerPath t) sg) t)"

definition ActiveProcesses :: "tracker \<Rightarrow> string list" where
  "ActiveProcesses t = map fst (tr_processes t)"

definition unregister :: "string \<Rightarrow> tracker \<Rightarrow> tracker" where
  "unregister processID t = t\<lparr>tr_processes := AList.delete processID (tr_processes t)\<rparr>"

text \<open>
  The goroutine \<open>link(id)\<close>, step by step: it ends at once when the process is gone; it connects;
  it sees the process end (or failed to connect) and unregisters it.
\<close>

definition end_link :: "string \<Rightarrow> tracker \<Rightarrow> tracker" where
  "end_link i t = t\<lparr>tr_links := remove1 i (tr_links t)\<rparr>"

inductive tracker_step :: "outside \<Rightarrow> tracker \<times> world \<Rightarrow> tracker \<times> world \<Rightarrow> bool" for out where
  run: "tracker_step out (t, w) (snd (Tracker_Run out i c io tty sg (t, w)))"
| attach: "tracker_step out (t, w) (snd (Tracker_Attach i io t), w)"
| restore: "tracker_step out (t, w) (Tracker_Restore i sg t, w)"
| link_gone: "i \<in> set (tr_links t) \<Longrightarrow> map_of (tr_processes t) i = None \<Longrightarrow> tracker_step out (t, w) (end_link i t, w)"
| link_connect: "i \<in> set (tr_links t) \<Longrightarrow> map_of (tr_processes t) i = Some p \<Longrightarrow> \<not> pr_linking p \<Longrightarrow>
    runLinker_connect out (p\<lparr>pr_linking := True\<rparr>, w) = (Ok p', w') \<Longrightarrow>
    tracker_step out (t, w) (put_process i p' t, w')"
| link_exit: "map_of (tr_processes t) i = Some p \<Longrightarrow> pr_linked p \<Longrightarrow> pr_exited p = None \<Longrightarrow>
    runLinker_exit out (p, w) = (Ok p', w') \<Longrightarrow> tracker_step out (t, w) (put_process i p' t, w')"
| link_end: "i \<in> set (tr_links t) \<Longrightarrow> map_of (tr_processes t) i = Some p \<Longrightarrow> pr_exited p \<noteq> None \<Longrightarrow>
    tracker_step out (t, w) (end_link i (unregister i t), w)"

section \<open>Properties\<close>

text \<open>The phases a process goes through, as its channels show them.\<close>

definition process_ok :: "process \<Rightarrow> bool" where
  "process_ok p \<longleftrightarrow>
     (pr_linked p \<longrightarrow> pr_linking p) \<and> (pr_exited p \<noteq> None \<longrightarrow> pr_linking p)
   \<and> (pr_linking p \<longrightarrow> pr_linked p \<or> pr_exited p \<noteq> None)
   \<and> fi_w (pr_stdin p) = (if pr_linked p then Some (process_sock p) else None)"

definition tracker_ok :: "tracker \<Rightarrow> bool" where
  "tracker_ok t \<longleftrightarrow> (\<forall>i p. map_of (tr_processes t) i = Some p \<longrightarrow> process_ok p)"

lemma process_ok_New [simp]: "process_ok (NewProcess i cp sg)"
  by (simp add: process_ok_def NewProcess_def NewFanIn_def)

lemma process_ok_Attach [simp]: "process_ok (Process_Attach io p) = process_ok p"
  by (simp add: process_ok_def Process_Attach_def process_sock_def)

lemma process_sock_upd [simp]:
  "process_sock (p\<lparr>pr_linking := a\<rparr>) = process_sock p" "process_sock (p\<lparr>pr_exited := b\<rparr>) = process_sock p"
  "process_sock (p\<lparr>pr_stdin := c\<rparr>) = process_sock p" "process_sock (p\<lparr>pr_linked := d\<rparr>) = process_sock p"
  by (simp_all add: process_sock_def)

lemma tracker_ok_put: "tracker_ok t \<Longrightarrow> process_ok p \<Longrightarrow> tracker_ok (put_process i p t)"
  by (simp add: tracker_ok_def put_process_def update_conv')

lemma tracker_ok_links [simp]: "tracker_ok (go_link i t) = tracker_ok t" "tracker_ok (end_link i t) = tracker_ok t"
  by (simp_all add: tracker_ok_def go_link_def end_link_def)

lemma tracker_ok_unregister: "tracker_ok t \<Longrightarrow> tracker_ok (unregister i t)"
  by (simp add: tracker_ok_def unregister_def delete_conv')

lemma connect_ok:
  assumes "process_ok p" "\<not> pr_linking p"
  shows "\<exists>p' w'. runLinker_connect out (p\<lparr>pr_linking := True\<rparr>, w) = (Ok p', w') \<and> process_ok p'"
proof -
  obtain r w' where r: "write_kernel out (LinkCreate (process_sock p)) w = (r, w')" by (cases "write_kernel out (LinkCreate (process_sock p)) w")
  moreover have "r \<noteq> Panic m" for m using r no_panics(3) [of out "LinkCreate (process_sock p)" w m] by simp
  ultimately show ?thesis
    using assms by (cases r) (auto simp: runLinker_connect_def process_ok_def Process_completed_def FanIn_AddSink_def)
qed

lemma exit_ok:
  assumes "process_ok p" "pr_linked p" "pr_exited p = None"
  shows "\<exists>p' w'. runLinker_exit out (p, w) = (Ok p', w') \<and> process_ok p' \<and> pr_exited p' \<noteq> None"
proof -
  obtain st err w1 where "Link_Wait out (process_sock p) w = ((st, err), w1)" by (metis surj_pair)
  then show ?thesis
    using assms
    by (auto simp: runLinker_exit_def process_ok_def Process_completed_def FanIn_Close_def split: prod.splits)
qed

lemma Run_ok: "tracker_ok t \<Longrightarrow> tracker_ok (fst (snd (Tracker_Run out i c io tty sg (t, w))))"
  by (auto simp: Tracker_Run_def Let_def tracker_ok_put split: prod.splits res.splits)

lemma tracker_step_ok: "tracker_step out s s' \<Longrightarrow> tracker_ok (fst s) \<Longrightarrow> tracker_ok (fst s')"
proof (induction rule: tracker_step.induct)
  case (run t w i c io tty sg)
  then show ?case using Run_ok by simp
next
  case (attach t w i io)
  then show ?case
    by (auto simp: Tracker_Attach_def tracker_ok_def put_process_def go_link_def update_conv' split: option.splits)
next
  case (link_connect i t p w p' w')
  from link_connect have ok: "process_ok p" by (auto simp: tracker_ok_def)
  from connect_ok [OF this link_connect(3), of out w] have "process_ok p'" using link_connect(4) by auto
  then show ?case using link_connect by (simp add: tracker_ok_put)
next
  case (link_exit t i p w p' w')
  then have ok: "process_ok p" by (auto simp: tracker_ok_def)
  from exit_ok [OF this link_exit(2,3), of out w] have "process_ok p'" using link_exit(4) by auto
  then show ?case using link_exit by (simp add: tracker_ok_put)
qed (simp_all add: Tracker_Restore_def tracker_ok_put tracker_ok_unregister)

lemma tracker_reachable_ok:
  "(tracker_step out)\<^sup>*\<^sup>* s s' \<Longrightarrow> tracker_ok (fst s) \<Longrightarrow> tracker_ok (fst s')"
  by (induction rule: rtranclp_induct) (auto intro: tracker_step_ok)



text \<open>
  C27. A process whose socket cannot be connected to ends with status -1 and the connection's
  error, but the channel \<open>linked\<close> stays open, and linking is never tried again: signalling it or
  setting its window size then waits forever.
\<close>

theorem failed_link_blocks_signal:
  assumes "process_ok p" and "\<not> pr_linking p"
    and "o_err out (trace w) (LinkCreate (process_sock p)) = Some e"
  shows "\<exists>p' w'. Process_Link out (p, w) = (Ok p', w') \<and> Process_Wait p' = Some (-1, Some e)
    \<and> (\<forall>sig w''. Process_Signal out sig p' w'' = None) \<and> (\<forall>tty w''. Process_SetTTY out tty p' w'' = None)
    \<and> (\<forall>w''. Process_Link out (p', w'') = (Ok p', w''))"
  using assms
  by (auto simp: Process_Link_def runLinker_connect_def write_kernel_def Process_completed_def process_ok_def
      Process_Wait_def Process_Signal_def Process_SetTTY_def)

theorem failed_link_blocks_signal_witness:
  "\<exists>p'. Process_Wait p' = Some (-1, Some (External ''refused'')) \<and> Process_Signal quiet SignalKill p' empty_world = None"
proof -
  let ?out = "quiet\<lparr>o_err := \<lambda>_ e. if e = LinkCreate (process_sock (NewProcess ''1'' ''/depot/c1'' LinkSignaller))
                                  then Some (External ''refused'') else None\<rparr>"
  have "\<exists>p' w'. Process_Link ?out (NewProcess ''1'' ''/depot/c1'' LinkSignaller, empty_world) = (Ok p', w')
    \<and> Process_Wait p' = Some (-1, Some (External ''refused''))
    \<and> (\<forall>sig w''. Process_Signal ?out sig p' w'' = None) \<and> (\<forall>tty w''. Process_SetTTY ?out tty p' w'' = None)
    \<and> (\<forall>w''. Process_Link ?out (p', w'') = (Ok p', w''))"
    by (rule failed_link_blocks_signal, simp, simp add: NewProcess_def, simp)
  then obtain p' where "Process_Wait p' = Some (-1, Some (External ''refused''))"
    "Process_Signal ?out SignalKill p' empty_world = None" by blast
  then show ?thesis by (intro exI [of _ p']) (auto simp: Process_Signal_def split: if_splits)
qed

text \<open>
  When the I/O daemon does not come up, \<open>Run\<close> returns its error but leaves the process in the
  table, with no goroutine to remove it: it stays among the active processes.
\<close>

theorem Tracker_Run_failed_stays:
  assumes "Spawn_ready out (spawn_cmd (NewProcess i (tr_containerPath t) sg) c tty) w = (Err e, w')"
  shows "\<exists>t'. Tracker_Run out i c io tty sg (t, w) = (Err e, t', w')
    \<and> i \<in> set (ActiveProcesses t') \<and> tr_links t' = tr_links t
    \<and> set (ActiveProcesses t') = insert i (set (ActiveProcesses t))"
  using assms
  by (simp add: Tracker_Run_def Let_def ActiveProcesses_def put_process_def dom_update)

theorem Tracker_Run_failed_stays_witness:
  "\<exists>out t' w'. Tracker_Run out ''1'' (exec_Command ''/depot/c1/bin/wsh'' []) \<lparr>pio_Stdin = None, pio_Stdout = None, pio_Stderr = None\<rparr>
      None LinkSignaller (NewTracker ''/depot/c1'', empty_world) = (Err (External ''no pipe''), t', w')
    \<and> ActiveProcesses t' = [''1'']"
proof -
  let ?out = "quiet\<lparr>o_err := \<lambda>_ e. if e = OpenPipe then Some (External ''no pipe'') else None\<rparr>"
  let ?c = "exec_Command ''/depot/c1/bin/wsh'' []" and ?io = "\<lparr>pio_Stdin = None, pio_Stdout = None, pio_Stderr = None\<rparr>"
  have "Spawn_ready ?out (spawn_cmd (NewProcess ''1'' (tr_containerPath (NewTracker ''/depot/c1'')) LinkSignaller) ?c None) empty_world
      = (Err (External ''no pipe''), empty_world\<lparr>trace := [OpenPipe]\<rparr>)"
    by (simp add: Spawn_ready_def write_kernel_def)
  from Tracker_Run_failed_stays [OF this, of ?io] obtain t' where
    t': "Tracker_Run ?out ''1'' ?c ?io None LinkSignaller (NewTracker ''/depot/c1'', empty_world)
          = (Err (External ''no pipe''), t', empty_world\<lparr>trace := [OpenPipe]\<rparr>)"
    "set (ActiveProcesses t') = {''1''}" by (auto simp: NewTracker_def ActiveProcesses_def)
  have "ActiveProcesses t' = [''1'']"
    using t'(1) by (auto simp: Tracker_Run_def Let_def Spawn_ready_def write_kernel_def ActiveProcesses_def
        put_process_def NewTracker_def split: prod.splits res.splits)
  then show ?thesis using t'(1) by blast
qed

end
