(* ===== verification/Container_Spec.thy ===== *)
theory Container_Spec
  imports Subnets Iptables
begin

text \<open>
  The data that the backend, the resource pool and the containers exchange
  (\<open>linux_backend/resources.go\<close>, \<open>linux_container/snapshot.go\<close>): resources, the specification of
  a container, and the snapshot saved across restarts. JSON is kept at the level of objects with
  named fields; only \<open>Network\<close> has an encoding of its own, as two strings.
\<close>

section \<open>Resources\<close>

record resources =
  res_RootUID :: int
  res_Network :: "network option"
  res_Bridge :: string
  res_Ports :: "port list"
  res_ExternalIP :: ip

definition NewResources :: "int \<Rightarrow> network option \<Rightarrow> string \<Rightarrow> port list \<Rightarrow> ip \<Rightarrow> resources" where
  "NewResources rootuid nw bridge ports externalIP =
     \<lparr>res_RootUID = rootuid, res_Network = nw, res_Bridge = bridge, res_Ports = ports, res_ExternalIP = externalIP\<rparr>"

definition AddPort :: "port \<Rightarrow> resources \<Rightarrow> resources" where
  "AddPort p r = r\<lparr>res_Ports := res_Ports r @ [p]\<rparr>"

section \<open>Container specifications\<close>

text \<open>\<open>State\<close> is a string type with three named values.\<close>

type_synonym state = string

definition StateBorn :: state where "StateBorn = ''born''"
definition StateActive :: state where "StateActive = ''active''"
definition StateStopped :: state where "StateStopped = ''stopped''"

record limits =
  lim_Memory :: "memory_limits option"
  lim_Disk :: "disk_limits option"
  lim_Bandwidth :: "bandwidth_limits option"
  lim_CPU :: "cpu_limits option"

definition no_limits :: limits where
  "no_limits = \<lparr>lim_Memory = None, lim_Disk = None, lim_Bandwidth = None, lim_CPU = None\<rparr>"

record active_process =
  ap_ID :: uint32
  ap_TTY :: bool

record net_in_spec =
  ni_HostPort :: uint32
  ni_ContainerPort :: uint32

record container_spec =
  cs_ID :: string
  cs_ContainerPath :: string
  cs_ContainerRootFSPath :: string
  cs_Resources :: resources
  cs_State :: state
  cs_Events :: "string list"
  cs_Spec :: garden_spec
  cs_Limits :: limits
  cs_Processes :: "active_process list"
  cs_DefaultProcessSignaller :: bool
  cs_NetIns :: "net_in_spec list"
  cs_NetOuts :: "net_out_rule list"
  cs_Version :: string

section \<open>Networks as JSON\<close>

type_synonym json_object = "(string \<times> string) list"

definition Network_MarshalJSON :: "network \<Rightarrow> json_object" where
  "Network_MarshalJSON n = [(''IP'', IP_String (IP n)), (''Subnet'', IPNet_String (Subnet n))]"

text \<open>A field that is not in the object keeps the empty string.\<close>

definition json_field :: "string \<Rightarrow> json_object \<Rightarrow> string" where
  "json_field k b = (case map_of b k of None \<Rightarrow> '''' | Some v \<Rightarrow> v)"

definition Network_UnmarshalJSON :: "json_object \<Rightarrow> network res" where
  "Network_UnmarshalJSON b =
     (case ParseCIDR (json_field ''Subnet'' b) of
        None \<Rightarrow> Err (External (''invalid CIDR address: '' @ json_field ''Subnet'' b))
      | Some (_, sn) \<Rightarrow> Ok \<lparr>Subnet = sn, IP = ParseIP (json_field ''IP'' b)\<rparr>)"

section \<open>Snapshots\<close>

text \<open>
  \<open>ContainerSnapshot\<close> with its \<open>ResourcesSnapshot\<close>. The type of the network field is a parameter:
  the network itself in the Go struct, its JSON object in the file. \<open>UserUID\<close> is never set.
\<close>

record 'n resources_snapshot =
  rsn_RootUID :: int
  rsn_Network :: 'n
  rsn_Bridge :: string
  rsn_Ports :: "port list"

record 'n container_snapshot =
  sn_ID :: string
  sn_Handle :: string
  sn_RootFSPath :: string
  sn_GraceTime :: int
  sn_State :: string
  sn_Events :: "string list"
  sn_Limits :: limits
  sn_Resources :: "'n resources_snapshot"
  sn_Processes :: "active_process list"
  sn_DefaultProcessSignaller :: bool
  sn_NetIns :: "net_in_spec list"
  sn_NetOuts :: "net_out_rule list"
  sn_Properties :: properties
  sn_EnvVars :: "string list"

definition with_network :: "'m \<Rightarrow> 'n container_snapshot \<Rightarrow> 'm container_snapshot" where
  "with_network n s =
     \<lparr>sn_ID = sn_ID s, sn_Handle = sn_Handle s, sn_RootFSPath = sn_RootFSPath s, sn_GraceTime = sn_GraceTime s,
      sn_State = sn_State s, sn_Events = sn_Events s, sn_Limits = sn_Limits s,
      sn_Resources = \<lparr>rsn_RootUID = rsn_RootUID (sn_Resources s), rsn_Network = n,
                      rsn_Bridge = rsn_Bridge (sn_Resources s), rsn_Ports = rsn_Ports (sn_Resources s)\<rparr>,
      sn_Processes = sn_Processes s, sn_DefaultProcessSignaller = sn_DefaultProcessSignaller s,
      sn_NetIns = sn_NetIns s, sn_NetOuts = sn_NetOuts s, sn_Properties = sn_Properties s, sn_EnvVars = sn_EnvVars s\<rparr>"

type_synonym snapshot = "network option container_snapshot"
type_synonym snapshot_json = "json_object option container_snapshot"

definition encode_snapshot :: "snapshot \<Rightarrow> snapshot_json" where
  "encode_snapshot s = with_network (map_option Network_MarshalJSON (rsn_Network (sn_Resources s))) s"

definition decode_snapshot :: "snapshot_json \<Rightarrow> snapshot res" where
  "decode_snapshot j =
     (case rsn_Network (sn_Resources j) of
        None \<Rightarrow> Ok (with_network None j)
      | Some b \<Rightarrow> res_bind (Network_UnmarshalJSON b) (\<lambda>n. Ok (with_network (Some n) j)))"

section \<open>Properties\<close>

lemma ParseIP_String:
  assumes "is_v4 ip"
  shows "ParseIP (IP_String ip) = IP_To16 ip"
proof -
  from length_To4 [OF assms] obtain a b c d where p: "IP_To4 ip = [a, b, c, d]" by (rule length_4_cases)
  have "find (\<lambda>c. c = CHR ''.'' \<or> c = CHR '':'') (s @ CHR ''.'' # t) = Some CHR ''.''"
    if "CHR ''.'' \<notin> set s" "CHR '':'' \<notin> set s" for s t
    using that by (induction s) auto
  then have "find (\<lambda>c. c = CHR ''.'' \<or> c = CHR '':'') (v4_string [a, b, c, d]) = Some CHR ''.''"
    using show_nat_no_char [of "CHR '':''"] show_nat_no_char [of "CHR ''.''"]
    by (simp add: v4_string_def show_word_def is_digit_cases)
  then show ?thesis
    by (simp add: ParseIP_def IP_String_v4 [OF assms] p parseIPv4_v4_string To16_eq_To4 [OF assms])
qed

lemma json_fields [simp]:
  "json_field ''IP'' (Network_MarshalJSON n) = IP_String (IP n)"
  "json_field ''Subnet'' (Network_MarshalJSON n) = IPNet_String (Subnet n)"
  by (simp_all add: json_field_def Network_MarshalJSON_def)

text \<open>
  A network survives the snapshot file: reading back what was written gives the same subnet
  and an equal address, the same key in the subnet pool. (The address comes back in its 16-byte
  form.)
\<close>

theorem Network_json_roundtrip:
  assumes "v4_net (Subnet n) k" and "is_v4 (IP n)"
  shows "\<exists>n'. Network_UnmarshalJSON (Network_MarshalJSON n) = Ok n'
    \<and> Subnet n' = Subnet n \<and> IP_Equal (IP n') (IP n) \<and> network_key n' = network_key n
    \<and> Network_MarshalJSON n' = Network_MarshalJSON n"
proof -
  have "Network_UnmarshalJSON (Network_MarshalJSON n) = Ok \<lparr>Subnet = Subnet n, IP = IP_To16 (IP n)\<rparr>"
    using assms by (simp add: Network_UnmarshalJSON_def ParseCIDR_String ParseIP_String)
  then show ?thesis
    using assms(2) by (auto simp: IP_Equal_v4 network_key_def Network_MarshalJSON_def IP_String_v4)
qed

theorem Network_json_roundtrip_witness:
  "\<exists>n'. Network_UnmarshalJSON (Network_MarshalJSON \<lparr>Subnet = example_net 4, IP = [10, 254, 0, 6]\<rparr>) = Ok n'
    \<and> Subnet n' = example_net 4 \<and> IP_Equal (IP n') [10, 254, 0, 6]"
  using Network_json_roundtrip [of "\<lparr>Subnet = example_net 4, IP = [10, 254, 0, 6]\<rparr>" 30]
    example_net_v4 [of 4] by auto

lemma decode_encode:
  assumes "rsn_Network (sn_Resources s) = Some n" and "v4_net (Subnet n) k" and "is_v4 (IP n)"
  shows "decode_snapshot (encode_snapshot s) = Ok (with_network (Some \<lparr>Subnet = Subnet n, IP = IP_To16 (IP n)\<rparr>) s)"
  using assms
  by (simp add: decode_snapshot_def encode_snapshot_def with_network_def Network_UnmarshalJSON_def ParseCIDR_String
      ParseIP_String)

end
