(* ===== verification/Metrics.thy ===== *)
theory Metrics
  imports Bandwidth Cgroups
begin

text \<open>
  The statistics of a container (\<open>linux_container/metrics.go\<close>, and the counters of a network
  interface in \<open>network/devices/link.go\<close>): the parsers of the kernel's accounting files, at 64 bits.
\<close>

section \<open>Words\<close>

text \<open>\<open>bufio.ScanWords\<close>: the maximal runs of characters that are not blank.\<close>

fun words_loop :: "string \<Rightarrow> string \<Rightarrow> string list" where
  "words_loop acc [] = (if acc = [] then [] else [rev acc])"
| "words_loop acc (c # cs) =
     (if is_space c then (if acc = [] then words_loop [] cs else rev acc # words_loop [] cs)
      else words_loop (c # acc) cs)"

definition scan_words :: "string \<Rightarrow> string list" where
  "scan_words s = words_loop [] s"

section \<open>Memory\<close>

record memory_stat =
  ms_Cache :: uint64
  ms_Rss :: uint64
  ms_MappedFile :: uint64
  ms_Pgpgin :: uint64
  ms_Pgpgout :: uint64
  ms_Swap :: uint64
  ms_Pgfault :: uint64
  ms_Pgmajfault :: uint64
  ms_InactiveAnon :: uint64
  ms_ActiveAnon :: uint64
  ms_InactiveFile :: uint64
  ms_ActiveFile :: uint64
  ms_Unevictable :: uint64
  ms_HierarchicalMemoryLimit :: uint64
  ms_HierarchicalMemswLimit :: uint64
  ms_TotalCache :: uint64
  ms_TotalRss :: uint64
  ms_TotalMappedFile :: uint64
  ms_TotalPgpgin :: uint64
  ms_TotalPgpgout :: uint64
  ms_TotalSwap :: uint64
  ms_TotalPgfault :: uint64
  ms_TotalPgmajfault :: uint64
  ms_TotalInactiveAnon :: uint64
  ms_TotalActiveAnon :: uint64
  ms_TotalInactiveFile :: uint64
  ms_TotalActiveFile :: uint64
  ms_TotalUnevictable :: uint64
  ms_TotalUsageTowardLimit :: uint64

definition zero_memory_stat :: memory_stat where
  "zero_memory_stat = \<lparr>ms_Cache = 0, ms_Rss = 0, ms_MappedFile = 0, ms_Pgpgin = 0, ms_Pgpgout = 0, ms_Swap = 0, ms_Pgfault = 0, ms_Pgmajfault = 0, ms_InactiveAnon = 0, ms_ActiveAnon = 0, ms_InactiveFile = 0, ms_ActiveFile = 0, ms_Unevictable = 0, ms_HierarchicalMemoryLimit = 0, ms_HierarchicalMemswLimit = 0, ms_TotalCache = 0, ms_TotalRss = 0, ms_TotalMappedFile = 0, ms_TotalPgpgin = 0, ms_TotalPgpgout = 0, ms_TotalSwap = 0, ms_TotalPgfault = 0, ms_TotalPgmajfault = 0, ms_TotalInactiveAnon = 0, ms_TotalActiveAnon = 0, ms_TotalInactiveFile = 0, ms_TotalActiveFile = 0, ms_TotalUnevictable = 0, ms_TotalUsageTowardLimit = 0\<rparr>"

text \<open>The switch over the field names; other names are ignored.\<close>

definition set_memory_field :: "string \<Rightarrow> uint64 \<Rightarrow> memory_stat \<Rightarrow> memory_stat" where
  "set_memory_field field v stat =
     (if field = ''cache'' then stat\<lparr>ms_Cache := v\<rparr>
      else if field = ''rss'' then stat\<lparr>ms_Rss := v\<rparr>
      else if field = ''mapped_file'' then stat\<lparr>ms_MappedFile := v\<rparr>
      else if field = ''pgpgin'' then stat\<lparr>ms_Pgpgin := v\<rparr>
      else if field = ''pgpgout'' then stat\<lparr>ms_Pgpgout := v\<rparr>
      else if field = ''swap'' then stat\<lparr>ms_Swap := v\<rparr>
      else if field = ''pgfault'' then stat\<lparr>ms_Pgfault := v\<rparr>
      else if field = ''pgmajfault'' then stat\<lparr>ms_Pgmajfault := v\<rparr>
      else if field = ''inactive_anon'' then stat\<lparr>ms_InactiveAnon := v\<rparr>
      else if field = ''active_anon'' then stat\<lparr>ms_ActiveAnon := v\<rparr>
      else if field = ''inactive_file'' then stat\<lparr>ms_InactiveFile := v\<rparr>
      else if field = ''active_file'' then stat\<lparr>ms_ActiveFile := v\<rparr>
      else if field = ''unevictable'' then stat\<lparr>ms_Unevictable := v\<rparr>
      else if field = ''hierarchical_memory_limit'' then stat\<lparr>ms_HierarchicalMemoryLimit := v\<rparr>
      else if field = ''hierarchical_memsw_limit'' then stat\<lparr>ms_HierarchicalMemswLimit := v\<rparr>
      else if field = ''total_cache'' then stat\<lparr>ms_TotalCache := v\<rparr>
      else if field = ''total_rss'' then stat\<lparr>ms_TotalRss := v\<rparr>
      else if field = ''total_mapped_file'' then stat\<lparr>ms_TotalMappedFile := v\<rparr>
      else if field = ''total_pgpgin'' then stat\<lparr>ms_TotalPgpgin := v\<rparr>
      else if field = ''total_pgpgout'' then stat\<lparr>ms_TotalPgpgout := v\<rparr>
      else if field = ''total_swap'' then stat\<lparr>ms_TotalSwap := v\<rparr>
      else if field = ''total_pgfault'' then stat\<lparr>ms_TotalPgfault := v\<rparr>
      else if field = ''total_pgmajfault'' then stat\<lparr>ms_TotalPgmajfault := v\<rparr>
      else if field = ''total_inactive_anon'' then stat\<lparr>ms_TotalInactiveAnon := v\<rparr>
      else if field = ''total_active_anon'' then stat\<lparr>ms_TotalActiveAnon := v\<rparr>
      else if field = ''total_inactive_file'' then stat\<lparr>ms_TotalInactiveFile := v\<rparr>
      else if field = ''total_active_file'' then stat\<lparr>ms_TotalActiveFile := v\<rparr>
      else if field = ''total_unevictable'' then stat\<lparr>ms_TotalUnevictable := v\<rparr>
      else stat)"

text \<open>
  The loop takes the words in pairs; a value that is no 64-bit number is skipped with its name.
\<close>

fun memory_loop :: "string list \<Rightarrow> memory_stat \<Rightarrow> memory_stat" where
  "memory_loop (field # v # ws) stat =
     (case parse_uint 64 v of
        None \<Rightarrow> memory_loop ws stat
      | Some n \<Rightarrow> memory_loop ws (set_memory_field field (of_nat n) stat))"
| "memory_loop ws stat = stat"

definition parseMemoryStat :: "string \<Rightarrow> memory_stat" where
  "parseMemoryStat contents =
     (let stat = memory_loop (scan_words contents) zero_memory_stat in
      stat\<lparr>ms_TotalUsageTowardLimit := ms_TotalRss stat + (ms_TotalCache stat - ms_TotalInactiveFile stat)\<rparr>)"

section \<open>Processor time\<close>

record cpu_stat =
  cpu_Usage :: uint64
  cpu_User :: uint64
  cpu_System :: uint64

definition zero_cpu_stat :: cpu_stat where
  "zero_cpu_stat = \<lparr>cpu_Usage = 0, cpu_User = 0, cpu_System = 0\<rparr>"

fun cpu_loop :: "string list \<Rightarrow> cpu_stat \<Rightarrow> cpu_stat" where
  "cpu_loop (field # v # ws) stat =
     (case parse_uint 64 v of
        None \<Rightarrow> cpu_loop ws stat
      | Some n \<Rightarrow>
          cpu_loop ws
            (if field = ''user'' then stat\<lparr>cpu_User := of_nat n\<rparr>
             else if field = ''system'' then stat\<lparr>cpu_System := of_nat n\<rparr>
             else stat))"
| "cpu_loop ws stat = stat"

definition parseCPUStat :: "string \<Rightarrow> string \<Rightarrow> cpu_stat" where
  "parseCPUStat usage statContents =
     (case parse_uint 64 (trim_newlines usage) of
        None \<Rightarrow> zero_cpu_stat
      | Some n \<Rightarrow> cpu_loop (scan_words statContents) (zero_cpu_stat\<lparr>cpu_Usage := of_nat n\<rparr>))"

section \<open>Network counters\<close>

definition intfStat :: "outside \<Rightarrow> string \<Rightarrow> string \<Rightarrow> world \<Rightarrow> uint64 res \<times> world" where
  "intfStat out intf statFile w =
     (let p = path_Join [''/sys/class/net'', intf, ''statistics'', statFile] in
      then_do (read_kernel out (ReadFile p) p w) (\<lambda>data w. (parse_uint64 (trim_space data), w)))"

definition Link_Statistics :: "outside \<Rightarrow> string \<Rightarrow> world \<Rightarrow> network_stat res \<times> world" where
  "Link_Statistics out nm w =
     then_do (intfStat out nm ''rx_bytes'' w) (\<lambda>rx w.
     then_do (intfStat out nm ''tx_bytes'' w) (\<lambda>tx w.
       (Ok \<lparr>ns_RxBytes = rx, ns_TxBytes = tx\<rparr>, w)))"

section \<open>Properties\<close>

text \<open>The names that the parser knows, with the counter each one sets.\<close>

definition memory_fields :: "(string \<times> (memory_stat \<Rightarrow> uint64)) list" where
  "memory_fields =
     [ (''cache'', ms_Cache),
      (''rss'', ms_Rss),
      (''mapped_file'', ms_MappedFile),
      (''pgpgin'', ms_Pgpgin),
      (''pgpgout'', ms_Pgpgout),
      (''swap'', ms_Swap),
      (''pgfault'', ms_Pgfault),
      (''pgmajfault'', ms_Pgmajfault),
      (''inactive_anon'', ms_InactiveAnon),
      (''active_anon'', ms_ActiveAnon),
      (''inactive_file'', ms_InactiveFile),
      (''active_file'', ms_ActiveFile),
      (''unevictable'', ms_Unevictable),
      (''hierarchical_memory_limit'', ms_HierarchicalMemoryLimit),
      (''hierarchical_memsw_limit'', ms_HierarchicalMemswLimit),
      (''total_cache'', ms_TotalCache),
      (''total_rss'', ms_TotalRss),
      (''total_mapped_file'', ms_TotalMappedFile),
      (''total_pgpgin'', ms_TotalPgpgin),
      (''total_pgpgout'', ms_TotalPgpgout),
      (''total_swap'', ms_TotalSwap),
      (''total_pgfault'', ms_TotalPgfault),
      (''total_pgmajfault'', ms_TotalPgmajfault),
      (''total_inactive_anon'', ms_TotalInactiveAnon),
      (''total_active_anon'', ms_TotalActiveAnon),
      (''total_inactive_file'', ms_TotalInactiveFile),
      (''total_active_file'', ms_TotalActiveFile),
      (''total_unevictable'', ms_TotalUnevictable)]"

lemma get_set_memory_field:
  assumes "(name, get) \<in> set memory_fields"
  shows "get (set_memory_field field v s) = (if field = name then v else get s)"
proof -
  have "list_all (\<lambda>(name, get). get (set_memory_field field v s) = (if field = name then v else get s)) memory_fields"
    by (simp add: memory_fields_def set_memory_field_def)
  then show ?thesis using assms by (auto simp: list_all_iff)
qed

lemma get_usage [simp]:
  assumes "(name, get) \<in> set memory_fields"
  shows "get (s\<lparr>ms_TotalUsageTowardLimit := v\<rparr>) = get s"
proof -
  have "list_all (\<lambda>(name, get). get (s\<lparr>ms_TotalUsageTowardLimit := v\<rparr>) = get s) memory_fields"
    by (simp add: memory_fields_def)
  then show ?thesis using assms by (auto simp: list_all_iff)
qed

lemma get_zero:
  assumes "(name, get) \<in> set memory_fields"
  shows "get zero_memory_stat = 0"
proof -
  have "list_all (\<lambda>(name, get). get zero_memory_stat = 0) memory_fields"
    by (simp add: memory_fields_def zero_memory_stat_def)
  then show ?thesis using assms by (auto simp: list_all_iff)
qed

lemma words_loop_append:
  "\<forall>c\<in>set s. \<not> is_space c \<Longrightarrow> words_loop acc (s @ t) = words_loop (rev s @ acc) t"
  by (induction s arbitrary: acc) auto

lemma scan_word:
  "s \<noteq> [] \<Longrightarrow> \<forall>c\<in>set s. \<not> is_space c \<Longrightarrow> is_space b \<Longrightarrow> scan_words (s @ b # t) = s # scan_words t"
  by (simp add: scan_words_def words_loop_append)

text \<open>A statistics file as the kernel writes it: one line per counter.\<close>

definition stat_lines :: "(string \<times> nat) list \<Rightarrow> string" where
  "stat_lines kvs = concat (map (\<lambda>(k, v). k @ '' '' @ show_nat v @ [newline]) kvs)"

definition stat_name :: "string \<Rightarrow> bool" where
  "stat_name k \<longleftrightarrow> k \<noteq> '''' \<and> (\<forall>c\<in>set k. \<not> is_space c)"

lemma scan_stat_lines:
  "\<forall>(k, v)\<in>set kvs. stat_name k \<Longrightarrow> scan_words (stat_lines kvs) = concat (map (\<lambda>(k, v). [k, show_nat v]) kvs)"
proof (induction kvs)
  case Nil
  then show ?case by (simp add: stat_lines_def scan_words_def)
next
  case (Cons kv kvs)
  obtain k v where kv: "kv = (k, v)" by (cases kv)
  have d: "\<forall>c\<in>set (show_nat v). \<not> is_space c" using show_nat_digits not_space_digit by blast
  have k: "k \<noteq> []" "\<forall>c\<in>set k. \<not> is_space c" using Cons.prems by (auto simp: kv stat_name_def)
  have "is_space CHR '' ''" "is_space newline" by (simp_all add: is_space_def)
  then have "scan_words (k @ CHR '' '' # show_nat v @ newline # stat_lines kvs) = k # show_nat v # scan_words (stat_lines kvs)"
    using scan_word k d by simp
  then show ?case using Cons by (simp add: kv stat_lines_def)
qed

lemma memory_loop_lines:
  assumes "(name, get) \<in> set memory_fields" and "\<forall>(k, v)\<in>set kvs. v < 2 ^ 64"
  shows "get (memory_loop (concat (map (\<lambda>(k, v). [k, show_nat v]) kvs)) s)
    = (case map_of (rev kvs) name of None \<Rightarrow> get s | Some v \<Rightarrow> of_nat v)"
  using assms(2)
proof (induction kvs arbitrary: s)
  case (Cons kv kvs)
  then show ?case
    by (cases kv) (auto simp: get_set_memory_field [OF assms(1)] map_add_def split: option.splits)
qed simp

text \<open>
  C28. Every counter of a memory statistics file is read: for each name the parser knows, the field
  holds the last value the file gives for that name, or zero, whatever other lines the file has and
  in whatever order. The usage that counts towards the limit is resident memory plus the page cache
  without its inactive part, exactly, even where the intermediate difference wraps around.
\<close>

theorem parseMemoryStat_correct:
  assumes "\<forall>(k, v)\<in>set kvs. stat_name k \<and> v < 2 ^ 64"
  shows "(\<forall>(name, get)\<in>set memory_fields.
            get (parseMemoryStat (stat_lines kvs)) = (case map_of (rev kvs) name of None \<Rightarrow> 0 | Some v \<Rightarrow> of_nat v))
    \<and> (let s = parseMemoryStat (stat_lines kvs); total = unat (ms_TotalRss s) + unat (ms_TotalCache s) in
       total < 2 ^ 64 \<and> unat (ms_TotalInactiveFile s) \<le> total
       \<longrightarrow> unat (ms_TotalUsageTowardLimit s) = total - unat (ms_TotalInactiveFile s))"
proof -
  have v: "\<forall>(k, v)\<in>set kvs. v < 2 ^ 64" and k: "\<forall>(k, v)\<in>set kvs. stat_name k" using assms by auto
  define s0 where "s0 = memory_loop (scan_words (stat_lines kvs)) zero_memory_stat"
  have p: "parseMemoryStat (stat_lines kvs) =
      s0\<lparr>ms_TotalUsageTowardLimit := ms_TotalRss s0 + (ms_TotalCache s0 - ms_TotalInactiveFile s0)\<rparr>"
    by (simp add: parseMemoryStat_def Let_def s0_def)
  have f: "get (parseMemoryStat (stat_lines kvs)) = (case map_of (rev kvs) name of None \<Rightarrow> 0 | Some v \<Rightarrow> of_nat v)"
    if "(name, get) \<in> set memory_fields" for name get
    using memory_loop_lines [OF that v, of zero_memory_stat] that
    by (simp add: p s0_def scan_stat_lines [OF k] get_zero [OF that] split: option.splits)
  have usage: "unat (a + (b - c)) = unat a + unat b - unat c"
    if "unat a + unat b < 2 ^ 64" "unat c \<le> unat a + unat b" for a b c :: uint64
  proof -
    have "unat (a + b) = unat a + unat b" using that(1) by (intro unat_add_no_wrap) simp
    moreover from this have "unat ((a + b) - c) = unat (a + b) - unat c"
      using that(2) by (simp add: unat_sub word_le_nat_alt)
    ultimately show ?thesis by (simp add: add_diff_eq)
  qed
  show ?thesis
  proof
    show "\<forall>(name, get)\<in>set memory_fields.
        get (parseMemoryStat (stat_lines kvs)) = (case map_of (rev kvs) name of None \<Rightarrow> 0 | Some v \<Rightarrow> of_nat v)"
      using f by blast
  qed (simp add: p Let_def usage)
qed

theorem parseMemoryStat_correct_witness:
  "let s = parseMemoryStat (stat_lines [(''total_rss'', 9), (''total_cache'', 3), (''other'', 1), (''total_inactive_file'', 5)]) in
     ms_TotalRss s = 9 \<and> ms_Cache s = 0 \<and> unat (ms_TotalUsageTowardLimit s) = 7"
proof -
  let ?kvs = "[(''total_rss'', 9), (''total_cache'', 3), (''other'', 1), (''total_inactive_file'', 5::nat)]"
  have "\<forall>(k, v)\<in>set ?kvs. stat_name k \<and> v < 2 ^ 64" by (simp add: stat_name_def is_space_def)
  from parseMemoryStat_correct [OF this] have
    f: "list_all (\<lambda>(name, get). get (parseMemoryStat (stat_lines ?kvs)) = (case map_of (rev ?kvs) name of None \<Rightarrow> 0 | Some v \<Rightarrow> of_nat v)) memory_fields"
    and u: "let s = parseMemoryStat (stat_lines ?kvs); total = unat (ms_TotalRss s) + unat (ms_TotalCache s) in
       total < 2 ^ 64 \<and> unat (ms_TotalInactiveFile s) \<le> total
       \<longrightarrow> unat (ms_TotalUsageTowardLimit s) = total - unat (ms_TotalInactiveFile s)"
    by (auto simp: list_all_iff)
  have "ms_TotalRss (parseMemoryStat (stat_lines ?kvs)) = 9" "ms_Cache (parseMemoryStat (stat_lines ?kvs)) = 0"
    "ms_TotalCache (parseMemoryStat (stat_lines ?kvs)) = 3" "ms_TotalInactiveFile (parseMemoryStat (stat_lines ?kvs)) = 5"
    using f by (simp_all add: memory_fields_def)
  then show ?thesis using u by (simp add: Let_def)
qed

end
