(* ===== verification/Container.thy ===== *)
theory Container
  imports Container_Spec Metrics Process_Tracker Iptables_Mgr Port_Pool
begin

text \<open>
  A container (\<open>linux_container\<close>): its limits, processes, ports, properties, snapshots and its life
  cycle. The state of a container is its specification and the managers it owns; its methods also
  work on the port pool it shares with the other containers, and on the world. Each method holds
  its mutex while it works and is atomic here. The callback of the out-of-memory watcher is the
  step \<open>Container_oom\<close>.
\<close>

section \<open>State\<close>

text \<open>
  The out-of-memory watcher: \<open>oom_cmd\<close> is the field \<open>cmd\<close>, \<open>oom_waiting\<close> the commands that a
  goroutine \<open>watch\<close> waits for.
\<close>

record oom_notifier =
  oom_cmd :: "cmd option"
  oom_waiting :: "cmd list"

definition NewOomNotifier :: oom_notifier where
  "NewOomNotifier = \<lparr>oom_cmd = None, oom_waiting = []\<rparr>"

record container =
  c_spec :: container_spec
  c_graceTime :: int
  c_currentProcessID :: uint32
  c_tracker :: tracker
  c_reader :: cgroup_reader
  c_oom :: oom_notifier
  c_cgroups :: cgroups
  c_bandwidth :: bandwidth_mgr
  c_filter :: chain
  c_ipTables :: "mgr_chain list"
  c_netIface :: string

type_synonym cstate = "container \<times> port_pool \<times> world"

definition in_world :: "(world \<Rightarrow> 'a res \<times> world) \<Rightarrow> cstate \<Rightarrow> 'a res \<times> cstate" where
  "in_world f = (\<lambda>(c, pp, w). let (r, w) = f w in (r, c, pp, w))"

definition in_reader :: "(cgroup_reader \<times> world \<Rightarrow> 'a res \<times> cgroup_reader \<times> world) \<Rightarrow> cstate \<Rightarrow> 'a res \<times> cstate" where
  "in_reader f = (\<lambda>(c, pp, w). let (r, rd, w) = f (c_reader c, w) in (r, c\<lparr>c_reader := rd\<rparr>, pp, w))"

definition upd_spec :: "(container_spec \<Rightarrow> container_spec) \<Rightarrow> cstate \<Rightarrow> cstate" where
  "upd_spec f = (\<lambda>(c, pp, w). (c\<lparr>c_spec := f (c_spec c)\<rparr>, pp, w))"

definition upd_limits :: "(limits \<Rightarrow> limits) \<Rightarrow> cstate \<Rightarrow> cstate" where
  "upd_limits f = upd_spec (\<lambda>sp. sp\<lparr>cs_Limits := f (cs_Limits sp)\<rparr>)"

section \<open>Construction\<close>

text \<open>
  \<open>ProvideContainer\<close> of \<open>main.go\<close>, with \<open>NewLinuxContainer\<close>: \<open>cfg\<close> is the system configuration, the
  chain prefix and the iptables chains are those of the server.
\<close>

record provider =
  prov_useKernelLogging :: bool
  prov_chainPrefix :: string
  prov_ipTablesMgr :: "mgr_chain list"
  prov_sysconfig :: config

definition createIPTablesManager :: "config \<Rightarrow> mgr_chain list" where
  "createIPTablesManager cfg = AddChain (AddChain [] (FilterChain (cfg_Filter cfg))) (NATChain (cfg_NAT cfg))"

definition ProvideFilter :: "provider \<Rightarrow> string \<Rightarrow> chain" where
  "ProvideFilter p containerId = NewLoggingChain (prov_chainPrefix p @ containerId) (prov_useKernelLogging p)"

definition NewLinuxContainer ::
  "container_spec \<Rightarrow> cgroups \<Rightarrow> cgroup_reader \<Rightarrow> bandwidth_mgr \<Rightarrow> tracker \<Rightarrow> chain \<Rightarrow> mgr_chain list \<Rightarrow> string \<Rightarrow> oom_notifier \<Rightarrow> container" where
  "NewLinuxContainer sp cg rd bw tr fl chs iface oom =
     \<lparr>c_spec = sp, c_graceTime = gs_GraceTime (cs_Spec sp), c_currentProcessID = 0, c_tracker = tr,
      c_reader = rd, c_oom = oom, c_cgroups = cg, c_bandwidth = bw, c_filter = fl, c_ipTables = chs,
      c_netIface = iface\<rparr>"

definition ProvideContainer :: "provider \<Rightarrow> container_spec \<Rightarrow> container" where
  "ProvideContainer p sp =
     NewLinuxContainer sp
       (NewCgroups (CgroupPath (prov_sysconfig p)) (cs_ID sp))
       \<lparr>cr_Path = CgroupNodeFilePath (prov_sysconfig p), cr_open = False\<rparr>
       (NewBandwidthMgr (cs_ContainerPath sp) (cs_ID sp))
       (NewTracker (cs_ContainerPath sp))
       (ProvideFilter p (cs_ID sp))
       (prov_ipTablesMgr p)
       (NetworkInterfacePrefix (prov_sysconfig p) @ cs_ID sp @ ''-0'')
       NewOomNotifier"

section \<open>Plain accessors\<close>

definition Container_ID :: "container \<Rightarrow> string" where
  "Container_ID c = cs_ID (c_spec c)"

definition ResourceSpec :: "container \<Rightarrow> container_spec" where
  "ResourceSpec c = c_spec c"

definition RootFSPath :: "container \<Rightarrow> string" where
  "RootFSPath c = cs_ContainerRootFSPath (c_spec c)"

definition Handle :: "container \<Rightarrow> string" where
  "Handle c = gs_Handle (cs_Spec (c_spec c))"

definition GraceTime :: "container \<Rightarrow> int" where
  "GraceTime c = c_graceTime c"

definition SetGraceTime :: "int \<Rightarrow> cstate \<Rightarrow> unit res \<times> cstate" where
  "SetGraceTime t = (\<lambda>(c, pp, w). (Ok (), c\<lparr>c_graceTime := t\<rparr>, pp, w))"

definition State :: "container \<Rightarrow> state" where
  "State c = cs_State (c_spec c)"

definition Events :: "container \<Rightarrow> string list" where
  "Events c = cs_Events (c_spec c)"

definition setState :: "state \<Rightarrow> cstate \<Rightarrow> cstate" where
  "setState st = upd_spec (\<lambda>sp. sp\<lparr>cs_State := st\<rparr>)"

definition registerEvent :: "string \<Rightarrow> cstate \<Rightarrow> cstate" where
  "registerEvent ev = upd_spec (\<lambda>sp. sp\<lparr>cs_Events := cs_Events sp @ [ev]\<rparr>)"

section \<open>Properties of a container\<close>

definition Properties :: "container \<Rightarrow> properties" where
  "Properties c = gs_Properties (cs_Spec (c_spec c))"

definition upd_properties :: "(properties \<Rightarrow> properties) \<Rightarrow> cstate \<Rightarrow> cstate" where
  "upd_properties f = upd_spec (\<lambda>sp. sp\<lparr>cs_Spec := (cs_Spec sp)\<lparr>gs_Properties := f (gs_Properties (cs_Spec sp))\<rparr>\<rparr>)"

definition Property :: "string \<Rightarrow> container \<Rightarrow> string res" where
  "Property key c =
     (case map_of (Properties c) key of
        None \<Rightarrow> Err (ErrorNew (''property does not exist: '' @ key))
      | Some v \<Rightarrow> Ok v)"

definition SetProperty :: "string \<Rightarrow> string \<Rightarrow> cstate \<Rightarrow> unit res \<times> cstate" where
  "SetProperty key v s = (Ok (), upd_properties (AList.update key v) s)"

definition RemoveProperty :: "string \<Rightarrow> cstate \<Rightarrow> unit res \<times> cstate" where
  "RemoveProperty key s =
     (if map_of (Properties (fst s)) key = None then (Err (ErrorNew (''property does not exist: '' @ key)), s)
      else (Ok (), upd_properties (AList.delete key) s))"

definition HasProperties :: "properties \<Rightarrow> container \<Rightarrow> bool" where
  "HasProperties props c \<longleftrightarrow> list_all (\<lambda>(k, v). map_of (Properties c) k = Some v) props"

section \<open>Process identifiers\<close>

definition ProcessIDPool_Next :: "uint32 \<Rightarrow> uint32 \<times> uint32" where
  "ProcessIDPool_Next current = (current + 1, current + 1)"

definition ProcessIDPool_Restore :: "uint32 \<Rightarrow> uint32 \<Rightarrow> uint32" where
  "ProcessIDPool_Restore i current = (if i \<ge> current then i else current)"

section \<open>The out-of-memory watcher\<close>

definition Oom_Watch :: "outside \<Rightarrow> cstate \<Rightarrow> unit res \<times> cstate" where
  "Oom_Watch out s =
     (if oom_cmd (c_oom (fst s)) \<noteq> None then (Ok (), s)
      else
        then_do (wrap_error ''linux_container: startOomNotifier: ''
          (in_reader (SubsystemPath out (c_cgroups (fst s)) ''memory'') s)) (\<lambda>memorySubsystemPath s. case s of (c, pp, w) \<Rightarrow>
        let cmd = exec_Command (path_Join [cs_ContainerPath (c_spec c), ''bin'', ''oom'']) [memorySubsystemPath];
            c = c\<lparr>c_oom := (c_oom c)\<lparr>oom_cmd := Some cmd\<rparr>\<rparr> in
        case perform out (Start cmd) w of
          (Ok _, w) \<Rightarrow> (Ok (), c\<lparr>c_oom := (c_oom c)\<lparr>oom_waiting := oom_waiting (c_oom c) @ [cmd]\<rparr>\<rparr>, pp, w)
        | (Err e, w) \<Rightarrow> (Err e, c, pp, w)
        | (Panic m, w) \<Rightarrow> (Panic m, c, pp, w)))"

definition Oom_Unwatch :: "outside \<Rightarrow> cstate \<Rightarrow> cstate" where
  "Oom_Unwatch out = (\<lambda>(c, pp, w).
     case oom_cmd (c_oom c) of
       None \<Rightarrow> (c, pp, w)
     | Some cmd \<Rightarrow> (c, pp, snd (perform out (Kill cmd) w)))"

section \<open>Starting and stopping\<close>

definition start_cmd :: "outside \<Rightarrow> container \<Rightarrow> cmd" where
  "start_cmd out c =
     (exec_Command (path_Join [cs_ContainerPath (c_spec c), ''start.sh'']) [])
       \<lparr>cmd_env := [''id='' @ Container_ID c, ''PATH='' @ o_getenv out ''PATH'']\<rparr>"

text \<open>A container without a network dereferences a nil pointer.\<close>

definition setup_iptables :: "outside \<Rightarrow> string \<Rightarrow> resources \<Rightarrow> cstate \<Rightarrow> unit res \<times> cstate" where
  "setup_iptables out i r s =
     (case res_Network r of
        None \<Rightarrow> (Panic ''nil pointer dereference'', s)
      | Some n \<Rightarrow> in_world (ContainerSetup out (c_ipTables (fst s)) i (res_Bridge r) (IP n) (Subnet n)) s)"

definition Container_Start :: "outside \<Rightarrow> cstate \<Rightarrow> unit res \<times> cstate" where
  "Container_Start out s =
     then_do (wrap_error ''container: start: ''
       (setup_iptables out (Container_ID (fst s)) (cs_Resources (c_spec (fst s))) s)) (\<lambda>_ s.
     then_do (wrap_error ''container: start: '' (in_world (run_cmd out (start_cmd out (fst s))) s)) (\<lambda>_ s.
     (Ok (), setState StateActive s)))"

definition Container_Cleanup :: "outside \<Rightarrow> cstate \<Rightarrow> unit res \<times> cstate" where
  "Container_Cleanup out s = (Ok (), Oom_Unwatch out s)"

definition stop_cmd :: "container \<Rightarrow> bool \<Rightarrow> cmd" where
  "stop_cmd c kill =
     exec_Command (path_Join [cs_ContainerPath (c_spec c), ''stop.sh'']) (if kill then [''-w'', ''0''] else [])"

definition Container_Stop :: "outside \<Rightarrow> bool \<Rightarrow> cstate \<Rightarrow> unit res \<times> cstate" where
  "Container_Stop out kill s =
     then_do (in_world (run_cmd out (stop_cmd (fst s) kill)) s) (\<lambda>_ s.
     then_do (Container_Cleanup out s) (\<lambda>_ s.
     (Ok (), setState StateStopped s)))"

text \<open>
  The goroutine \<open>watch\<close> when its command ends: the watcher is free again, and when the command
  reports that the limit was hit, the callback registers the event and stops the container,
  ignoring the result.
\<close>

definition Container_oom :: "outside \<Rightarrow> cmd \<Rightarrow> cstate \<Rightarrow> cstate" where
  "Container_oom out cmd = (\<lambda>(c, pp, w).
     let c = c\<lparr>c_oom := \<lparr>oom_cmd = None, oom_waiting = remove1 cmd (oom_waiting (c_oom c))\<rparr>\<rparr> in
     case perform out (Wait cmd) w of
       (Ok _, w) \<Rightarrow> snd (Container_Stop out True (registerEvent ''out of memory'' (c, pp, w)))
     | (_, w) \<Rightarrow> (c, pp, w))"

section \<open>Limits\<close>

definition LimitBandwidth :: "outside \<Rightarrow> bandwidth_limits \<Rightarrow> cstate \<Rightarrow> unit res \<times> cstate" where
  "LimitBandwidth out lim s =
     then_do (in_world (Bandwidth_SetLimits out (c_bandwidth (fst s)) lim) s) (\<lambda>_ s.
       (Ok (), upd_limits (\<lambda>l. l\<lparr>lim_Bandwidth := Some lim\<rparr>) s))"

definition CurrentBandwidthLimits :: "container \<Rightarrow> bandwidth_limits" where
  "CurrentBandwidthLimits c =
     (case lim_Bandwidth (cs_Limits (c_spec c)) of None \<Rightarrow> zero_bandwidth_limits | Some l \<Rightarrow> l)"

definition LimitDisk :: "outside \<Rightarrow> disk_limits \<Rightarrow> cstate \<Rightarrow> unit res \<times> cstate" where
  "LimitDisk out lim s =
     then_do (in_world (perform out (QuotaSetLimits (RootFSPath (fst s)) lim)) s) (\<lambda>_ s.
       (Ok (), upd_limits (\<lambda>l. l\<lparr>lim_Disk := Some lim\<rparr>) s))"

definition CurrentDiskLimits :: "outside \<Rightarrow> cstate \<Rightarrow> disk_limits res \<times> cstate" where
  "CurrentDiskLimits out s =
     (let p = RootFSPath (fst s); lim = o_disk_limits out (trace (snd (snd s))) p in
      then_do (in_world (write_kernel out (QuotaGetLimits p)) s) (\<lambda>_ s. (Ok lim, s)))"

definition cgroup_set :: "outside \<Rightarrow> string \<Rightarrow> string \<Rightarrow> string \<Rightarrow> cstate \<Rightarrow> unit res \<times> cstate" where
  "cgroup_set out subsystem nm val s = in_reader (Cgroups_Set out (c_cgroups (fst s)) subsystem nm val) s"

definition cgroup_get :: "outside \<Rightarrow> string \<Rightarrow> string \<Rightarrow> cstate \<Rightarrow> string res \<times> cstate" where
  "cgroup_get out subsystem nm s = in_reader (Cgroups_Get out (c_cgroups (fst s)) subsystem nm) s"

text \<open>The first two writes may fail without consequence.\<close>

definition LimitMemory :: "outside \<Rightarrow> memory_limits \<Rightarrow> cstate \<Rightarrow> unit res \<times> cstate" where
  "LimitMemory out lim s =
     then_do (Oom_Watch out s) (\<lambda>_ s.
     let limit = show_word (ml_LimitInBytes lim);
         s = snd (cgroup_set out ''memory'' ''memory.limit_in_bytes'' limit s);
         s = snd (cgroup_set out ''memory'' ''memory.memsw.limit_in_bytes'' limit s) in
     then_do (cgroup_set out ''memory'' ''memory.limit_in_bytes'' limit s) (\<lambda>_ s.
     (Ok (), upd_limits (\<lambda>l. l\<lparr>lim_Memory := Some lim\<rparr>) s)))"

definition CurrentMemoryLimits :: "outside \<Rightarrow> cstate \<Rightarrow> memory_limits res \<times> cstate" where
  "CurrentMemoryLimits out s =
     then_do (cgroup_get out ''memory'' ''memory.limit_in_bytes'' s) (\<lambda>limitInBytes s.
     then_do (parse_uint64 limitInBytes, s) (\<lambda>n s. (Ok \<lparr>ml_LimitInBytes = n\<rparr>, s)))"

definition LimitCPU :: "outside \<Rightarrow> cpu_limits \<Rightarrow> cstate \<Rightarrow> unit res \<times> cstate" where
  "LimitCPU out lim s =
     then_do (cgroup_set out ''cpu'' ''cpu.shares'' (show_word (cl_LimitInShares lim)) s) (\<lambda>_ s.
       (Ok (), upd_limits (\<lambda>l. l\<lparr>lim_CPU := Some lim\<rparr>) s))"

definition CurrentCPULimits :: "outside \<Rightarrow> cstate \<Rightarrow> cpu_limits res \<times> cstate" where
  "CurrentCPULimits out s =
     then_do (cgroup_get out ''cpu'' ''cpu.shares'' s) (\<lambda>actualLimitInShares s.
     then_do (parse_uint64 actualLimitInShares, s) (\<lambda>n s. (Ok \<lparr>cl_LimitInShares = n\<rparr>, s)))"

section \<open>Metrics\<close>

record metrics =
  m_MemoryStat :: memory_stat
  m_CPUStat :: cpu_stat
  m_DiskStat :: disk_stat
  m_NetworkStat :: network_stat

text \<open>
  An error of the network statistics is only logged; what the container receives is what the host
  side of its interface sends.
\<close>

definition Container_Metrics :: "outside \<Rightarrow> cstate \<Rightarrow> metrics res \<times> cstate" where
  "Container_Metrics out s =
     (let p = RootFSPath (fst s); diskStat = o_disk_usage out (trace (snd (snd s))) p in
      then_do (in_world (write_kernel out (QuotaGetUsage p)) s) (\<lambda>_ s.
      then_do (cgroup_get out ''cpuacct'' ''cpuacct.stat'' s) (\<lambda>cpuStat s.
      then_do (cgroup_get out ''cpuacct'' ''cpuacct.usage'' s) (\<lambda>cpuUsage s.
      then_do (cgroup_get out ''memory'' ''memory.stat'' s) (\<lambda>memoryStat s.
      let (r, s) = in_world (Link_Statistics out (c_netIface (fst s))) s;
          host = (case r of Ok st \<Rightarrow> st | _ \<Rightarrow> \<lparr>ns_RxBytes = 0, ns_TxBytes = 0\<rparr>) in
      (Ok \<lparr>m_MemoryStat = parseMemoryStat memoryStat, m_CPUStat = parseCPUStat cpuUsage cpuStat,
           m_DiskStat = diskStat, m_NetworkStat = \<lparr>ns_RxBytes = ns_TxBytes host, ns_TxBytes = ns_RxBytes host\<rparr>\<rparr>, s))))))"

section \<open>Running processes\<close>

record resource_limits =
  rl_As :: "uint64 option"
  rl_Core :: "uint64 option"
  rl_Cpu :: "uint64 option"
  rl_Data :: "uint64 option"
  rl_Fsize :: "uint64 option"
  rl_Locks :: "uint64 option"
  rl_Memlock :: "uint64 option"
  rl_Msgqueue :: "uint64 option"
  rl_Nice :: "uint64 option"
  rl_Nofile :: "uint64 option"
  rl_Nproc :: "uint64 option"
  rl_Rss :: "uint64 option"
  rl_Rtprio :: "uint64 option"
  rl_Sigpending :: "uint64 option"
  rl_Stack :: "uint64 option"

fun rlimit_var :: "string \<times> uint64 option \<Rightarrow> string list" where
  "rlimit_var (name, None) = []"
| "rlimit_var (name, Some v) = [''RLIMIT_'' @ name @ ''='' @ show_word v]"

definition setRLimitsEnv :: "resource_limits \<Rightarrow> cmd \<Rightarrow> cmd" where
  "setRLimitsEnv r c =
     c\<lparr>cmd_env := cmd_env c @ concat (map rlimit_var
        [(''AS'', rl_As r), (''CORE'', rl_Core r), (''CPU'', rl_Cpu r), (''DATA'', rl_Data r), (''FSIZE'', rl_Fsize r),
         (''LOCKS'', rl_Locks r), (''MEMLOCK'', rl_Memlock r), (''MSGQUEUE'', rl_Msgqueue r), (''NICE'', rl_Nice r),
         (''NOFILE'', rl_Nofile r), (''NPROC'', rl_Nproc r), (''RSS'', rl_Rss r), (''RTPRIO'', rl_Rtprio r),
         (''SIGPENDING'', rl_Sigpending r), (''STACK'', rl_Stack r)])\<rparr>"

record process_spec =
  ps_Path :: string
  ps_Args :: "string list"
  ps_Env :: "string list"
  ps_Dir :: string
  ps_User :: string
  ps_TTY :: "tty_spec option"
  ps_Limits :: resource_limits

text \<open>Before version 1.0.0 the process identifier was kept in a file; the timeout is ten seconds.\<close>

definition processSignaller :: "outside \<Rightarrow> container \<Rightarrow> signaller" where
  "processSignaller out c =
     (if o_missing_version out (cs_Version (c_spec c)) then NamespacedSignaller (cs_ContainerPath (c_spec c)) 100
      else LinkSignaller)"

definition run_pidfile :: "string \<Rightarrow> uint32 \<Rightarrow> string" where
  "run_pidfile containerPath processID = path_Join [containerPath, ''processes'', show_word processID @ ''.pid'']"

definition wsh_cmd :: "outside \<Rightarrow> container \<Rightarrow> process_spec \<Rightarrow> env \<Rightarrow> uint32 \<Rightarrow> cmd" where
  "wsh_cmd out c ps processEnv processID =
     (let cp = cs_ContainerPath (c_spec c) in
      setRLimitsEnv (ps_Limits ps)
        (exec_Command (path_Join [cp, ''bin'', ''wsh''])
           ([''--socket'', path_Join [cp, ''run'', ''wshd.sock''], ''--readSignals'', ''--user'', ps_User ps]
            @ concat (map (\<lambda>e. [''--env'', e]) (Env_Array processEnv))
            @ (if ps_Dir ps = '''' then [] else [''--dir'', ps_Dir ps])
            @ (if o_missing_version out (cs_Version (c_spec c)) then [''--pidfile'', run_pidfile cp processID] else [])
            @ ps_Path ps # ps_Args ps)))"

definition Container_Run :: "outside \<Rightarrow> process_spec \<Rightarrow> process_io \<Rightarrow> cstate \<Rightarrow> string res \<times> cstate" where
  "Container_Run out ps io s =
     (if ps_User ps = '''' then (Err (ErrorNew ''A User for the process to run as must be specified.''), s)
      else
        then_do (NewEnv (ps_Env ps), s) (\<lambda>specEnv s.
        then_do (NewEnv (gs_Env (cs_Spec (c_spec (fst s)))), s) (\<lambda>procEnv s. case s of (c, pp, w) \<Rightarrow>
        let (processID, current) = ProcessIDPool_Next (c_currentProcessID c);
            c = c\<lparr>c_currentProcessID := current\<rparr>;
            wsh = wsh_cmd out c ps (Env_Merge procEnv specEnv) processID;
            (r, tr, w) = Tracker_Run out (show_word processID) wsh io (ps_TTY ps) (processSignaller out c) (c_tracker c, w) in
        (r, c\<lparr>c_tracker := tr\<rparr>, pp, w))))"

definition Container_Attach :: "string \<Rightarrow> process_io \<Rightarrow> cstate \<Rightarrow> string res \<times> cstate" where
  "Container_Attach processID io = (\<lambda>(c, pp, w).
     let (r, tr) = Tracker_Attach processID io (c_tracker c) in (r, c\<lparr>c_tracker := tr\<rparr>, pp, w))"

section \<open>Streaming\<close>

text \<open>
  The process identifier of the container's daemon, which \<open>start.sh\<close> left in a file.
\<close>

definition wshd_pid :: "outside \<Rightarrow> cstate \<Rightarrow> int res \<times> cstate" where
  "wshd_pid out s =
     (let pidPath = path_Join [cs_ContainerPath (c_spec (fst s)), ''run'', ''wshd.pid''] in
      then_do (in_world (write_kernel out (OpenFile pidPath)) s) (\<lambda>_ s.
      then_do (in_world (read_kernel out (ReadFile pidPath) pidPath) s) (\<lambda>content s.
      case sscanf_int content of
        None \<Rightarrow> (Err (External ''expected integer''), s)
      | Some pid \<Rightarrow> (Ok pid, s))))"

definition tar_cmd :: "container \<Rightarrow> int \<Rightarrow> string \<Rightarrow> string list \<Rightarrow> cmd" where
  "tar_cmd c pid user rest =
     (let cp = cs_ContainerPath (c_spec c) in
      exec_Command (path_Join [cp, ''bin'', ''nstar''])
        ([path_Join [cp, ''bin'', ''tar''], show_int pid, if user = '''' then ''root'' else user] @ rest))"

definition StreamIn :: "outside \<Rightarrow> string \<Rightarrow> string \<Rightarrow> cstate \<Rightarrow> unit res \<times> cstate" where
  "StreamIn out dst user s =
     then_do (wshd_pid out s) (\<lambda>pid s.
     let tar = tar_cmd (fst s) pid user [dst]; buf = o_stdout out (trace (snd (snd s))) tar in
     case in_world (run_cmd out tar) s of
       (Err e, s) \<Rightarrow> (Err (ErrorfTail ''error streaming in: '' e (''. Output: '' @ buf)), s)
     | r \<Rightarrow> r)"

definition stream_out_args :: "string \<Rightarrow> string list" where
  "stream_out_args src =
     (if has_suffix src [slash] then [src, ''.''] else [filepath_Dir src, filepath_Base src])"

definition StreamOut :: "outside \<Rightarrow> string \<Rightarrow> string \<Rightarrow> cstate \<Rightarrow> unit res \<times> cstate" where
  "StreamOut out src user s =
     then_do (wshd_pid out s) (\<lambda>pid s.
     let tar = tar_cmd (fst s) pid user (stream_out_args src) in
     then_do (in_world (write_kernel out OpenPipe) s) (\<lambda>_ s.
     then_do (in_world (perform out (Background tar)) s) (\<lambda>_ s.
     (Ok (), snd (in_world (perform out (Wait tar)) s)))))"

section \<open>Network rules\<close>

definition net_in_cmd :: "outside \<Rightarrow> container \<Rightarrow> port \<Rightarrow> port \<Rightarrow> cmd" where
  "net_in_cmd out c hostPort containerPort =
     (exec_Command (path_Join [cs_ContainerPath (c_spec c), ''net.sh'']) [''in''])
       \<lparr>cmd_env := [''HOST_PORT='' @ show_word hostPort, ''CONTAINER_PORT='' @ show_word containerPort,
                    ''PATH='' @ o_getenv out ''PATH'']\<rparr>"

text \<open>The host port: the one asked for, or the next of the pool, which the container then owns.\<close>

definition host_port :: "port \<Rightarrow> cstate \<Rightarrow> port res \<times> cstate" where
  "host_port hostPort = (\<lambda>(c, pp, w).
     if hostPort = 0 then
       (case PortPool_Acquire pp of
          (Ok p, pp) \<Rightarrow> (Ok p, upd_spec (\<lambda>sp. sp\<lparr>cs_Resources := AddPort p (cs_Resources sp)\<rparr>) (c, pp, w))
        | (Err e, pp) \<Rightarrow> (Err e, c, pp, w)
        | (Panic m, pp) \<Rightarrow> (Panic m, c, pp, w))
     else (Ok hostPort, c, pp, w))"

definition NetIn :: "outside \<Rightarrow> port \<Rightarrow> port \<Rightarrow> cstate \<Rightarrow> (port \<times> port) res \<times> cstate" where
  "NetIn out hostPort containerPort s =
     then_do (host_port hostPort s) (\<lambda>hostPort s.
     let containerPort = (if containerPort = 0 then hostPort else containerPort) in
     then_do (in_world (run_cmd out (net_in_cmd out (fst s) hostPort containerPort)) s) (\<lambda>_ s.
     (Ok (hostPort, containerPort),
      upd_spec (\<lambda>sp. sp\<lparr>cs_NetIns := cs_NetIns sp @ [\<lparr>ni_HostPort = hostPort, ni_ContainerPort = containerPort\<rparr>]\<rparr>) s)))"

definition NetOut :: "outside \<Rightarrow> net_out_rule \<Rightarrow> cstate \<Rightarrow> unit res \<times> cstate" where
  "NetOut out r s =
     then_do (in_world (Filter_NetOut out (c_filter (fst s)) r) s) (\<lambda>_ s.
       (Ok (), upd_spec (\<lambda>sp. sp\<lparr>cs_NetOuts := cs_NetOuts sp @ [r]\<rparr>) s))"

section \<open>Snapshots\<close>

text \<open>
  \<open>strconv.Atoi\<close> and the conversion to \<open>uint32\<close>; an identifier that is no number panics. The
  identifiers come from a Go map, in any order.
\<close>

definition strconv_Atoi :: "string \<Rightarrow> int option" where
  "strconv_Atoi s =
     (let neg = (s \<noteq> [] \<and> hd s = CHR ''-'');
          ds = (if s \<noteq> [] \<and> hd s \<in> {CHR ''-'', CHR ''+''} then tl s else s)
      in case parse_uint 64 ds of
           None \<Rightarrow> None
         | Some n \<Rightarrow>
             let i = (if neg then - int n else int n) in
             if - (2 ^ 63) \<le> i \<and> i < 2 ^ 63 then Some i else None)"

definition snapshot_process :: "string \<Rightarrow> active_process option" where
  "snapshot_process i =
     (case strconv_Atoi i of None \<Rightarrow> None | Some n \<Rightarrow> Some \<lparr>ap_ID = of_int n, ap_TTY = False\<rparr>)"

definition Container_Snapshot :: "container \<Rightarrow> snapshot res" where
  "Container_Snapshot c =
     (let sp = c_spec c; ps = map snapshot_process (ActiveProcesses (c_tracker c)) in
      if None \<in> set ps then Panic ''process id not a number''
      else Ok
        \<lparr>sn_ID = Container_ID c, sn_Handle = Handle c, sn_RootFSPath = RootFSPath c,
         sn_GraceTime = gs_GraceTime (cs_Spec sp), sn_State = State c, sn_Events = Events c,
         sn_Limits = \<lparr>lim_Memory = lim_Memory (cs_Limits sp), lim_Disk = lim_Disk (cs_Limits sp),
                      lim_Bandwidth = lim_Bandwidth (cs_Limits sp), lim_CPU = lim_CPU (cs_Limits sp)\<rparr>,
         sn_Resources = \<lparr>rsn_RootUID = res_RootUID (cs_Resources sp), rsn_Network = res_Network (cs_Resources sp),
                         rsn_Bridge = res_Bridge (cs_Resources sp), rsn_Ports = res_Ports (cs_Resources sp)\<rparr>,
         sn_Processes = map the ps, sn_DefaultProcessSignaller = True,
         sn_NetIns = cs_NetIns sp, sn_NetOuts = cs_NetOuts sp, sn_Properties = Properties c,
         sn_EnvVars = gs_Env (cs_Spec sp)\<rparr>)"

definition restore_process :: "signaller \<Rightarrow> active_process \<Rightarrow> container \<Rightarrow> container" where
  "restore_process sg p c =
     c\<lparr>c_currentProcessID := ProcessIDPool_Restore (ap_ID p) (c_currentProcessID c),
       c_tracker := Tracker_Restore (show_word (ap_ID p)) sg (c_tracker c)\<rparr>"

definition Container_Restore :: "outside \<Rightarrow> container_spec \<Rightarrow> cstate \<Rightarrow> unit res \<times> cstate" where
  "Container_Restore out sn s =
     (let s = setState (cs_State sn) s;
          s = upd_spec (\<lambda>sp. sp\<lparr>cs_Spec := (cs_Spec sp)\<lparr>gs_Env := gs_Env (cs_Spec sn)\<rparr>\<rparr>) s;
          s = fold registerEvent (cs_Events sn) s in
      then_do (case lim_Memory (cs_Limits sn) of None \<Rightarrow> (Ok (), s) | Some lim \<Rightarrow> LimitMemory out lim s) (\<lambda>_ s.
      let sg = processSignaller out (fst s);
          s = (fold (restore_process sg) (cs_Processes sn) (fst s), snd s) in
      then_do (setup_iptables out (cs_ID sn) (cs_Resources sn) s) (\<lambda>_ s.
      then_do (do_all (\<lambda>i s. then_do (NetIn out (ni_HostPort i) (ni_ContainerPort i) s) (\<lambda>_ s. (Ok (), s))) (cs_NetIns sn) s) (\<lambda>_ s.
      do_all (NetOut out) (cs_NetOuts sn) s))))"

section \<open>Information\<close>

record container_info =
  ci_State :: string
  ci_Events :: "string list"
  ci_HostIP :: string
  ci_ContainerIP :: string
  ci_ExternalIP :: string
  ci_ContainerPath :: string
  ci_ProcessIDs :: "string list"
  ci_Properties :: properties
  ci_MappedPorts :: "(port \<times> port) list"

definition Container_Info :: "container \<Rightarrow> container_info res" where
  "Container_Info c =
     (case res_Network (cs_Resources (c_spec c)) of
        None \<Rightarrow> Panic ''nil pointer dereference''
      | Some n \<Rightarrow>
          res_bind (GatewayIP (Subnet n)) (\<lambda>gw.
          Ok \<lparr>ci_State = State c, ci_Events = Events c, ci_HostIP = IP_String gw, ci_ContainerIP = IP_String (IP n),
              ci_ExternalIP = IP_String (res_ExternalIP (cs_Resources (c_spec c))),
              ci_ContainerPath = cs_ContainerPath (c_spec c), ci_ProcessIDs = ActiveProcesses (c_tracker c),
              ci_Properties = Properties c,
              ci_MappedPorts = map (\<lambda>i. (ni_HostPort i, ni_ContainerPort i)) (cs_NetIns (c_spec c))\<rparr>))"

end
