(* ===== verification/Frame.thy ===== *)
theory Frame
  imports World
begin

text \<open>
  What the sequencing operators keep. A frame is a reflexive and transitive relation between the
  state before and the state after a call; a method built from steps that are in the frame is in the
  frame. The containers, the resource pool and the sequences of external calls each have one.
\<close>

section \<open>Inversion\<close>

lemma then_do_Ok_iff: "then_do r f = (Ok x, t) \<longleftrightarrow> (\<exists>y u. r = (Ok y, u) \<and> f y u = (Ok x, t))"
  by (cases r; cases "fst r") auto

lemma then_do_OkE:
  assumes "then_do r f = (Ok x, t)"
  obtains y u where "r = (Ok y, u)" and "f y u = (Ok x, t)"
  using assms by (auto simp: then_do_Ok_iff)

lemma then_do_Err_iff:
  "then_do r f = (Err e, t) \<longleftrightarrow> r = (Err e, t) \<or> (\<exists>y u. r = (Ok y, u) \<and> f y u = (Err e, t))"
  by (cases r; cases "fst r") auto

lemma wrap_error_Ok_iff: "wrap_error p r = (Ok x, t) \<longleftrightarrow> r = (Ok x, t)"
  by (cases r; cases "fst r") auto

lemma on_error_Ok_iff: "on_error undo r = (Ok x, t) \<longleftrightarrow> r = (Ok x, t)"
  by (cases r; cases "fst r") auto

lemmas ok_iffs = then_do_Ok_iff wrap_error_Ok_iff on_error_Ok_iff

section \<open>Frames\<close>

locale frame =
  fixes R :: "'s \<Rightarrow> 's \<Rightarrow> bool"
  assumes step_refl: "R s s"
    and step_trans: "R s t \<Longrightarrow> R t u \<Longrightarrow> R s u"
begin

lemma step_then_do:
  assumes "R s (snd r)" and "\<And>x s'. R s' (snd (f x s'))"
  shows "R s (snd (then_do r f))"
proof -
  obtain a t where r: "r = (a, t)" by (cases r)
  then show ?thesis using assms(1) by (cases a) (simp_all add: step_trans [OF _ assms(2)])
qed

lemma step_pair: "R s t \<Longrightarrow> R s (snd (x, t))"
  by simp

lemma step_wrap_error: "R s (snd r) \<Longrightarrow> R s (snd (wrap_error p r))"
  by (cases r; cases "fst r") auto

lemma step_on_error:
  assumes "R s (snd r)" and "\<And>s'. R s' (undo s')"
  shows "R s (snd (on_error undo r))"
proof -
  obtain a t where r: "r = (a, t)" by (cases r)
  then show ?thesis using assms(1) by (cases a) (simp_all add: step_trans [OF _ assms(2)])
qed

lemma step_do_all: "(\<And>x s. R s (snd (f x s))) \<Longrightarrow> R s (snd (do_all f xs s))"
proof (induction xs arbitrary: s)
  case (Cons x xs)
  then have "R s (snd (then_do (f x s) (\<lambda>_. do_all f xs)))" by (intro step_then_do) auto
  then show ?case by simp
qed (simp add: step_refl)

lemma step_fold: "(\<And>x s. R s (f x s)) \<Longrightarrow> R s (fold f xs s)"
proof (induction xs arbitrary: s)
  case (Cons x xs)
  have "R s (f x s)" "R (f x s) (fold f xs (f x s))" using Cons by blast+
  then show ?case by (simp add: step_trans)
qed (simp add: step_refl)

end

section \<open>External calls\<close>

text \<open>
  The frame of a method that makes only external calls of a certain kind: the trace grows by events
  that satisfy \<open>P\<close>.
\<close>

definition emits :: "(event \<Rightarrow> bool) \<Rightarrow> world \<Rightarrow> world \<Rightarrow> bool" where
  "emits P w w' \<longleftrightarrow> (\<exists>es. trace w' = trace w @ es \<and> list_all P es)"

interpretation calls: frame "emits P" for P
proof
  show "emits P w w" for w by (simp add: emits_def)
  show "emits P w v" if "emits P w u" "emits P u v" for w u v using that by (auto simp: emits_def)
qed

lemma emits_perform: "P e \<Longrightarrow> emits P w (snd (perform out e w))"
  by (simp add: emits_def)

lemma emits_run_cmd: "P (Run c) \<Longrightarrow> emits P w (snd (run_cmd out c w))"
  by (simp add: emits_def)

lemma emits_files:
  "P (ReadFile p) \<Longrightarrow> emits P w (snd (read_file out p w))"
  "P (WriteFile p s) \<Longrightarrow> emits P w (snd (write_file out p s w))"
  by (simp_all add: emits_def)

lemma emits_kernel:
  "P e \<Longrightarrow> emits P w (snd (read_kernel out e p w))" "P e \<Longrightarrow> emits P w (snd (write_kernel out e w))"
  by (simp_all add: emits_def)

lemmas emits_intros = calls.step_then_do calls.step_pair calls.step_wrap_error calls.step_on_error calls.step_do_all
  calls.step_fold calls.step_refl emits_perform emits_run_cmd emits_files emits_kernel

end
