(* ===== verification/Container_Props.thy ===== *)
theory Container_Props
  imports Container Frame
begin

text \<open>
  Properties of containers: what every method keeps (the identity of the container and the ports it
  shares with the pool), fresh process identifiers, restoring from a snapshot, the out-of-memory
  watcher, and the signalling of old containers.
\<close>

section \<open>What every method keeps\<close>

definition identity :: "container \<Rightarrow> string \<times> string \<times> string \<times> string \<times> int \<times> network option \<times> string" where
  "identity c =
     (cs_ID (c_spec c), gs_Handle (cs_Spec (c_spec c)), cs_ContainerPath (c_spec c), cs_ContainerRootFSPath (c_spec c),
      res_RootUID (cs_Resources (c_spec c)), res_Network (cs_Resources (c_spec c)), res_Bridge (cs_Resources (c_spec c)))"

definition container_ports :: "container \<Rightarrow> port list" where
  "container_ports c = res_Ports (cs_Resources (c_spec c))"

text \<open>
  The container stays the one it is, and a port leaves the pool only into the container's own list:
  what the pool hands out and what the container owns add up to the same ports.
\<close>

definition keeps :: "cstate \<Rightarrow> cstate \<Rightarrow> bool" where
  "keeps s s' \<longleftrightarrow>
     identity (fst s') = identity (fst s)
   \<and> (\<exists>taken. pp_pool (fst (snd s)) = taken @ pp_pool (fst (snd s'))
        \<and> container_ports (fst s') = container_ports (fst s) @ taken)
   \<and> pp_start (fst (snd s')) = pp_start (fst (snd s)) \<and> pp_size (fst (snd s')) = pp_size (fst (snd s))"

named_theorems keeps_intros \<open>methods that keep the container's identity and its ports\<close>

interpretation kept: frame keeps
  by unfold_locales (auto simp: keeps_def)

lemmas keeps_refl [keeps_intros] = kept.step_refl
lemmas keeps_trans = kept.step_trans
lemmas keeps_then_do [keeps_intros] = kept.step_then_do
lemmas keeps_steps [keeps_intros] = kept.step_pair kept.step_wrap_error kept.step_do_all

lemma keeps_in_world [keeps_intros]: "keeps s (snd (in_world f s))"
  by (simp add: in_world_def keeps_def split: prod.splits)

lemma keeps_in_reader [keeps_intros]: "keeps s (snd (in_reader f s))"
  by (simp add: in_reader_def keeps_def identity_def container_ports_def split: prod.splits)

lemma keeps_upd_spec [keeps_intros]:
  assumes "\<And>sp. cs_ID (f sp) = cs_ID sp \<and> gs_Handle (cs_Spec (f sp)) = gs_Handle (cs_Spec sp)
      \<and> cs_ContainerPath (f sp) = cs_ContainerPath sp \<and> cs_ContainerRootFSPath (f sp) = cs_ContainerRootFSPath sp
      \<and> cs_Resources (f sp) = cs_Resources sp"
  shows "keeps s (upd_spec f s)"
  using assms by (simp add: upd_spec_def keeps_def identity_def container_ports_def split: prod.splits)

lemma keeps_upd_limits [keeps_intros]: "keeps s (upd_limits f s)"
  unfolding upd_limits_def by (rule keeps_upd_spec) simp

lemma keeps_upd_properties [keeps_intros]: "keeps s (upd_properties f s)"
  unfolding upd_properties_def by (rule keeps_upd_spec) simp

lemma keeps_setState [keeps_intros]: "keeps s (setState st s)"
  unfolding setState_def by (rule keeps_upd_spec) simp

lemma keeps_registerEvent [keeps_intros]: "keeps s (registerEvent ev s)"
  unfolding registerEvent_def by (rule keeps_upd_spec) simp

lemma keeps_registerEvents: "keeps s (fold registerEvent evs s)"
  by (rule kept.step_fold) (rule keeps_registerEvent)

lemma keeps_host_port [keeps_intros]: "keeps s (snd (host_port h s))"
  by (auto simp: host_port_def keeps_def identity_def container_ports_def upd_spec_def AddPort_def PortPool_Acquire_def
      split: prod.splits list.splits)

lemma keeps_NetIn [keeps_intros]: "keeps s (snd (NetIn out h p s))"
  unfolding NetIn_def Let_def by (intro keeps_intros) simp

lemma keeps_NetOut [keeps_intros]: "keeps s (snd (NetOut out r s))"
  unfolding NetOut_def by (intro keeps_intros) simp

lemma keeps_cgroup_set [keeps_intros]: "keeps s (snd (cgroup_set out a b v s))"
  unfolding cgroup_set_def by (rule keeps_in_reader)

lemma keeps_cgroup_get [keeps_intros]: "keeps s (snd (cgroup_get out a b s))"
  unfolding cgroup_get_def by (rule keeps_in_reader)

lemma keeps_setup_iptables [keeps_intros]: "keeps s (snd (setup_iptables out i r s))"
  by (auto simp: setup_iptables_def intro: keeps_intros split: option.splits)

lemma keeps_Start [keeps_intros]: "keeps s (snd (Container_Start out s))"
  unfolding Container_Start_def by (intro keeps_intros)

lemma keeps_Unwatch [keeps_intros]: "keeps s (Oom_Unwatch out s)"
  by (simp add: Oom_Unwatch_def keeps_def split: prod.splits option.splits)

lemma keeps_Cleanup [keeps_intros]: "keeps s (snd (Container_Cleanup out s))"
  by (simp add: Container_Cleanup_def keeps_Unwatch)

lemma keeps_Stop [keeps_intros]: "keeps s (snd (Container_Stop out kill s))"
  unfolding Container_Stop_def by (intro keeps_intros)

lemma keeps_Watch [keeps_intros]: "keeps s (snd (Oom_Watch out s))"
proof (cases "oom_cmd (c_oom (fst s))")
  case None
  show ?thesis
    unfolding Oom_Watch_def using None
    by (simp, intro keeps_intros)
      (auto simp: Let_def keeps_def identity_def container_ports_def split: prod.splits res.splits)
qed (simp add: Oom_Watch_def keeps_refl)

lemma keeps_LimitMemory [keeps_intros]: "keeps s (snd (LimitMemory out lim s))"
proof -
  have "keeps t (snd (cgroup_set out a b v (snd (cgroup_set out a' b' v' (snd (cgroup_set out a'' b'' v'' t))))))" for t a b v a' b' v' a'' b'' v''
    by (meson keeps_cgroup_set keeps_trans)
  then show ?thesis
    unfolding LimitMemory_def Let_def
    by (intro keeps_intros) (simp_all add: keeps_upd_limits)
qed

lemma keeps_restore_processes: "keeps s (fold (restore_process sg) ps (fst s), snd s)"
proof (induction ps arbitrary: s)
  case (Cons p ps)
  have "keeps s (restore_process sg p (fst s), snd s)"
    by (simp add: keeps_def restore_process_def identity_def container_ports_def)
  with Cons [of "(restore_process sg p (fst s), snd s)"] show ?case by (auto intro: keeps_trans)
qed (simp add: keeps_refl)

lemma keeps_Restore [keeps_intros]: "keeps s (snd (Container_Restore out sn s))"
proof -
  define t where "t = fold registerEvent (cs_Events sn)
    (upd_spec (\<lambda>sp. sp\<lparr>cs_Spec := (cs_Spec sp)\<lparr>gs_Env := gs_Env (cs_Spec sn)\<rparr>\<rparr>) (setState (cs_State sn) s))"
  have t: "keeps s t"
    unfolding t_def
    by (rule keeps_trans [OF keeps_trans [OF keeps_setState keeps_upd_spec] keeps_registerEvents]) simp
  have "keeps t (snd (Container_Restore out sn s))"
    unfolding Container_Restore_def Let_def t_def [symmetric]
  proof (rule keeps_then_do)
    show "keeps t (snd (case lim_Memory (cs_Limits sn) of None \<Rightarrow> (Ok (), t) | Some lim \<Rightarrow> LimitMemory out lim t))"
      by (cases "lim_Memory (cs_Limits sn)") (simp_all add: keeps_refl keeps_LimitMemory)
  next
    fix s' :: cstate
    let ?r = "\<lambda>s. (fold (restore_process (processSignaller out (fst s'))) (cs_Processes sn) (fst s), snd s)"
    have "keeps (?r s') (snd (then_do (setup_iptables out (cs_ID sn) (cs_Resources sn) (?r s')) (\<lambda>_ s.
        then_do (do_all (\<lambda>i s. then_do (NetIn out (ni_HostPort i) (ni_ContainerPort i) s) (\<lambda>_ s. (Ok (), s))) (cs_NetIns sn) s) (\<lambda>_ s.
        do_all (NetOut out) (cs_NetOuts sn) s))))"
      by (intro keeps_intros)
    then show "keeps s' (snd (then_do (setup_iptables out (cs_ID sn) (cs_Resources sn) (?r s')) (\<lambda>_ s.
        then_do (do_all (\<lambda>i s. then_do (NetIn out (ni_HostPort i) (ni_ContainerPort i) s) (\<lambda>_ s. (Ok (), s))) (cs_NetIns sn) s) (\<lambda>_ s.
        do_all (NetOut out) (cs_NetOuts sn) s))))"
      using keeps_trans [OF keeps_restore_processes] by blast
  qed
  with t show ?thesis by (rule keeps_trans)
qed

lemma keeps_Run [keeps_intros]: "keeps s (snd (Container_Run out ps io s))"
proof (cases "ps_User ps = ''''")
  case False
  then show ?thesis
    unfolding Container_Run_def
    by (simp, intro keeps_intros)
      (auto simp: Let_def keeps_def identity_def container_ports_def split: prod.splits)
qed (simp add: Container_Run_def keeps_refl)

lemma keeps_tracker: "keeps (c, pp, w) (c\<lparr>c_tracker := t\<rparr>, pp, w')"
  by (simp add: keeps_def identity_def container_ports_def)

lemma keeps_oom: "keeps s (Container_oom out cmd s)"
proof -
  obtain c pp w where s: "s = (c, pp, w)" by (cases s)
  let ?c = "c\<lparr>c_oom := \<lparr>oom_cmd = None, oom_waiting = remove1 cmd (oom_waiting (c_oom c))\<rparr>\<rparr>"
  obtain r w' where r: "perform out (Wait cmd) w = (r, w')" by (cases "perform out (Wait cmd) w")
  have k: "keeps s (?c, pp, w')" by (simp add: s keeps_def identity_def container_ports_def)
  have "keeps (?c, pp, w') (snd (Container_Stop out True (registerEvent ''out of memory'' (?c, pp, w'))))"
    by (rule keeps_trans [OF keeps_registerEvent keeps_Stop])
  then show ?thesis using k by (cases r) (auto simp: s Container_oom_def r intro: keeps_trans)
qed

text \<open>Everything that happens to a container: its methods, and the steps of its goroutines.\<close>

inductive container_step :: "outside \<Rightarrow> cstate \<Rightarrow> cstate \<Rightarrow> bool" for out where
  start: "container_step out s (snd (Container_Start out s))"
| stop: "container_step out s (snd (Container_Stop out kill s))"
| cleanup: "container_step out s (snd (Container_Cleanup out s))"
| oom: "cmd \<in> set (oom_waiting (c_oom (fst s))) \<Longrightarrow> container_step out s (Container_oom out cmd s)"
| limit_bandwidth: "container_step out s (snd (LimitBandwidth out bl s))"
| limit_disk: "container_step out s (snd (LimitDisk out dl s))"
| limit_memory: "container_step out s (snd (LimitMemory out ml s))"
| limit_cpu: "container_step out s (snd (LimitCPU out cl s))"
| set_grace_time: "container_step out s (snd (SetGraceTime t s))"
| set_property: "container_step out s (snd (SetProperty k v s))"
| remove_property: "container_step out s (snd (RemoveProperty k s))"
| metrics: "container_step out s (snd (Container_Metrics out s))"
| run: "container_step out s (snd (Container_Run out ps io s))"
| attach: "container_step out s (snd (Container_Attach i io s))"
| stream_in: "container_step out s (snd (StreamIn out dst user s))"
| stream_out: "container_step out s (snd (StreamOut out src user s))"
| net_in: "container_step out s (snd (NetIn out h p s))"
| net_out: "container_step out s (snd (NetOut out r s))"
| restore: "container_step out s (snd (Container_Restore out sn s))"
| process: "tracker_step out (c_tracker c, w) (t, w') \<Longrightarrow> container_step out (c, pp, w) (c\<lparr>c_tracker := t\<rparr>, pp, w')"

lemma keeps_wshd_pid [keeps_intros]: "keeps s (snd (wshd_pid out s))"
  unfolding wshd_pid_def Let_def by (intro keeps_intros) (auto simp: keeps_refl split: option.splits)

lemma keeps_StreamIn [keeps_intros]: "keeps s (snd (StreamIn out dst user s))"
proof -
  have "keeps t (snd (case in_world f t of (Err e, s) \<Rightarrow> (Err (g e), s) | r \<Rightarrow> r))" for f :: "world \<Rightarrow> unit res \<times> world" and g t
    using keeps_in_world [of t f] by (cases "in_world f t"; cases "fst (in_world f t)") auto
  then show ?thesis unfolding StreamIn_def Let_def by (intro keeps_then_do keeps_wshd_pid)
qed

lemma keeps_Metrics [keeps_intros]: "keeps s (snd (Container_Metrics out s))"
proof -
  have "keeps t (snd (case in_world f t of (r, s) \<Rightarrow> (g r s, s)))" for f :: "world \<Rightarrow> 'b res \<times> world" and g :: "'b res \<Rightarrow> cstate \<Rightarrow> 'a res" and t
    using keeps_in_world [of t f] by (cases "in_world f t") auto
  then show ?thesis unfolding Container_Metrics_def Let_def by (intro keeps_intros) 
qed

lemma container_step_keeps: "container_step out s s' \<Longrightarrow> keeps s s'"
proof (induction rule: container_step.induct)
  case (limit_bandwidth s bl)
  show ?case unfolding LimitBandwidth_def by (intro keeps_intros)
next
  case (limit_disk s dl)
  show ?case unfolding LimitDisk_def by (intro keeps_intros)
next
  case (limit_cpu s cl)
  show ?case unfolding LimitCPU_def by (intro keeps_intros)
next
  case (set_grace_time s t)
  show ?case by (simp add: SetGraceTime_def keeps_def identity_def container_ports_def split: prod.splits)
next
  case (set_property s k v)
  show ?case by (simp add: SetProperty_def keeps_upd_properties)
next
  case (remove_property s k)
  show ?case by (simp add: RemoveProperty_def keeps_upd_properties keeps_refl)
next
  case (attach s i io)
  show ?case by (simp add: Container_Attach_def keeps_tracker split: prod.splits)
next
  case (stream_out s src user)
  show ?case unfolding StreamOut_def Let_def by (intro keeps_intros)
qed (intro keeps_intros keeps_oom keeps_tracker)+

section \<open>Properties\<close>

lemma container_steps_keep: "(container_step out)\<^sup>*\<^sup>* s s' \<Longrightarrow> keeps s s'"
proof (induction rule: rtranclp_induct)
  case (step t u)
  from keeps_trans [OF step(3) container_step_keeps [OF step(2)]] show ?case .
qed (rule keeps_refl)

text \<open>A container and a provider for concrete runs.\<close>

definition example_provider :: provider where
  "example_provider = \<lparr>prov_useKernelLogging = False, prov_chainPrefix = ''w-1-instance-'',
     prov_ipTablesMgr = createIPTablesManager (NewConfig ''1'' False), prov_sysconfig = NewConfig ''1'' False\<rparr>"

definition example_spec :: container_spec where
  "example_spec = \<lparr>cs_ID = ''c1'', cs_ContainerPath = ''/depot/c1'', cs_ContainerRootFSPath = ''/rootfs'',
     cs_Resources = NewResources 0 (Some \<lparr>Subnet = example_net 4, IP = [10, 254, 0, 6]\<rparr>) ''w1b-0'' [] [10, 0, 0, 1],
     cs_State = StateBorn, cs_Events = [], cs_Spec = zero_garden_spec, cs_Limits = no_limits, cs_Processes = [],
     cs_DefaultProcessSignaller = False, cs_NetIns = [], cs_NetOuts = [], cs_Version = ''1.0.0''\<rparr>"

definition example_ports :: port_pool where
  "example_ports = \<lparr>pp_start = 61000, pp_size = 2, pp_pool = [61000, 61001], pp_saved = \<lparr>Offset = 0\<rparr>\<rparr>"

text \<open>
  C13. Nothing that happens to a container, in any order and with any failures, changes which
  container it is (its id, handle, paths, user, network and bridge), and no port is lost or made up:
  the ports left in the pool together with those the container owns stay the same collection. A
  port that was acquired for a mapping that then failed is still the container's.
\<close>

theorem container_conserves_ports:
  assumes "(container_step out)\<^sup>*\<^sup>* (c, pp, w) (c', pp', w')"
  shows "identity c' = identity c
    \<and> mset (pp_pool pp') + mset (container_ports c') = mset (pp_pool pp) + mset (container_ports c)"
  using container_steps_keep [OF assms] by (auto simp: keeps_def)

theorem container_conserves_ports_witness:
  "\<exists>out c' pp' w'. NetIn out 0 8080 (ProvideContainer example_provider example_spec, example_ports, empty_world)
       = (Err (External ''net.sh''), c', pp', w')
     \<and> pp_pool pp' = [61001] \<and> {#61001#} + mset (container_ports c') = {#61000, 61001#}"
proof -
  let ?out = "quiet\<lparr>o_err := \<lambda>_ _. Some (External ''net.sh'')\<rparr>"
  let ?s = "(ProvideContainer example_provider example_spec, example_ports, empty_world)"
  obtain r c' pp' w' where r: "NetIn ?out 0 8080 ?s = (r, c', pp', w')" by (metis surj_pair)
  then have e: "r = Err (External ''net.sh'')" "pp_pool pp' = [61001]"
    by (auto simp: NetIn_def host_port_def PortPool_Acquire_def example_ports_def in_world_def run_cmd_def perform_def
        upd_spec_def Let_def split: prod.splits)
  have "container_step ?out ?s (c', pp', w')" using container_step.net_in [of ?out ?s 0 8080] r by simp
  from container_conserves_ports [OF r_into_rtranclp [of "container_step ?out", OF this]]
  have "mset (pp_pool pp') + mset (container_ports c') = {#61000, 61001#}"
    by (simp add: example_ports_def container_ports_def ProvideContainer_def NewLinuxContainer_def example_spec_def
        NewResources_def)
  then show ?thesis using r e by auto
qed

subsection \<open>Restoring\<close>

definition rules :: "container \<Rightarrow> string list \<times> net_in_spec list \<times> net_out_rule list" where
  "rules c = (cs_Events (c_spec c), cs_NetIns (c_spec c), cs_NetOuts (c_spec c))"

lemma rules_in_world [simp]: "rules (fst (snd (in_world f s))) = rules (fst s)"
  by (simp add: in_world_def split: prod.splits)

lemma rules_in_reader [simp]: "rules (fst (snd (in_reader f s))) = rules (fst s)"
  by (simp add: in_reader_def rules_def split: prod.splits)

lemma rules_limits [simp]: "rules (fst (upd_limits f s)) = rules (fst s)"
  by (simp add: upd_limits_def upd_spec_def rules_def split: prod.splits)

lemma rules_registerEvents:
  "rules (fst (fold registerEvent evs s)) = (fst (rules (fst s)) @ evs, snd (rules (fst s)))"
  by (induction evs arbitrary: s) (auto simp: registerEvent_def upd_spec_def rules_def)

lemma rules_then_do:
  "rules (fst (snd r)) = R \<Longrightarrow> (\<And>x s'. rules (fst s') = R \<Longrightarrow> rules (fst (snd (f x s'))) = R) \<Longrightarrow>
   rules (fst (snd (then_do r f))) = R"
  by (cases r; cases "fst r") auto

lemma rules_wrap_error [simp]: "rules (fst (snd (wrap_error p r))) = rules (fst (snd r))"
  by (cases r; cases "fst r") auto

lemma rules_Watch: "rules (fst (snd (Oom_Watch out s))) = rules (fst s)"
proof (cases "oom_cmd (c_oom (fst s))")
  case None
  show ?thesis
    unfolding Oom_Watch_def using None
    by (simp, intro rules_then_do) (auto simp: Let_def rules_def [of "_\<lparr>c_oom := _\<rparr>"] rules_def [symmetric] split: prod.splits res.splits)
qed (simp add: Oom_Watch_def)

lemma rules_cgroup_set [simp]: "rules (fst (snd (cgroup_set out a b v s))) = rules (fst s)"
  by (simp add: cgroup_set_def)

lemma rules_LimitMemory: "rules (fst (snd (LimitMemory out lim s))) = rules (fst s)"
  unfolding LimitMemory_def Let_def
proof (rule rules_then_do [OF rules_Watch])
  fix x :: unit and s' :: cstate
  assume s': "rules (fst s') = rules (fst s)"
  let ?v = "show_word (ml_LimitInBytes lim)"
  let ?s = "snd (cgroup_set out ''memory'' ''memory.memsw.limit_in_bytes'' ?v (snd (cgroup_set out ''memory'' ''memory.limit_in_bytes'' ?v s')))"
  show "rules (fst (snd (then_do (cgroup_set out ''memory'' ''memory.limit_in_bytes'' ?v ?s)
      (\<lambda>_ s. (Ok (), upd_limits (\<lambda>l. l\<lparr>lim_Memory := Some lim\<rparr>) s))))) = rules (fst s)"
    by (rule rules_then_do) (simp_all add: s')
qed

lemma rules_restore_processes: "rules (fold (restore_process sg) ps c) = rules c"
  by (induction ps arbitrary: c) (auto simp: restore_process_def rules_def)

lemma rules_setup_iptables: "setup_iptables out i r s = (Ok x, t) \<Longrightarrow> rules (fst t) = rules (fst s)"
  by (auto simp: setup_iptables_def split: option.splits) (metis rules_in_world snd_conv)

lemma rules_NetIn:
  assumes "NetIn out h p s = (Ok x, t)" and "h \<noteq> 0" and "p \<noteq> 0"
  shows "rules (fst t) = (fst (rules (fst s)), fst (snd (rules (fst s))) @ [\<lparr>ni_HostPort = h, ni_ContainerPort = p\<rparr>], snd (snd (rules (fst s))))"
  using assms
  by (auto simp: NetIn_def then_do_Ok_iff host_port_def in_world_def upd_spec_def rules_def Let_def split: prod.splits)

lemma rules_NetIns:
  "do_all (\<lambda>i s. then_do (NetIn out (ni_HostPort i) (ni_ContainerPort i) s) (\<lambda>_ s. (Ok (), s))) is s = (Ok x, t) \<Longrightarrow>
   \<forall>i\<in>set is. ni_HostPort i \<noteq> 0 \<and> ni_ContainerPort i \<noteq> 0 \<Longrightarrow>
   rules (fst t) = (fst (rules (fst s)), fst (snd (rules (fst s))) @ is, snd (snd (rules (fst s))))"
proof (induction "is" arbitrary: s)
  case (Cons i "is")
  then obtain y u where "NetIn out (ni_HostPort i) (ni_ContainerPort i) s = (Ok y, u)"
    and rest: "do_all (\<lambda>i s. then_do (NetIn out (ni_HostPort i) (ni_ContainerPort i) s) (\<lambda>_ s. (Ok (), s))) is u = (Ok x, t)"
    by (auto simp: then_do_Ok_iff)
  then show ?case using rules_NetIn Cons.IH [OF rest] Cons.prems by simp
qed (simp add: rules_def)

lemma rules_NetOuts:
  "do_all (NetOut out) rs s = (Ok x, t) \<Longrightarrow>
   rules (fst t) = (fst (rules (fst s)), fst (snd (rules (fst s))), snd (snd (rules (fst s))) @ rs)"
proof (induction rs arbitrary: s)
  case (Cons r rs)
  then obtain u where n: "NetOut out r s = (Ok (), u)" and rest: "do_all (NetOut out) rs u = (Ok x, t)"
    by (auto simp: then_do_Ok_iff)
  have "rules (fst u) = (fst (rules (fst s)), fst (snd (rules (fst s))), snd (snd (rules (fst s))) @ [r])"
    using n by (auto simp: NetOut_def then_do_Ok_iff in_world_def upd_spec_def rules_def split: prod.splits)
  then show ?case using Cons.IH [OF rest] by simp
qed (simp add: rules_def)

text \<open>
  Restoring registers everything twice. The backend builds the container from the restored
  specification, which already lists the events, the port mappings and the outgoing rules, and
  \<open>Restore\<close> then adds each of them again: after a restart every list is doubled, and doubled again
  by the next one.
\<close>

theorem Restore_doubles:
  assumes "Container_Restore out sn (ProvideContainer prov sn, pp, w) = (Ok (), c', pp', w')"
    and "\<forall>i\<in>set (cs_NetIns sn). ni_HostPort i \<noteq> 0 \<and> ni_ContainerPort i \<noteq> 0"
  shows "Events c' = cs_Events sn @ cs_Events sn \<and> cs_NetIns (c_spec c') = cs_NetIns sn @ cs_NetIns sn
    \<and> cs_NetOuts (c_spec c') = cs_NetOuts sn @ cs_NetOuts sn"
proof -
  let ?s = "(ProvideContainer prov sn, pp, w)"
  define t where "t = fold registerEvent (cs_Events sn)
    (upd_spec (\<lambda>sp. sp\<lparr>cs_Spec := (cs_Spec sp)\<lparr>gs_Env := gs_Env (cs_Spec sn)\<rparr>\<rparr>) (setState (cs_State sn) ?s))"
  have t: "rules (fst t) = (cs_Events sn @ cs_Events sn, cs_NetIns sn, cs_NetOuts sn)"
    unfolding t_def rules_registerEvents
    by (simp add: rules_def upd_spec_def setState_def ProvideContainer_def NewLinuxContainer_def)
  from assms(1) obtain u v x y z where
    u: "(case lim_Memory (cs_Limits sn) of None \<Rightarrow> (Ok (), t) | Some lim \<Rightarrow> LimitMemory out lim t) = (Ok x, u)"
    and v: "setup_iptables out (cs_ID sn) (cs_Resources sn)
      (fold (restore_process (processSignaller out (fst u))) (cs_Processes sn) (fst u), snd u) = (Ok y, v)"
    and z: "do_all (\<lambda>i s. then_do (NetIn out (ni_HostPort i) (ni_ContainerPort i) s) (\<lambda>_ s. (Ok (), s))) (cs_NetIns sn) v = (Ok (), z)"
    and f: "do_all (NetOut out) (cs_NetOuts sn) z = (Ok (), c', pp', w')"
    unfolding Container_Restore_def Let_def t_def [symmetric] then_do_Ok_iff by auto
  have "rules (fst u) = rules (fst t)"
    using u rules_LimitMemory [of out _ t] by (cases "lim_Memory (cs_Limits sn)") (auto, metis snd_conv)
  then have "rules (fst v) = rules (fst t)"
    using rules_setup_iptables [OF v] by (simp add: rules_restore_processes)
  then have "rules c' = (cs_Events sn @ cs_Events sn, cs_NetIns sn @ cs_NetIns sn, cs_NetOuts sn @ cs_NetOuts sn)"
    using rules_NetOuts [OF f] rules_NetIns [OF z assms(2)] t by simp
  then show ?thesis by (simp add: rules_def Events_def)
qed

lemma quiet_run [simp]: "run_cmd quiet c w = (Ok (), w\<lparr>trace := trace w @ [Run c]\<rparr>)"
  by (simp add: run_cmd_def perform_def quiet_def)

lemma quiet_do_all: "fst (do_all (run_cmd quiet) cs w) = Ok ()" "fst (do_all (run_retry quiet) cs w) = Ok ()"
  by (induction cs arbitrary: w) (auto simp: run_retry_def)

lemma fst_wrap_error_Ok: "fst r = Ok x \<Longrightarrow> fst (wrap_error p r) = Ok x"
  by (cases r) auto

lemma quiet_chains:
  "fst (MgrChain_Setup quiet ch i b ip n w) = Ok ()" "fst (MgrChain_Teardown quiet ch i w) = Ok ()"
  by (cases ch; simp add: fst_wrap_error_Ok quiet_do_all)+

lemma quiet_teardown: "fst (teardown_loop quiet chs i (Ok ()) w) = Ok ()"
proof (induction chs arbitrary: w)
  case (Cons ch chs)
  then show ?case using quiet_chains(2) [of ch i w] by (cases "MgrChain_Teardown quiet ch i w") auto
qed simp

lemma quiet_setup: "fst (setup_loop quiet ready chs i b ip n w) = Ok ()"
proof (induction chs arbitrary: ready w)
  case (Cons ch chs)
  then show ?case using quiet_chains(1) [of ch i b ip n w] by (cases "MgrChain_Setup quiet ch i b ip n w") auto
qed simp

lemma quiet_ContainerSetup: "\<exists>w'. ContainerSetup quiet chs i b ip n w = (Ok (), w')"
proof -
  obtain w1 where "ContainerTeardown quiet chs i w = (Ok (), w1)"
    using quiet_teardown [of chs i w] by (cases "teardown_loop quiet chs i (Ok ()) w") (auto simp: ContainerTeardown_def)
  then show ?thesis
    using quiet_setup [of "[]" chs i b ip n w1]
    by (cases "setup_loop quiet [] chs i b ip n w1") (auto simp: ContainerSetup_def)
qed

theorem Restore_doubles_witness:
  "\<exists>c' pp' w'. Container_Restore quiet (example_spec\<lparr>cs_Events := [''out of memory''], cs_NetIns := [\<lparr>ni_HostPort = 22, ni_ContainerPort = 22\<rparr>]\<rparr>)
      (ProvideContainer example_provider (example_spec\<lparr>cs_Events := [''out of memory''], cs_NetIns := [\<lparr>ni_HostPort = 22, ni_ContainerPort = 22\<rparr>]\<rparr>),
       example_ports, empty_world) = (Ok (), c', pp', w')
    \<and> Events c' = [''out of memory'', ''out of memory''] \<and> length (cs_NetIns (c_spec c')) = 2"
proof -
  let ?sn = "example_spec\<lparr>cs_Events := [''out of memory''], cs_NetIns := [\<lparr>ni_HostPort = 22, ni_ContainerPort = 22\<rparr>]\<rparr>"
  obtain w' where w': "ContainerSetup quiet (prov_ipTablesMgr example_provider) ''c1'' ''w1b-0'' [10, 254, 0, 6] (example_net 4) empty_world = (Ok (), w')"
    using quiet_ContainerSetup by blast
  have "is_ok (fst (Container_Restore quiet ?sn (ProvideContainer example_provider ?sn, example_ports, empty_world)))"
    by (simp add: Container_Restore_def setup_iptables_def example_spec_def NewResources_def in_world_def setState_def
        registerEvent_def upd_spec_def ProvideContainer_def NewLinuxContainer_def no_limits_def
        NetIn_def host_port_def Let_def w')
  then obtain c' pp' w' where r: "Container_Restore quiet ?sn (ProvideContainer example_provider ?sn, example_ports, empty_world) = (Ok (), c', pp', w')"
    by (cases "Container_Restore quiet ?sn (ProvideContainer example_provider ?sn, example_ports, empty_world)"; cases "fst (Container_Restore quiet ?sn (ProvideContainer example_provider ?sn, example_ports, empty_world))") auto
  from Restore_doubles [OF this] show ?thesis using r by (simp add: example_spec_def)
qed

subsection \<open>Process identifiers\<close>

text \<open>The identifiers in the table are numbers that were handed out or restored.\<close>

definition process_ids_ok :: "container \<Rightarrow> bool" where
  "process_ids_ok c \<longleftrightarrow>
     (\<forall>i\<in>set (ActiveProcesses (c_tracker c)). \<exists>n\<le>c_currentProcessID c. i = show_word n)"

lemma show_word_inject: "show_word (m :: 'a::len word) = show_word n \<longleftrightarrow> m = n"
  by (simp add: show_word_def word_unat_eq_iff)

lemma put_process_active: "set (ActiveProcesses (put_process i p t)) = insert i (set (ActiveProcesses t))"
  by (simp add: ActiveProcesses_def put_process_def dom_update)

lemma go_link_active [simp]: "ActiveProcesses (go_link i t) = ActiveProcesses t"
  by (simp add: ActiveProcesses_def go_link_def)

lemma Tracker_Run_active:
  "Tracker_Run out i c io tty sg (t, w) = (r, t', w') \<Longrightarrow> set (ActiveProcesses t') = insert i (set (ActiveProcesses t))"
  by (auto simp: Tracker_Run_def Let_def put_process_active split: prod.splits res.splits)

lemma restore_process_ids:
  assumes "process_ids_ok c"
  shows "process_ids_ok (restore_process sg p c)"
    and "c_currentProcessID c \<le> c_currentProcessID (restore_process sg p c)"
    and "ap_ID p \<le> c_currentProcessID (restore_process sg p c)"
proof -
  show "c_currentProcessID c \<le> c_currentProcessID (restore_process sg p c)"
    and p: "ap_ID p \<le> c_currentProcessID (restore_process sg p c)"
    by (auto simp: restore_process_def ProcessIDPool_Restore_def)
  then show "process_ids_ok (restore_process sg p c)"
    using assms by (auto simp: process_ids_ok_def restore_process_def Tracker_Restore_def put_process_active) (metis order_trans)+
qed

lemma restore_processes_ids: "process_ids_ok c \<Longrightarrow> process_ids_ok (fold (restore_process sg) ps c)"
  by (induction ps arbitrary: c) (auto intro: restore_process_ids)

lemma Container_Run_Ok:
  assumes "Container_Run out spec io (c, pp, w) = (Ok i, c'', pp'', w'')"
  shows "\<exists>cmd sg tr w1. Tracker_Run out (show_word (c_currentProcessID c + 1)) cmd io (ps_TTY spec) sg (c_tracker c, w) = (Ok i, tr, w1)
    \<and> c'' = c\<lparr>c_currentProcessID := c_currentProcessID c + 1, c_tracker := tr\<rparr>"
proof -
  let ?c = "c\<lparr>c_currentProcessID := c_currentProcessID c + 1\<rparr>" and ?n = "c_currentProcessID c + 1"
  have u: "ps_User spec \<noteq> ''''" using assms by (auto simp: Container_Run_def)
  with assms obtain specEnv procEnv where
    e: "NewEnv (ps_Env spec) = Ok specEnv" "NewEnv (gs_Env (cs_Spec (c_spec c))) = Ok procEnv"
    by (cases "NewEnv (ps_Env spec)"; cases "NewEnv (gs_Env (cs_Spec (c_spec c)))") (auto simp: Container_Run_def)
  obtain r tr w1 where
    t: "Tracker_Run out (show_word ?n) (wsh_cmd out ?c spec (Env_Merge procEnv specEnv) ?n) io (ps_TTY spec)
          (processSignaller out ?c) (c_tracker c, w) = (r, tr, w1)"
    by (metis surj_pair)
  have "Container_Run out spec io (c, pp, w) = (r, ?c\<lparr>c_tracker := tr\<rparr>, pp, w1)"
    using u e t by (simp add: Container_Run_def ProcessIDPool_Next_def Let_def)
  then show ?thesis using assms t by auto
qed

text \<open>
  C29. Process identifiers are never shared: a container that restores any processes, and then runs
  another one, gives it an identifier that no listed process has, and lists it; so it goes on until
  the 32-bit counter is exhausted.
\<close>

theorem Run_fresh_id:
  assumes "process_ids_ok c" and "c' = fold (restore_process sg) ps c" and "c_currentProcessID c' \<noteq> - 1"
    and "Container_Run out spec io (c', pp, w) = (Ok i, c'', pp'', w'')"
  shows "i \<notin> set (ActiveProcesses (c_tracker c')) \<and> i \<in> set (ActiveProcesses (c_tracker c''))
    \<and> process_ids_ok c'' \<and> c_currentProcessID c' < c_currentProcessID c''"
proof -
  have ok: "process_ids_ok c'" using restore_processes_ids [OF assms(1)] assms(2) by simp
  let ?n = "c_currentProcessID c' + 1"
  from Container_Run_Ok [OF assms(4)] obtain cmd sg' tr w1 where
    run: "Tracker_Run out (show_word ?n) cmd io (ps_TTY spec) sg' (c_tracker c', w) = (Ok i, tr, w1)"
    and c'': "c'' = c'\<lparr>c_currentProcessID := ?n, c_tracker := tr\<rparr>" by blast
  then have i: "i = show_word ?n" and act: "set (ActiveProcesses tr) = insert (show_word ?n) (set (ActiveProcesses (c_tracker c')))"
    by (auto simp: Tracker_Run_def Let_def put_process_active split: prod.splits res.splits)
  have lt: "c_currentProcessID c' < ?n"
    using assms(3) by (simp add: inc_less_eq_self_iff_eq flip: not_le)
  have "show_word ?n \<notin> set (ActiveProcesses (c_tracker c'))"
    using ok lt by (auto simp: process_ids_ok_def show_word_inject)
  moreover have "process_ids_ok c''"
    unfolding process_ids_ok_def
  proof
    fix j assume "j \<in> set (ActiveProcesses (c_tracker c''))"
    then consider "j = show_word ?n" | "j \<in> set (ActiveProcesses (c_tracker c'))" using act by (auto simp: c'')
    then show "\<exists>n\<le>c_currentProcessID c''. j = show_word n"
    proof cases
      case 2
      then obtain n where "n \<le> c_currentProcessID c'" "j = show_word n" using ok by (auto simp: process_ids_ok_def)
      then show ?thesis using lt by (intro exI [of _ n]) (simp add: c'')
    qed (auto simp: c'')
  qed
  ultimately show ?thesis using i act lt by (simp add: c'')
qed

theorem Run_fresh_id_witness:
  "\<exists>i c'' pp'' w''. Container_Run quiet
       \<lparr>ps_Path = ''ls'', ps_Args = [], ps_Env = [], ps_Dir = '''', ps_User = ''vcap'', ps_TTY = None,
        ps_Limits = \<lparr>rl_As = None, rl_Core = None, rl_Cpu = None, rl_Data = None, rl_Fsize = None, rl_Locks = None,
          rl_Memlock = None, rl_Msgqueue = None, rl_Nice = None, rl_Nofile = None, rl_Nproc = None, rl_Rss = None,
          rl_Rtprio = None, rl_Sigpending = None, rl_Stack = None\<rparr>\<rparr>
       \<lparr>pio_Stdin = None, pio_Stdout = None, pio_Stderr = None\<rparr>
       (fold (restore_process LinkSignaller) [\<lparr>ap_ID = 7, ap_TTY = False\<rparr>, \<lparr>ap_ID = 3, ap_TTY = False\<rparr>]
          (ProvideContainer example_provider example_spec), example_ports, empty_world) = (Ok i, c'', pp'', w'')
     \<and> i \<notin> {show_word (7::uint32), show_word (3::uint32)}"
proof -
  let ?ps = "\<lparr>ps_Path = ''ls'', ps_Args = [], ps_Env = [], ps_Dir = '''', ps_User = ''vcap'', ps_TTY = None,
        ps_Limits = \<lparr>rl_As = None, rl_Core = None, rl_Cpu = None, rl_Data = None, rl_Fsize = None, rl_Locks = None,
          rl_Memlock = None, rl_Msgqueue = None, rl_Nice = None, rl_Nofile = None, rl_Nproc = None, rl_Rss = None,
          rl_Rtprio = None, rl_Sigpending = None, rl_Stack = None\<rparr>\<rparr> :: process_spec"
  let ?io = "\<lparr>pio_Stdin = None, pio_Stdout = None, pio_Stderr = None\<rparr>"
  let ?c = "ProvideContainer example_provider example_spec"
  let ?restored = "[\<lparr>ap_ID = 7, ap_TTY = False\<rparr>, \<lparr>ap_ID = 3, ap_TTY = False\<rparr>]"
  define c' where "c' = fold (restore_process LinkSignaller) ?restored ?c"
  have c: "process_ids_ok ?c" by (simp add: process_ids_ok_def ProvideContainer_def NewLinuxContainer_def NewTracker_def ActiveProcesses_def)
  have id: "c_currentProcessID c' = 7"
    by (simp add: c'_def restore_process_def ProcessIDPool_Restore_def ProvideContainer_def NewLinuxContainer_def)
  have act: "set (ActiveProcesses (c_tracker c')) = {show_word (7::uint32), show_word (3::uint32)}"
    by (auto simp: c'_def restore_process_def Tracker_Restore_def put_process_active ProvideContainer_def NewLinuxContainer_def
        NewTracker_def ActiveProcesses_def [of "\<lparr>tr_containerPath = _, tr_processes = [], tr_links = _\<rparr>"])
  have env: "NewEnv (gs_Env (cs_Spec (c_spec c'))) = Ok []"
    by (simp add: c'_def restore_process_def ProvideContainer_def NewLinuxContainer_def example_spec_def zero_garden_spec_def NewEnv_def)
  have "\<exists>i s. Container_Run quiet ?ps ?io (c', example_ports, empty_world) = (Ok i, s)"
    by (simp add: Container_Run_def NewEnv_def env [unfolded NewEnv_def] ProcessIDPool_Next_def Let_def Tracker_Run_def Spawn_ready_def
        Spawn_active_def write_kernel_def perform_def quiet_def)
  then obtain i c'' pp'' w'' where r: "Container_Run quiet ?ps ?io (c', example_ports, empty_world) = (Ok i, c'', pp'', w'')"
    by (metis surj_pair)
  from Run_fresh_id [OF c c'_def _ r] act id have "i \<notin> {show_word (7::uint32), show_word (3::uint32)}" by simp
  then show ?thesis using r by (auto simp: c'_def)
qed

subsection \<open>The out-of-memory watcher\<close>

text \<open>
  When the watcher's command cannot be started, \<open>LimitMemory\<close> reports the error once. The
  command is remembered all the same, so from then on every attempt finds a watcher in place: it
  succeeds without starting anything, and nothing ever reports that memory ran out.
\<close>

theorem failed_watch_is_forgotten:
  assumes "oom_cmd (c_oom c) = None" and "Oom_Watch out (c, pp, w) = (Err e, c', pp', w')" and "oom_cmd (c_oom c') \<noteq> None"
  shows "oom_waiting (c_oom c') = oom_waiting (c_oom c)
    \<and> (\<forall>out w''. Oom_Watch out (c', pp', w'') = (Ok (), c', pp', w''))"
proof -
  have "c_oom (fst (snd (in_reader f s))) = c_oom (fst s)" for f :: "cgroup_reader \<times> world \<Rightarrow> string res \<times> cgroup_reader \<times> world" and s
    by (simp add: in_reader_def split: prod.splits)
  moreover obtain r c1 pp1 w1 where i: "in_reader (SubsystemPath out (c_cgroups c) ''memory'') (c, pp, w) = (r, c1, pp1, w1)"
    by (metis surj_pair)
  ultimately have c1: "c_oom c1 = c_oom c" by (metis fst_conv snd_conv)
  have "oom_waiting (c_oom c') = oom_waiting (c_oom c)"
    using assms(1,2) i c1
    by (cases r) (auto simp: Oom_Watch_def Let_def split: prod.splits res.splits)
  then show ?thesis using assms(3) by (simp add: Oom_Watch_def)
qed

theorem failed_watch_is_forgotten_witness:
  "\<exists>out c'. (\<exists>pp' w' e. Oom_Watch out (ProvideContainer example_provider example_spec, example_ports, empty_world) = (Err e, c', pp', w'))
     \<and> Oom_Watch quiet (c', example_ports, empty_world) = (Ok (), c', example_ports, empty_world)
     \<and> oom_waiting (c_oom c') = []"
proof -
  let ?c = "ProvideContainer example_provider example_spec"
  let ?out = "quiet\<lparr>o_err := \<lambda>_ e. case e of Start _ \<Rightarrow> Some (External ''exec'') | _ \<Rightarrow> None,
                   o_kernel := \<lambda>_ _. cgroup_line ''2'' ''memory'' ''/''\<rparr>"
  have c: "oom_cmd (c_oom ?c) = None" "oom_waiting (c_oom ?c) = []"
    by (simp_all add: ProvideContainer_def NewLinuxContainer_def NewOomNotifier_def)
  have n: "CgroupNode ?out ''memory'' (c_reader ?c, empty_world) = (Ok ''/'', (c_reader ?c)\<lparr>cr_open := True\<rparr>,
      empty_world\<lparr>trace := trace empty_world @ (if cr_open (c_reader ?c) then [] else [OpenFile (cr_Path (c_reader ?c))])
        @ [SeekFile (cr_Path (c_reader ?c)), ReadFile (cr_Path (c_reader ?c))]\<rparr>)"
    by (rule CgroupNode_found [where pre = "[]" and post = "[]" and hier = "''2''"]) (auto simp: cgroup_line_def quiet_def)
  have "\<exists>c' pp' w' e. Oom_Watch ?out (?c, example_ports, empty_world) = (Err e, c', pp', w') \<and> oom_cmd (c_oom c') \<noteq> None
      \<and> pp' = example_ports"
    by (simp add: Oom_Watch_def in_reader_def SubsystemPath_def n perform_def Let_def c)
  then obtain c' w' e where o: "Oom_Watch ?out (?c, example_ports, empty_world) = (Err e, c', example_ports, w')"
    and "oom_cmd (c_oom c') \<noteq> None" by blast
  from failed_watch_is_forgotten [OF c(1) this] c(2) o show ?thesis
    by (intro exI [of _ ?out] exI [of _ c'] conjI exI [of _ example_ports] exI [of _ w'] exI [of _ e]) simp_all
qed

subsection \<open>Signalling old containers\<close>

lemma openPIDFile_fails:
  assumes "\<And>t. \<exists>e. o_err out t (OpenFile p) = Some e"
  shows "\<exists>e. fst (openPIDFile out p n err w) = Err e"
proof (induction n arbitrary: err w)
  case (Suc n)
  then show ?case using assms [of "trace w"] by (auto simp: write_kernel_def)
qed simp

text \<open>
  C30. A process of a container from before version 1.0.0 can never be signalled. \<open>Run\<close> has its
  identifier written to the file \<open>N.pid\<close>; the signaller formats the same identifier, a string,
  with \<open>%d\<close> and looks for a file of another name. If the only files that can be opened there are
  those that \<open>Run\<close> names, every signal ends in the error that the file cannot be opened.
\<close>

theorem old_process_not_signalled:
  assumes "\<And>t p. (\<forall>n::uint32. p \<noteq> run_pidfile cp n) \<Longrightarrow> \<exists>e. o_err out t (OpenFile p) = Some e"
  shows "(\<forall>n::uint32. signal_pidfile cp (show_word processID) \<noteq> run_pidfile cp n)
    \<and> (\<exists>e. fst (Namespaced_Signal out cp retries (show_word (processID::uint32)) sig w) = Err e)"
proof -
  have name: "plain_name (s @ ''.pid'')" if "slash \<notin> set s" for s :: string
    using that by (cases s) (auto simp: plain_name_def)
  have digits: "c \<notin> set (show_word (m::uint32))" if "\<not> is_digit c" for c m
    using that show_nat_no_char by (simp add: show_word_def)
  have sl: "slash \<notin> set (show_word (m::uint32))" for m by (rule digits) (simp add: is_digit_cases)
  have pc: "CHR ''%'' \<notin> set (show_word (m::uint32))" for m by (rule digits) (simp add: is_digit_cases)
  have sl': "slash \<notin> set (sprintf_d_string (show_word processID))" using sl by (simp add: sprintf_d_string_def)
  have ne: "signal_pidfile cp (show_word processID) \<noteq> run_pidfile cp n" for n
  proof
    assume "signal_pidfile cp (show_word processID) = run_pidfile cp n"
    then have "path_Join ([cp, ''processes''] @ [sprintf_d_string (show_word processID) @ ''.pid''])
        = path_Join ([cp, ''processes''] @ [show_word n @ ''.pid''])"
      by (simp add: signal_pidfile_def run_pidfile_def)
    from path_Join_name_inject [OF name [OF sl'] name [OF sl] this]
    have "CHR ''%'' \<in> set (show_word n)" by (simp add: sprintf_d_string_def) (metis list.set_intros(1))
    then show False using pc by simp
  qed
  then have "\<exists>e. fst (openPIDFile out (signal_pidfile cp (show_word processID)) retries None w) = Err e"
    using assms by (intro openPIDFile_fails) blast
  then obtain e w' where "openPIDFile out (signal_pidfile cp (show_word processID)) retries None w = (Err e, w')"
    by (metis surj_pair fst_conv)
  then show ?thesis using ne by (simp add: Namespaced_Signal_def PidFromFile_def)
qed

theorem old_process_not_signalled_witness:
  "\<exists>out e. o_err out [] (OpenFile (run_pidfile ''/depot/c1'' 5)) = None
     \<and> fst (Namespaced_Signal out ''/depot/c1'' 100 (show_word (5::uint32)) 9 empty_world) = Err e"
proof -
  let ?out = "quiet\<lparr>o_err := \<lambda>_ e. if \<exists>p. e = OpenFile p \<and> (\<forall>n::uint32. p \<noteq> run_pidfile ''/depot/c1'' n)
                                  then Some not_exist else None\<rparr>"
  have "\<exists>e. fst (Namespaced_Signal ?out ''/depot/c1'' 100 (show_word (5::uint32)) 9 empty_world) = Err e"
    by (rule old_process_not_signalled [THEN conjunct2]) auto
  moreover have "o_err ?out [] (OpenFile (run_pidfile ''/depot/c1'' 5)) = None" by auto
  ultimately show ?thesis by blast
qed

end
