(* ===== verification/Resource_Pool.thy ===== *)
theory Resource_Pool
  imports Container Bridge_Mgr
begin

text \<open>
  The resource pool (\<open>resource_pool/resource_pool.go\<close>): it hands out the subnet, the bridge, the
  directory, the root file system and the filter chain of a container, takes them back, and restores
  them from a snapshot. Its own state is that of the three pools it works on, the counter behind the
  container identifiers, and the world.
\<close>

section \<open>State\<close>

text \<open>
  The fields that never change. \<open>rp_mappedRoot\<close> is \<open>mappingList.Map(0)\<close>; \<open>rp_filterProvider\<close> is the
  provider of \<open>main.go\<close>, the only implementation of \<open>FilterProvider\<close>; the root file systems, the
  command runner and the quota manager are outside.
\<close>

record pool_config =
  rp_binPath :: string
  rp_depotPath :: string
  rp_denyNetworks :: "string list"
  rp_allowNetworks :: "string list"
  rp_mappedRoot :: int
  rp_externalIP :: ip
  rp_mtu :: int
  rp_iptablesMgr :: "mgr_chain list"
  rp_filterProvider :: provider
  rp_defaultChain :: chain
  rp_currentVersion :: string

record rp_state =
  rp_subnets :: subnet_pool
  rp_bridges :: mgr
  rp_ports :: port_pool
  rp_containerNum :: "64 word"
  rp_world :: world

definition on_world :: "(world \<Rightarrow> 'a res \<times> world) \<Rightarrow> rp_state \<Rightarrow> 'a res \<times> rp_state" where
  "on_world f s = (case f (rp_world s) of (r, w) \<Rightarrow> (r, s\<lparr>rp_world := w\<rparr>))"

definition on_bridges :: "(mgr \<times> world \<Rightarrow> 'a res \<times> mgr \<times> world) \<Rightarrow> rp_state \<Rightarrow> 'a res \<times> rp_state" where
  "on_bridges f s = (case f (rp_bridges s, rp_world s) of (r, m, w) \<Rightarrow> (r, s\<lparr>rp_bridges := m, rp_world := w\<rparr>))"

definition on_subnets :: "(subnet_pool \<Rightarrow> 'a res \<times> subnet_pool) \<Rightarrow> rp_state \<Rightarrow> 'a res \<times> rp_state" where
  "on_subnets f s = (case f (rp_subnets s) of (r, p) \<Rightarrow> (r, s\<lparr>rp_subnets := p\<rparr>))"

definition on_ports :: "(port_pool \<Rightarrow> 'a res \<times> port_pool) \<Rightarrow> rp_state \<Rightarrow> 'a res \<times> rp_state" where
  "on_ports f s = (case f (rp_ports s) of (r, p) \<Rightarrow> (r, s\<lparr>rp_ports := p\<rparr>))"

section \<open>Set-up\<close>

definition MaxContainers :: "rp_state \<Rightarrow> nat" where
  "MaxContainers s = SubnetPool_Capacity (rp_subnets s)"

definition setup_cmd :: "outside \<Rightarrow> pool_config \<Rightarrow> cmd" where
  "setup_cmd out cfg =
     (exec_Command (path_Join [rp_binPath cfg, ''setup.sh'']) [])
       \<lparr>cmd_env := [''CONTAINER_DEPOT_PATH='' @ rp_depotPath cfg, ''PATH='' @ o_getenv out ''PATH'']\<rparr>"

definition append_rules :: "outside \<Rightarrow> chain \<Rightarrow> action \<Rightarrow> string list \<Rightarrow> world \<Rightarrow> unit res \<times> world" where
  "append_rules out ch act = do_all (\<lambda>n w. if n = '''' then (Ok (), w) else AppendRule out ch '''' n act w)"

definition setupIPTables :: "outside \<Rightarrow> pool_config \<Rightarrow> rp_state \<Rightarrow> unit res \<times> rp_state" where
  "setupIPTables out cfg s =
     then_do (wrap_error ''resource_pool: setting up allow rules in iptables: ''
       (on_world (append_rules out (rp_defaultChain cfg) ReturnAction (rp_allowNetworks cfg)) s)) (\<lambda>_ s.
     wrap_error ''resource_pool: setting up deny rules in iptables: ''
       (on_world (append_rules out (rp_defaultChain cfg) RejectAction (rp_denyNetworks cfg)) s))"

definition Pool_Setup :: "outside \<Rightarrow> pool_config \<Rightarrow> rp_state \<Rightarrow> unit res \<times> rp_state" where
  "Pool_Setup out cfg s =
     then_do (on_world (run_cmd out (setup_cmd out cfg)) s) (\<lambda>_ s.
     then_do (wrap_error ''resource_pool: enable disk quotas: '' (on_world (perform out QuotaSetup) s)) (\<lambda>_ s.
     setupIPTables out cfg s))"

section \<open>Identifiers, handles, networks\<close>

text \<open>\<open>generateContainerIDs\<close>: eleven base-32 digits of the counter, most significant first.\<close>

definition next_containerID :: "rp_state \<Rightarrow> string \<times> rp_state" where
  "next_containerID s =
     (name_digits 11 (rp_containerNum s), s\<lparr>rp_containerNum := rp_containerNum s + 1\<rparr>)"

definition getHandle :: "string \<Rightarrow> string \<Rightarrow> string" where
  "getHandle handle i = (if handle \<noteq> '''' then handle else i)"

definition suffixIfNeeded :: "string \<Rightarrow> string" where
  "suffixIfNeeded spec = (if slash \<notin> set spec then spec @ ''/30'' else spec)"

definition parseNetworkSpec :: "string \<Rightarrow> (subnet_selector \<times> ip_selector) res" where
  "parseNetworkSpec spec =
     (if spec = '''' then Ok (DynamicSubnetSelector, DynamicIPSelector)
      else case ParseCIDR (suffixIfNeeded spec) of
        None \<Rightarrow> Err (External (''invalid CIDR address: '' @ suffixIfNeeded spec))
      | Some (specifiedIP, ipn) \<Rightarrow>
          Ok (StaticSubnetSelector ipn,
              if \<not> IP_Equal specifiedIP (NetworkIP ipn) then StaticIPSelector specifiedIP else DynamicIPSelector))"

section \<open>Files of a container\<close>

definition bridge_file :: "pool_config \<Rightarrow> string \<Rightarrow> string" where
  "bridge_file cfg i = path_Join [rp_depotPath cfg, i, ''bridge-name'']"

definition provider_file :: "pool_config \<Rightarrow> string \<Rightarrow> string" where
  "provider_file cfg i = path_Join [rp_depotPath cfg, i, ''rootfs-provider'']"

definition version_file :: "pool_config \<Rightarrow> string \<Rightarrow> string" where
  "version_file cfg i = path_Join [rp_depotPath cfg, i, ''version'']"

definition saveBridgeName :: "outside \<Rightarrow> pool_config \<Rightarrow> string \<Rightarrow> string \<Rightarrow> rp_state \<Rightarrow> unit res \<times> rp_state" where
  "saveBridgeName out cfg i bridgeName = on_world (write_file out (bridge_file cfg i) bridgeName)"

definition saveRootFSProvider :: "outside \<Rightarrow> pool_config \<Rightarrow> string \<Rightarrow> string \<Rightarrow> rp_state \<Rightarrow> unit res \<times> rp_state" where
  "saveRootFSProvider out cfg i prov = on_world (write_file out (provider_file cfg i) prov)"

definition saveContainerVersion :: "outside \<Rightarrow> pool_config \<Rightarrow> string \<Rightarrow> rp_state \<Rightarrow> unit res \<times> rp_state" where
  "saveContainerVersion out cfg i = on_world (write_file out (version_file cfg i) (rp_currentVersion cfg))"

definition MissingVersion :: string where
  "MissingVersion = ''0.0.0''"

definition restoreContainerVersion :: "outside \<Rightarrow> pool_config \<Rightarrow> string \<Rightarrow> rp_state \<Rightarrow> string res \<times> rp_state" where
  "restoreContainerVersion out cfg i s =
     (case on_world (read_file out (version_file cfg i)) s of
        (Err e, s) \<Rightarrow> (if e = not_exist then Ok MissingVersion else Err e, s)
      | (Panic m, s) \<Rightarrow> (Panic m, s)
      | (Ok content, s) \<Rightarrow> (o_semver out content, s))"

section \<open>Bind mounts\<close>

definition bash_cmd :: "string \<Rightarrow> cmd" where
  "bash_cmd line = exec_Command ''bash'' [''-c'', line]"

definition mount_one :: "outside \<Rightarrow> string \<Rightarrow> string \<Rightarrow> int \<Rightarrow> bind_mount \<Rightarrow> world \<Rightarrow> unit res \<times> world" where
  "mount_one out hook rootFSPath mkdirUID bm w =
     (let dstMount = path_Join [rootFSPath, bm_DstPath bm];
          srcPath = (if bm_Origin bm = BindMountOriginContainer then path_Join [rootFSPath, bm_SrcPath bm] else bm_SrcPath bm);
          mode = (if bm_Mode bm = BindMountModeRW then ''rw'' else ''ro'') in
      then_do (run_cmd out (bash_cmd (''echo >> '' @ hook)) w) (\<lambda>_ w.
      then_do (perform out (MkdirChown dstMount (mkdirUID mod 2 ^ 32)) w) (\<lambda>_ w.
      then_do (run_cmd out (bash_cmd (''echo mount -n --bind '' @ srcPath @ '' '' @ dstMount @ '' >> '' @ hook)) w) (\<lambda>_ w.
      run_cmd out (bash_cmd (''echo mount -n --bind -o remount,'' @ mode @ '' '' @ srcPath @ '' '' @ dstMount @ '' >> '' @ hook)) w))))"

definition writeBindMounts :: "outside \<Rightarrow> string \<Rightarrow> string \<Rightarrow> bind_mount list \<Rightarrow> int \<Rightarrow> rp_state \<Rightarrow> unit res \<times> rp_state" where
  "writeBindMounts out containerPath rootFSPath bindMounts mkdirUID =
     on_world (do_all (mount_one out (path_Join [containerPath, ''lib'', ''hook-parent-before-clone.sh'']) rootFSPath mkdirUID) bindMounts)"

section \<open>Releasing\<close>

definition shouldCleanRootfs :: "string \<Rightarrow> bool" where
  "shouldCleanRootfs rootFSProvider \<longleftrightarrow> rootFSProvider \<in> set
     [''docker-local-aufs'', ''docker-local-vfs'', ''docker-remote-aufs'', ''docker-remote-vfs'', ''docker-composite'',
      ''invalid-rootfs-provider'']"

definition destroy_cmd :: "pool_config \<Rightarrow> string \<Rightarrow> cmd" where
  "destroy_cmd cfg i = exec_Command (path_Join [rp_binPath cfg, ''destroy.sh'']) [path_Join [rp_depotPath cfg, i]]"

definition release_bridge :: "outside \<Rightarrow> pool_config \<Rightarrow> string \<Rightarrow> rp_state \<Rightarrow> unit res \<times> rp_state" where
  "release_bridge out cfg i s =
     (case on_world (read_file out (bridge_file cfg i)) s of
        (Ok bridgeName, s) \<Rightarrow>
          wrap_error (''containerpool: release bridge '' @ bridgeName @ '': '') (on_bridges (Mgr_Release out bridgeName i) s)
      | (_, s) \<Rightarrow> (Ok (), s))"

definition rootfs_provider_of :: "outside \<Rightarrow> pool_config \<Rightarrow> string \<Rightarrow> rp_state \<Rightarrow> string \<times> rp_state" where
  "rootfs_provider_of out cfg i s =
     (case on_world (read_file out (provider_file cfg i)) s of
        (Ok p, s) \<Rightarrow> (p, s)
      | (_, s) \<Rightarrow> (''invalid-rootfs-provider'', s))"

definition releaseSystemResources :: "outside \<Rightarrow> pool_config \<Rightarrow> string \<Rightarrow> rp_state \<Rightarrow> unit res \<times> rp_state" where
  "releaseSystemResources out cfg i s =
     then_do (release_bridge out cfg i s) (\<lambda>_ s.
     let (rootFSProvider, s) = rootfs_provider_of out cfg i s in
     then_do (on_world (ContainerTeardown out (rp_iptablesMgr cfg) i) s) (\<lambda>_ s.
     then_do (on_world (run_cmd out (destroy_cmd cfg i)) s) (\<lambda>_ s.
     then_do (if shouldCleanRootfs rootFSProvider then on_world (perform out (DestroyRootfs i)) s else (Ok (), s)) (\<lambda>_ s.
     case on_world (Filter_TearDown out (ProvideFilter (rp_filterProvider cfg) i)) s of
       (Panic m, s) \<Rightarrow> (Panic m, s)
     | (_, s) \<Rightarrow> (Ok (), s)))))"

definition tryReleaseSystemResources :: "outside \<Rightarrow> pool_config \<Rightarrow> string \<Rightarrow> rp_state \<Rightarrow> rp_state" where
  "tryReleaseSystemResources out cfg i s = snd (releaseSystemResources out cfg i s)"

definition releasePoolResources :: "resources \<Rightarrow> rp_state \<Rightarrow> rp_state" where
  "releasePoolResources r s =
     (let s = s\<lparr>rp_ports := fold PortPool_Release (res_Ports r) (rp_ports s)\<rparr> in
      case res_Network r of
        None \<Rightarrow> s
      | Some n \<Rightarrow> snd (on_subnets (SubnetPool_Release n) s))"

definition Pool_Release :: "outside \<Rightarrow> pool_config \<Rightarrow> container_spec \<Rightarrow> rp_state \<Rightarrow> unit res \<times> rp_state" where
  "Pool_Release out cfg c s =
     then_do (releaseSystemResources out cfg (cs_ID c) s) (\<lambda>_ s.
       (Ok (), releasePoolResources (cs_Resources c) s))"

section \<open>Pruning\<close>

definition pruneEntry :: "outside \<Rightarrow> pool_config \<Rightarrow> string \<Rightarrow> rp_state \<Rightarrow> rp_state" where
  "pruneEntry out cfg i s = snd (releaseSystemResources out cfg i s)"

fun prune_entries :: "outside \<Rightarrow> pool_config \<Rightarrow> string list \<Rightarrow> string list \<Rightarrow> rp_state \<Rightarrow> rp_state" where
  "prune_entries out cfg keep [] s = s"
| "prune_entries out cfg keep (i # is) s =
     prune_entries out cfg keep is
       (if i = ''tmp'' then s else if i \<in> set keep then s else pruneEntry out cfg i s)"

definition quoted :: "string \<Rightarrow> string" where
  "quoted s = [CHR 0x22] @ s @ [CHR 0x22]"

text \<open>An error of the bridge manager is only logged. The path is printed with \<open>%q\<close>.\<close>

definition Pool_Prune :: "outside \<Rightarrow> pool_config \<Rightarrow> string list \<Rightarrow> rp_state \<Rightarrow> unit res \<times> rp_state" where
  "Pool_Prune out cfg keep s =
     (let entries = o_dir out (trace (rp_world s)) (rp_depotPath cfg) in
      then_do (wrap_error (''Cannot read path '' @ quoted (rp_depotPath cfg) @ '': '')
        (on_world (write_kernel out (ReadDir (rp_depotPath cfg))) s)) (\<lambda>_ s.
      let s = prune_entries out cfg keep entries s in
      (Ok (), snd (on_bridges (Mgr_Prune out) s))))"

section \<open>Acquiring\<close>

definition acquireUID :: "pool_config \<Rightarrow> bool \<Rightarrow> resources \<Rightarrow> resources" where
  "acquireUID cfg privileged r = r\<lparr>res_RootUID := if \<not> privileged then rp_mappedRoot cfg else 0\<rparr>"

text \<open>\<open>rng\<close> is the order in which the subnet pool's map is traversed.\<close>

definition acquirePoolResources :: "pool_config \<Rightarrow> alloc_order \<Rightarrow> garden_spec \<Rightarrow> rp_state \<Rightarrow> resources res \<times> rp_state" where
  "acquirePoolResources cfg rng spec s =
     then_do (wrap_error ''create container: invalid network spec: '' (parseNetworkSpec (gs_Network spec), s)) (\<lambda>(subnet, ip) s.
     let r = acquireUID cfg (gs_Privileged spec) (NewResources 0 None '''' [] (rp_externalIP cfg)) in
     then_do (on_error (releasePoolResources r) (on_subnets (SubnetPool_Acquire (subnet, ip, rng)) s)) (\<lambda>n s.
     (Ok (r\<lparr>res_Network := Some n\<rparr>), s)))"

definition setupRootfs :: "outside \<Rightarrow> garden_spec \<Rightarrow> string \<Rightarrow> resources \<Rightarrow> rp_state \<Rightarrow> (string \<times> env) res \<times> rp_state" where
  "setupRootfs out spec i r s =
     (case o_url_ok out (gs_RootFSPath spec) of
        Some e \<Rightarrow> (Err e, s)
      | None \<Rightarrow>
          let rs = \<lparr>rs_RootFS = gs_RootFSPath spec, rs_Namespaced = (res_RootUID r \<noteq> 0),
                    rs_QuotaSize = sint (dl_ByteHard (sl_Disk (gs_Limits spec))),
                    rs_QuotaScope = unat (dl_Scope (sl_Disk (gs_Limits spec)))\<rparr>;
              (rootFSPath, rootFSEnvVars) = o_rootfs out (trace (rp_world s)) i rs in
          then_do (on_world (perform out (CreateRootfs i rs)) s) (\<lambda>_ s.
          then_do (NewEnv rootFSEnvVars, s) (\<lambda>rootFSProcessEnv s.
          (Ok (rootFSPath, rootFSProcessEnv), s))))"

text \<open>The resources with their bridge; without a network the code dereferences a nil pointer.\<close>

definition setupBridge :: "outside \<Rightarrow> pool_config \<Rightarrow> string \<Rightarrow> resources \<Rightarrow> rp_state \<Rightarrow> resources res \<times> rp_state" where
  "setupBridge out cfg i r s =
     (case res_Network r of
        None \<Rightarrow> (Panic ''nil pointer dereference'', s)
      | Some n \<Rightarrow>
          then_do (on_bridges (Mgr_Reserve out (Subnet n) i) s) (\<lambda>bridge s.
          then_do (saveBridgeName out cfg i bridge s) (\<lambda>_ s.
          (Ok (r\<lparr>res_Bridge := bridge\<rparr>), s))))"

definition setupContainerDirectories ::
  "outside \<Rightarrow> pool_config \<Rightarrow> garden_spec \<Rightarrow> string \<Rightarrow> resources \<Rightarrow> rp_state \<Rightarrow> (string \<times> env \<times> resources) res \<times> rp_state" where
  "setupContainerDirectories out cfg spec i r s =
     then_do (setupRootfs out spec i r s) (\<lambda>(rootFSPath, rootFSEnv) s.
     then_do (on_error (\<lambda>s. snd (on_world (perform out (DestroyRootfs i)) s)) (setupBridge out cfg i r s)) (\<lambda>r s.
     (Ok (rootFSPath, rootFSEnv, r), s)))"

text \<open>
  The command that creates a container. \<open>uint64(resources.RootUID)\<close> wraps a negative number around.
\<close>

definition create_cmd :: "outside \<Rightarrow> pool_config \<Rightarrow> string \<Rightarrow> string \<Rightarrow> resources \<Rightarrow> network \<Rightarrow> ip \<Rightarrow> cmd" where
  "create_cmd out cfg i rootFSPath r n gateway =
     (exec_Command (path_Join [rp_binPath cfg, ''create.sh'']) [path_Join [rp_depotPath cfg, i]])
       \<lparr>cmd_env := Env_Array
          [(''id'', i), (''rootfs_path'', rootFSPath), (''network_host_ip'', IP_String gateway),
           (''network_container_ip'', IP_String (IP n)),
           (''network_cidr_suffix'', show_nat (fst (Mask_Size (net_Mask (Subnet n))))),
           (''network_cidr'', IPNet_String (Subnet n)), (''external_ip'', IP_String (rp_externalIP cfg)),
           (''container_iface_mtu'', show_int (rp_mtu cfg)), (''bridge_iface'', res_Bridge r),
           (''root_uid'', show_nat (nat (res_RootUID r mod 2 ^ 64))), (''PATH'', o_getenv out ''PATH'')]\<rparr>"

definition run_create ::
  "outside \<Rightarrow> pool_config \<Rightarrow> garden_spec \<Rightarrow> string \<Rightarrow> string \<Rightarrow> resources \<Rightarrow> cmd \<Rightarrow> rp_state \<Rightarrow> unit res \<times> rp_state" where
  "run_create out cfg spec i rootFSPath r create s =
     then_do (on_world (run_cmd out create) s) (\<lambda>_ s.
     then_do (saveRootFSProvider out cfg i ''docker-composite'' s) (\<lambda>_ s.
     then_do (saveContainerVersion out cfg i s) (\<lambda>_ s.
     writeBindMounts out (path_Join [rp_depotPath cfg, i]) rootFSPath (gs_BindMounts spec) (res_RootUID r) s)))"

definition acquireSystemResources ::
  "outside \<Rightarrow> pool_config \<Rightarrow> garden_spec \<Rightarrow> string \<Rightarrow> resources \<Rightarrow> rp_state \<Rightarrow> (string \<times> env \<times> resources) res \<times> rp_state" where
  "acquireSystemResources out cfg spec i r s =
     (let containerPath = path_Join [rp_depotPath cfg, i] in
      then_do (wrap_error ''resource_pool: creating container directory: ''
        (on_world (perform out (MkdirAll containerPath)) s)) (\<lambda>_ s.
      then_do (on_error (\<lambda>s. snd (on_world (perform out (RemoveAll containerPath)) s))
        (setupContainerDirectories out cfg spec i r s)) (\<lambda>(rootFSPath, rootFSEnv, r) s.
      case res_Network r of
        None \<Rightarrow> (Panic ''nil pointer dereference'', s)
      | Some n \<Rightarrow>
          then_do (GatewayIP (Subnet n), s) (\<lambda>gateway s.
          then_do (on_error (tryReleaseSystemResources out cfg i)
            (run_create out cfg spec i rootFSPath r (create_cmd out cfg i rootFSPath r n gateway) s)) (\<lambda>_ s.
          (Ok (rootFSPath, rootFSEnv, r), s))))))"

text \<open>
  \<open>Acquire\<close> sets the filter chain up in a goroutine of its own, and waits for it after the system
  resources have been acquired. A schedule says when the goroutine runs: before the subnet is
  acquired, between the pool and the system resources, or last. When the method returns earlier with
  an error, the goroutine still runs.
\<close>

datatype filter_schedule = FilterFirst | FilterBetween | FilterLast

definition setup_filter :: "outside \<Rightarrow> pool_config \<Rightarrow> string \<Rightarrow> string \<Rightarrow> rp_state \<Rightarrow> unit res \<times> rp_state" where
  "setup_filter out cfg i handle s =
     wrap_error ''resource_pool: set up filter: ''
       (on_world (Filter_Setup out (ProvideFilter (rp_filterProvider cfg) i) handle) s)"

text \<open>The goroutine's turn: \<open>done\<close> is the channel, which holds the result once it is there.\<close>

definition filter_turn ::
  "outside \<Rightarrow> pool_config \<Rightarrow> string \<Rightarrow> string \<Rightarrow> bool \<Rightarrow> unit res option \<times> rp_state \<Rightarrow> unit res option \<times> rp_state" where
  "filter_turn out cfg i handle now = (\<lambda>(ch, s).
     case ch of
       Some r \<Rightarrow> (Some r, s)
     | None \<Rightarrow> if now then (case setup_filter out cfg i handle s of (r, s) \<Rightarrow> (Some r, s)) else (None, s))"

definition Pool_Acquire ::
  "outside \<Rightarrow> pool_config \<Rightarrow> filter_schedule \<Rightarrow> alloc_order \<Rightarrow> garden_spec \<Rightarrow> rp_state \<Rightarrow> container_spec res \<times> rp_state" where
  "Pool_Acquire out cfg sched rng spec s =
     (let (i, s) = next_containerID s;
          handle = getHandle (gs_Handle spec) i;
          turn = filter_turn out cfg i handle;
          (ch, s) = turn (sched = FilterFirst) (None, s) in
      case acquirePoolResources cfg rng spec s of
        (Panic m, s) \<Rightarrow> (Panic m, s)
      | (Err e, s) \<Rightarrow> (Err e, snd (turn True (ch, s)))
      | (Ok r, s) \<Rightarrow>
          let (ch, s) = turn (sched = FilterBetween) (ch, s) in
          case acquireSystemResources out cfg spec i r s of
            (Panic m, s) \<Rightarrow> (Panic m, s)
          | (Err e, s) \<Rightarrow> (Err e, snd (turn True (ch, releasePoolResources r s)))
          | (Ok (rootFSPath, rootFSEnv, r), s) \<Rightarrow>
              (case turn True (ch, s) of
                 (Some (Panic m), s) \<Rightarrow> (Panic m, s)
               | (Some (Err e), s) \<Rightarrow> (Err e, releasePoolResources r (tryReleaseSystemResources out cfg i s))
               | (_, s) \<Rightarrow>
                   (case NewEnv (gs_Env spec) of
                      Panic m \<Rightarrow> (Panic m, s)
                    | Err e \<Rightarrow> (Err e, releasePoolResources r (tryReleaseSystemResources out cfg i s))
                    | Ok specEnv \<Rightarrow>
                        (Ok \<lparr>cs_ID = i, cs_ContainerPath = path_Join [rp_depotPath cfg, i],
                             cs_ContainerRootFSPath = rootFSPath, cs_Resources = r, cs_State = StateBorn, cs_Events = [],
                             cs_Spec = spec\<lparr>gs_Env := Env_Array (Env_Merge rootFSEnv specEnv), gs_Handle := handle\<rparr>,
                             cs_Limits = no_limits, cs_Processes = [], cs_DefaultProcessSignaller = False,
                             cs_NetIns = [], cs_NetOuts = [], cs_Version = rp_currentVersion cfg\<rparr>, s))))"

section \<open>Restoring\<close>

text \<open>
  The loop over the snapshot's ports: when one is taken, the subnet and all the snapshot's ports
  are released.
\<close>

definition restore_ports :: "network \<Rightarrow> port list \<Rightarrow> rp_state \<Rightarrow> unit res \<times> rp_state" where
  "restore_ports n ports s =
     on_error (\<lambda>s. let s = snd (on_subnets (SubnetPool_Release n) s) in
                   s\<lparr>rp_ports := fold PortPool_Release ports (rp_ports s)\<rparr>)
       (do_all (\<lambda>p. on_ports (PortPool_Remove p)) ports s)"

definition restored_spec :: "pool_config \<Rightarrow> snapshot \<Rightarrow> string \<Rightarrow> container_spec" where
  "restored_spec cfg sn version =
     (let r = sn_Resources sn in
      \<lparr>cs_ID = sn_ID sn, cs_ContainerPath = path_Join [rp_depotPath cfg, sn_ID sn],
       cs_ContainerRootFSPath = sn_RootFSPath sn,
       cs_Resources = NewResources (rsn_RootUID r) (rsn_Network r) (rsn_Bridge r) (rsn_Ports r) (rp_externalIP cfg),
       cs_State = sn_State sn, cs_Events = sn_Events sn,
       cs_Spec = zero_garden_spec\<lparr>gs_Handle := sn_Handle sn, gs_GraceTime := sn_GraceTime sn,
                                  gs_Properties := sn_Properties sn\<rparr>,
       cs_Limits = sn_Limits sn, cs_Processes = sn_Processes sn, cs_DefaultProcessSignaller = False,
       cs_NetIns = sn_NetIns sn, cs_NetOuts = sn_NetOuts sn, cs_Version = version\<rparr>)"

definition Pool_Restore :: "outside \<Rightarrow> pool_config \<Rightarrow> snapshot_json \<Rightarrow> rp_state \<Rightarrow> container_spec res \<times> rp_state" where
  "Pool_Restore out cfg j s =
     then_do (decode_snapshot j, s) (\<lambda>sn s.
     let r = sn_Resources sn in
     case rsn_Network r of
       None \<Rightarrow> (Panic ''nil pointer dereference'', s)
     | Some n \<Rightarrow>
         then_do (on_subnets (SubnetPool_Remove n) s) (\<lambda>_ s.
         then_do (on_error (\<lambda>s. snd (on_subnets (SubnetPool_Release n) s))
           (on_bridges (\<lambda>(m, w). case Mgr_Rereserve (rsn_Bridge r) (Subnet n) (sn_ID sn) m of (res, m) \<Rightarrow> (res, m, w)) s)) (\<lambda>_ s.
         then_do (restore_ports n (rsn_Ports r) s) (\<lambda>_ s.
         then_do (restoreContainerVersion out cfg (sn_ID sn) s) (\<lambda>version s.
         (Ok (restored_spec cfg sn version), s))))))"

end
