(* ===== verification/Resource_Pool_Props.thy ===== *)
theory Resource_Pool_Props
  imports Resource_Pool Container_Props
begin

text \<open>
  Properties of the resource pool: exact accounting of subnets and ports over every sequence of
  calls, what a failing call leaves behind, the round trip of acquiring and releasing, pruning, and
  restoring from a snapshot.
\<close>

section \<open>What leaves the subnet pool and the port pool alone\<close>

definition same_pools :: "rp_state \<Rightarrow> rp_state \<Rightarrow> bool" where
  "same_pools s s' \<longleftrightarrow> rp_subnets s' = rp_subnets s \<and> rp_ports s' = rp_ports s"

interpretation pools: frame same_pools
  by unfold_locales (auto simp: same_pools_def)

named_theorems pool_frame \<open>operations that leave the subnet and port pools alone\<close>

lemmas pools_steps [pool_frame] = pools.step_refl pools.step_then_do pools.step_pair pools.step_wrap_error pools.step_on_error

lemma same_pools_on_world [pool_frame]: "same_pools s (snd (on_world f s))"
  by (simp add: on_world_def same_pools_def split: prod.splits)

lemma same_pools_on_bridges [pool_frame]: "same_pools s (snd (on_bridges f s))"
  by (simp add: on_bridges_def same_pools_def split: prod.splits)

lemma same_pools_next_containerID [pool_frame]: "same_pools s (snd (next_containerID s))"
  by (simp add: next_containerID_def same_pools_def)

lemma same_pools_release_bridge [pool_frame]: "same_pools s (snd (release_bridge out cfg i s))"
proof -
  obtain r t where r: "on_world (read_file out (bridge_file cfg i)) s = (r, t)" by fastforce
  then have "same_pools s t" using same_pools_on_world [of s "read_file out (bridge_file cfg i)"] by simp
  then show ?thesis
    by (cases r) (auto simp: release_bridge_def r intro: pools.step_trans [OF _ pools.step_wrap_error [OF same_pools_on_bridges]])
qed

lemma same_pools_rootfs_provider_of [pool_frame]: "same_pools s (snd (rootfs_provider_of out cfg i s))"
  by (auto simp: rootfs_provider_of_def on_world_def same_pools_def split: prod.splits res.splits)

lemma same_pools_releaseSystemResources [pool_frame]: "same_pools s (snd (releaseSystemResources out cfg i s))"
proof -
  have "same_pools s (snd (case f s of (Panic m, s) \<Rightarrow> (Panic m, s) | (_, s) \<Rightarrow> (Ok (), s)))"
    if "\<And>s. same_pools s (snd (f s))" for f :: "rp_state \<Rightarrow> unit res \<times> rp_state" and s
    using that [of s] by (auto split: prod.splits res.splits)
  then have 1: "same_pools s (snd (case on_world f s of (Panic m, s) \<Rightarrow> (Panic m, s) | (_, s) \<Rightarrow> (Ok (), s)))"
    for f :: "world \<Rightarrow> unit res \<times> world" and s
    using same_pools_on_world by blast
  have 2: "same_pools s (snd (let (p, s) = rootfs_provider_of out cfg i s in g p s))"
    if "\<And>p s. same_pools s (snd (g p s))" for g :: "string \<Rightarrow> rp_state \<Rightarrow> unit res \<times> rp_state" and s
  proof -
    obtain p t where p: "rootfs_provider_of out cfg i s = (p, t)" by fastforce
    then have "same_pools s t" using same_pools_rootfs_provider_of [of s out cfg i] by simp
    then show ?thesis using pools.step_trans [OF _ that] by (simp add: p)
  qed
  show ?thesis
    unfolding releaseSystemResources_def
    by (intro pool_frame 2) (auto intro!: pool_frame 1 split: if_splits)
qed

lemma same_pools_tryRelease [pool_frame]: "same_pools s (tryReleaseSystemResources out cfg i s)"
  by (simp add: tryReleaseSystemResources_def same_pools_releaseSystemResources)

lemma same_pools_setupRootfs [pool_frame]: "same_pools s (snd (setupRootfs out spec i r s))"
  by (auto simp: setupRootfs_def Let_def intro!: pool_frame split: option.splits prod.splits)

lemma same_pools_setupBridge [pool_frame]: "same_pools s (snd (setupBridge out cfg i r s))"
  by (auto simp: setupBridge_def saveBridgeName_def intro!: pool_frame split: option.splits)

lemma same_pools_setupContainerDirectories [pool_frame]:
  "same_pools s (snd (setupContainerDirectories out cfg spec i r s))"
  by (auto simp: setupContainerDirectories_def intro!: pool_frame split: prod.splits)

lemma same_pools_run_create [pool_frame]: "same_pools s (snd (run_create out cfg spec i p r c s))"
  unfolding run_create_def saveRootFSProvider_def saveContainerVersion_def writeBindMounts_def by (intro pool_frame)

lemma same_pools_acquireSystemResources [pool_frame]: "same_pools s (snd (acquireSystemResources out cfg spec i r s))"
  unfolding acquireSystemResources_def Let_def
  by (auto intro!: pool_frame split: prod.splits option.splits)

lemma same_pools_setup_filter [pool_frame]: "same_pools s (snd (setup_filter out cfg i h s))"
  unfolding setup_filter_def by (intro pool_frame)

lemma same_pools_filter_turn [pool_frame]: "same_pools s (snd (filter_turn out cfg i h now (ch, s)))"
  using same_pools_setup_filter [of s out cfg i h]
  by (auto simp: filter_turn_def same_pools_def split: option.splits prod.splits)

lemma same_pools_prune_entries [pool_frame]: "same_pools s (prune_entries out cfg keep is s)"
proof (induction "is" arbitrary: s)
  case (Cons i "is")
  have "same_pools s (pruneEntry out cfg i s)" by (simp add: pruneEntry_def pool_frame)
  with Cons show ?case by (auto intro: pools.step_trans)
qed (simp add: pool_frame)

lemma same_pools_Prune: "same_pools s (snd (Pool_Prune out cfg keep s))"
  unfolding Pool_Prune_def Let_def
  by (intro pool_frame) (auto intro: pools.step_trans [OF same_pools_prune_entries same_pools_on_bridges])

lemma same_pools_Setup: "same_pools s (snd (Pool_Setup out cfg s))"
  unfolding Pool_Setup_def setupIPTables_def by (intro pool_frame)

section \<open>Acquiring and releasing\<close>

lemma releasePoolResources_held:
  assumes "subnet_pool_ok (rp_subnets s)" and "port_pool_ok (rp_ports s)"
    and "res_Network r = Some n" and "ok_network n"
  shows "subnet_pool_ok (rp_subnets (releasePoolResources r s))
    \<and> subnets_held (rp_subnets (releasePoolResources r s)) = subnets_held (rp_subnets s) - {network_key n}
    \<and> port_pool_ok (rp_ports (releasePoolResources r s))
    \<and> ports_held (rp_ports (releasePoolResources r s)) = ports_held (rp_ports s) - set (res_Ports r)"
proof -
  have "port_pool_ok (fold PortPool_Release ps p) \<and> ports_held (fold PortPool_Release ps p) = ports_held p - set ps"
    if "port_pool_ok p" for ps p
    using that
  proof (induction ps arbitrary: p)
    case (Cons x ps)
    then show ?case using ports.release_invar [of p x] ports.release_held [of p x] by auto
  qed simp
  moreover have "rp_subnets (releasePoolResources r s) = SubnetPool_release n (rp_subnets s)"
    "rp_ports (releasePoolResources r s) = fold PortPool_Release (res_Ports r) (rp_ports s)"
    using assms(3) by (simp_all add: releasePoolResources_def on_subnets_def SubnetPool_release_def split: prod.splits)
  ultimately show ?thesis
    using assms subnet_alloc.release_held [of "rp_subnets s" n] subnet_alloc.release_invar [of "rp_subnets s" n] by simp
qed

text \<open>The request that a specification makes of the subnet pool.\<close>

definition network_request :: "alloc_order \<Rightarrow> garden_spec \<Rightarrow> subnet_selector \<times> ip_selector \<times> alloc_order" where
  "network_request rng spec =
     (case parseNetworkSpec (gs_Network spec) of
        Ok (sn, i) \<Rightarrow> (sn, i, rng)
      | _ \<Rightarrow> (DynamicSubnetSelector, DynamicIPSelector, rng))"

lemma parseNetworkSpec_no_panic: "parseNetworkSpec spec \<noteq> Panic m"
  by (auto simp: parseNetworkSpec_def split: option.splits)

lemma acquirePoolResources_Ok:
  assumes "acquirePoolResources cfg rng spec s = (Ok r, s')"
  shows "\<exists>n. SubnetPool_Acquire (network_request rng spec) (rp_subnets s) = (Ok n, rp_subnets s')
    \<and> res_Network r = Some n \<and> res_Ports r = [] \<and> res_ExternalIP r = rp_externalIP cfg
    \<and> res_RootUID r = (if gs_Privileged spec then 0 else rp_mappedRoot cfg)
    \<and> s' = s\<lparr>rp_subnets := rp_subnets s'\<rparr>"
proof -
  from assms obtain sn i where p: "parseNetworkSpec (gs_Network spec) = Ok (sn, i)"
    by (cases "parseNetworkSpec (gs_Network spec)") (auto simp: acquirePoolResources_def)
  obtain a p' where a: "SubnetPool_Acquire (sn, i, rng) (rp_subnets s) = (a, p')" by fastforce
  show ?thesis
    using assms a
    by (cases a) (auto simp: acquirePoolResources_def p network_request_def on_subnets_def acquireUID_def NewResources_def)
qed

lemma acquirePoolResources_Err:
  assumes "acquirePoolResources cfg rng spec s = (Err e, s')"
  shows "same_pools s s'"
proof (cases "parseNetworkSpec (gs_Network spec)")
  case (Ok q)
  obtain sn i where q: "q = (sn, i)" by (cases q)
  obtain a p' where a: "SubnetPool_Acquire (sn, i, rng) (rp_subnets s) = (a, p')" by fastforce
  have "p' = rp_subnets s" if "\<not> is_ok a" using SubnetPool_Acquire_fail [OF a that] .
  then show ?thesis
    using assms a
    by (cases a) (auto simp: acquirePoolResources_def Ok q on_subnets_def acquireUID_def NewResources_def
        releasePoolResources_def same_pools_def)
qed (use assms in \<open>auto simp: acquirePoolResources_def same_pools_def\<close>)

lemma setupContainerDirectories_resources:
  "setupContainerDirectories out cfg spec i r s = (Ok (p, e, r'), s') \<Longrightarrow> \<exists>b. r' = r\<lparr>res_Bridge := b\<rparr>"
  by (auto simp: setupContainerDirectories_def setupBridge_def ok_iffs split: option.splits prod.splits)

lemma acquireSystemResources_resources:
  "acquireSystemResources out cfg spec i r s = (Ok (p, e, r'), s') \<Longrightarrow> \<exists>b. r' = r\<lparr>res_Bridge := b\<rparr>"
  by (auto simp: acquireSystemResources_def ok_iffs Let_def split: option.splits prod.splits
      dest!: setupContainerDirectories_resources)

lemma releasePoolResources_bridge: "releasePoolResources (r\<lparr>res_Bridge := b\<rparr>) = releasePoolResources r"
  by (rule ext) (simp add: releasePoolResources_def)

text \<open>What \<open>Acquire\<close> does to the pools: it takes a network, or gives it back.\<close>

lemma same_pools_eqs:
  "next_containerID s = (i, s') \<Longrightarrow> same_pools s s'"
  "filter_turn out cfg i h now (ch, s) = (ch', s') \<Longrightarrow> same_pools s s'"
  "acquireSystemResources out cfg spec i r s = (x, s') \<Longrightarrow> same_pools s s'"
  using same_pools_next_containerID [of s] same_pools_filter_turn [of s out cfg i h now ch]
    same_pools_acquireSystemResources [of s out cfg spec i r] by simp_all

lemma Pool_Acquire_Ok:
  assumes "Pool_Acquire out cfg sched rng spec s = (Ok c, s')"
  shows "\<exists>n. SubnetPool_Acquire (network_request rng spec) (rp_subnets s) = (Ok n, rp_subnets s')
    \<and> res_Network (cs_Resources c) = Some n \<and> res_Ports (cs_Resources c) = [] \<and> rp_ports s' = rp_ports s
    \<and> cs_ID c = fst (next_containerID s)"
proof -
  obtain i s1 where i: "next_containerID s = (i, s1)" by fastforce
  let ?turn = "filter_turn out cfg i (getHandle (gs_Handle spec) i)"
  obtain ch s2 where f: "?turn (sched = FilterFirst) (None, s1) = (ch, s2)" by fastforce
  obtain ra s3 where a: "acquirePoolResources cfg rng spec s2 = (ra, s3)" by fastforce
  from assms a obtain r where r: "ra = Ok r" by (cases ra) (auto simp: Pool_Acquire_def i f Let_def)
  obtain ch' s4 where f': "?turn (sched = FilterBetween) (ch, s3) = (ch', s4)" by fastforce
  obtain rb s5 where b: "acquireSystemResources out cfg spec i r s4 = (rb, s5)" by fastforce
  from assms a r b obtain p e r' where x: "rb = Ok (p, e, r')"
    by (cases rb) (auto simp: Pool_Acquire_def i f f' Let_def)
  obtain ch'' s6 where f'': "?turn True (ch', s5) = (ch'', s6)" by fastforce
  have res: "s' = s6 \<and> cs_Resources c = r' \<and> cs_ID c = i"
    using assms a r b x
    by (simp add: Pool_Acquire_def i f f' f'' Let_def split: option.splits res.splits) (auto split: res.splits)
  obtain bn where r': "r' = r\<lparr>res_Bridge := bn\<rparr>" using acquireSystemResources_resources b x by blast
  have before: "same_pools s s2" by (rule pools.step_trans [OF same_pools_eqs(1) [OF i] same_pools_eqs(2) [OF f]])
  have after: "same_pools s3 s6"
    by (rule pools.step_trans [OF same_pools_eqs(2) [OF f']
          pools.step_trans [OF same_pools_eqs(3) [OF b] same_pools_eqs(2) [OF f'']]])
  from acquirePoolResources_Ok [OF a [unfolded r]] obtain n where
    n: "SubnetPool_Acquire (network_request rng spec) (rp_subnets s2) = (Ok n, rp_subnets s3)"
    "res_Network r = Some n" "res_Ports r = []" and s3: "s3 = s2\<lparr>rp_subnets := rp_subnets s3\<rparr>" by blast
  from s3 have "rp_ports s3 = rp_ports s2" by (metis rp_state.select_convs(3) rp_state.update_convs(1) rp_state.surjective)
  with res r' before after n show ?thesis by (simp add: same_pools_def i)
qed

lemma Pool_Acquire_Err:
  assumes "Pool_Acquire out cfg sched rng spec s = (Err e, s')"
  shows "rp_ports s' = rp_ports s \<and> (rp_subnets s' = rp_subnets s
    \<or> (\<exists>n p. SubnetPool_Acquire (network_request rng spec) (rp_subnets s) = (Ok n, p)
          \<and> rp_subnets s' = SubnetPool_release n p))"
proof -
  obtain i s1 where i: "next_containerID s = (i, s1)" by fastforce
  let ?turn = "filter_turn out cfg i (getHandle (gs_Handle spec) i)"
  obtain ch s2 where f: "?turn (sched = FilterFirst) (None, s1) = (ch, s2)" by fastforce
  obtain ra s3 where a: "acquirePoolResources cfg rng spec s2 = (ra, s3)" by fastforce
  have before: "same_pools s s2" by (rule pools.step_trans [OF same_pools_eqs(1) [OF i] same_pools_eqs(2) [OF f]])
  consider e' where "ra = Err e'" | r where "ra = Ok r"
    using assms a by (cases ra) (auto simp: Pool_Acquire_def i f Let_def)
  then show ?thesis
  proof cases
    case 1
    obtain ch' s4 where f': "?turn True (ch, s3) = (ch', s4)" by fastforce
    with assms 1 a have "s' = s4" by (simp add: Pool_Acquire_def i f Let_def)
    with pools.step_trans [OF before pools.step_trans [OF acquirePoolResources_Err [OF a [unfolded 1]] same_pools_eqs(2) [OF f']]]
    show ?thesis by (simp add: same_pools_def)
  next
    case 2
    obtain ch' s4 where f': "?turn (sched = FilterBetween) (ch, s3) = (ch', s4)" by fastforce
    obtain rb s5 where b: "acquireSystemResources out cfg spec i r s4 = (rb, s5)" by fastforce
    have after: "same_pools s3 s5" by (rule pools.step_trans [OF same_pools_eqs(2) [OF f'] same_pools_eqs(3) [OF b]])
    have "\<exists>t. same_pools s3 t \<and> same_pools (releasePoolResources r t) s'"
    proof (cases rb)
      case (Err e')
      obtain ch'' s6 where f'': "?turn True (ch', releasePoolResources r s5) = (ch'', s6)" by fastforce
      with assms 2 a b Err have "s' = s6" by (simp add: Pool_Acquire_def i f f' Let_def)
      with after same_pools_eqs(2) [OF f''] show ?thesis by blast
    next
      case (Ok x)
      obtain p e r' where x: "x = (p, e, r')" by (cases x)
      obtain bn where r': "r' = r\<lparr>res_Bridge := bn\<rparr>" using acquireSystemResources_resources b Ok x by blast
      obtain ch'' s6 where f'': "?turn True (ch', s5) = (ch'', s6)" by fastforce
      have "s' = releasePoolResources r' (tryReleaseSystemResources out cfg i s6)"
        using assms 2 a b Ok x
        by (simp add: Pool_Acquire_def i f f' f'' Let_def split: option.splits res.splits)
      moreover have "same_pools s3 (tryReleaseSystemResources out cfg i s6)"
        by (rule pools.step_trans [OF after pools.step_trans [OF same_pools_eqs(2) [OF f''] same_pools_tryRelease]])
      ultimately show ?thesis using pools.step_refl by (auto simp: r' releasePoolResources_bridge)
    qed (use assms 2 a b in \<open>simp add: Pool_Acquire_def i f f' Let_def\<close>)
    then obtain t where t: "same_pools s3 t" "same_pools (releasePoolResources r t) s'" by blast
    from acquirePoolResources_Ok [OF a [unfolded 2]] obtain n where
      n: "SubnetPool_Acquire (network_request rng spec) (rp_subnets s2) = (Ok n, rp_subnets s3)"
      "res_Network r = Some n" "res_Ports r = []" and s3: "s3 = s2\<lparr>rp_subnets := rp_subnets s3\<rparr>" by blast
    from s3 have "rp_ports s3 = rp_ports s2" by (metis rp_state.select_convs(3) rp_state.update_convs(1) rp_state.surjective)
    moreover have "rp_subnets (releasePoolResources r t) = SubnetPool_release n (rp_subnets t)"
      "rp_ports (releasePoolResources r t) = rp_ports t"
      using n(2,3) by (simp_all add: releasePoolResources_def on_subnets_def SubnetPool_release_def split: prod.splits)
    ultimately show ?thesis using before t n(1) by (auto simp: same_pools_def)
  qed
qed

section \<open>Restoring\<close>

lemma restore_ports_Ok:
  assumes "restore_ports n ps s = (Ok u, s')" and "port_pool_ok (rp_ports s)"
  shows "distinct ps \<and> set ps \<inter> ports_held (rp_ports s) = {} \<and> port_pool_ok (rp_ports s')
    \<and> ports_held (rp_ports s') = ports_held (rp_ports s) \<union> set ps \<and> rp_subnets s' = rp_subnets s"
proof -
  from assms(1) have "do_all (\<lambda>p. on_ports (PortPool_Remove p)) ps s = (Ok u, s')"
    by (simp add: restore_ports_def on_error_Ok_iff)
  then show ?thesis
    using assms(2)
  proof (induction ps arbitrary: s)
    case (Cons p ps)
    then obtain t where t: "on_ports (PortPool_Remove p) s = (Ok (), t)"
      and rest: "do_all (\<lambda>p. on_ports (PortPool_Remove p)) ps t = (Ok u, s')"
      by (auto simp: then_do_Ok_iff)
    then obtain pp where "PortPool_Remove p (rp_ports s) = (Ok (), pp)" and t': "t = s\<lparr>rp_ports := pp\<rparr>"
      by (auto simp: on_ports_def split: prod.splits)
    from ports.reserve_Ok [OF Cons.prems(2) _ this(1)] have
      "p \<notin> ports_held (rp_ports s)" "ports_held pp = insert p (ports_held (rp_ports s))" "port_pool_ok pp" by simp_all
    with Cons.IH [OF rest] t' show ?case by auto
  qed auto
qed

lemma restore_ports_subnets: "restore_ports n ps s = (Ok u, s') \<Longrightarrow> rp_subnets s' = rp_subnets s"
proof -
  have "do_all (\<lambda>p. on_ports (PortPool_Remove p)) ps s = (Ok u, s') \<Longrightarrow> rp_subnets s' = rp_subnets s" for u
    by (induction ps arbitrary: s) (auto simp: then_do_Ok_iff on_ports_def split: prod.splits)
  then show "restore_ports n ps s = (Ok u, s') \<Longrightarrow> rp_subnets s' = rp_subnets s"
    by (simp add: restore_ports_def on_error_Ok_iff)
qed

lemma Pool_Restore_Ok:
  assumes "Pool_Restore out cfg j s = (Ok c, s')"
  shows "\<exists>sn n version m1 t. decode_snapshot j = Ok sn \<and> c = restored_spec cfg sn version
    \<and> rsn_Network (sn_Resources sn) = Some n
    \<and> SubnetPool_Remove n (rp_subnets s) = (Ok (), rp_subnets s')
    \<and> restore_ports n (rsn_Ports (sn_Resources sn)) t = (Ok (), m1) \<and> rp_ports t = rp_ports s \<and> rp_ports s' = rp_ports m1
    \<and> rp_subnets t = rp_subnets s'"
proof -
  from assms obtain sn n s1 s2 s3 version where sn: "decode_snapshot j = Ok sn" "rsn_Network (sn_Resources sn) = Some n"
    and s1: "on_subnets (SubnetPool_Remove n) s = (Ok (), s1)"
    and s2: "on_bridges (\<lambda>(m, w). case Mgr_Rereserve (rsn_Bridge (sn_Resources sn)) (Subnet n) (sn_ID sn) m of
         (res, m) \<Rightarrow> (res, m, w)) s1 = (Ok (), s2)"
    and s3: "restore_ports n (rsn_Ports (sn_Resources sn)) s2 = (Ok (), s3)"
    and v: "restoreContainerVersion out cfg (sn_ID sn) s3 = (Ok version, s')" "c = restored_spec cfg sn version"
    by (auto simp: Pool_Restore_def ok_iffs Let_def split: option.splits)
  have "same_pools s1 s2" using same_pools_on_bridges [of s1] s2 by (metis snd_conv)
  moreover have "same_pools s3 s'" using v(1)
    by (auto simp: restoreContainerVersion_def on_world_def same_pools_def split: prod.splits res.splits if_splits)
  moreover have "rp_subnets s3 = rp_subnets s2"
    using s3 by (rule restore_ports_subnets)
  ultimately show ?thesis using sn s1 s3 v
    by (intro exI [of _ sn] exI [of _ n] exI [of _ version] exI [of _ s3] exI [of _ s2])
      (auto simp: same_pools_def on_subnets_def split: prod.splits)
qed

section \<open>Accounting\<close>

text \<open>
  The calls of the backend and of the live containers, as steps on the pool and the list of live
  containers. A port is taken by \<open>NetIn\<close> of a live container. Networks are IPv4, and a map is
  traversed in some order.
\<close>

definition ok_request :: "alloc_order \<Rightarrow> garden_spec \<Rightarrow> bool" where
  "ok_request rng spec \<longleftrightarrow> ok_subnet_req (network_request rng spec)"

inductive pool_step :: "outside \<Rightarrow> pool_config \<Rightarrow> rp_state \<times> container_spec list \<Rightarrow> rp_state \<times> container_spec list \<Rightarrow> bool"
  for out cfg where
  acquire: "ok_request rng spec \<Longrightarrow> Pool_Acquire out cfg sched rng spec s = (Ok c, s') \<Longrightarrow>
    pool_step out cfg (s, live) (s', c # live)"
| acquire_fails: "ok_request rng spec \<Longrightarrow> Pool_Acquire out cfg sched rng spec s = (Err e, s') \<Longrightarrow>
    pool_step out cfg (s, live) (s', live)"
| take_port: "PortPool_Acquire (rp_ports s) = (Ok p, pp) \<Longrightarrow>
    pool_step out cfg (s, xs @ c # ys)
      (s\<lparr>rp_ports := pp\<rparr>, xs @ c\<lparr>cs_Resources := AddPort p (cs_Resources c)\<rparr> # ys)"
| release: "Pool_Release out cfg c s = (Ok u, s') \<Longrightarrow> pool_step out cfg (s, xs @ c # ys) (s', xs @ ys)"
| release_fails: "Pool_Release out cfg c s = (Err e, s') \<Longrightarrow> pool_step out cfg (s, live) (s', live)"
| restore: "decode_snapshot j = Ok sn \<Longrightarrow> rsn_Network (sn_Resources sn) = Some n \<Longrightarrow> ok_network n \<Longrightarrow>
    Pool_Restore out cfg j s = (Ok c, s') \<Longrightarrow> pool_step out cfg (s, live) (s', c # live)"
| prune: "Pool_Prune out cfg keep s = (r, s') \<Longrightarrow> pool_step out cfg (s, live) (s', live)"
| prepare: "Pool_Setup out cfg s = (r, s') \<Longrightarrow> pool_step out cfg (s, live) (s', live)"

definition spec_key :: "container_spec \<Rightarrow> string \<times> ip" where
  "spec_key c = network_key (the (res_Network (cs_Resources c)))"

definition spec_ports :: "container_spec \<Rightarrow> port list" where
  "spec_ports c = res_Ports (cs_Resources c)"

definition has_network :: "container_spec \<Rightarrow> bool" where
  "has_network c \<longleftrightarrow> (\<exists>n. res_Network (cs_Resources c) = Some n \<and> ok_network n)"

text \<open>Nothing is held but by a live container, and nothing by two of them.\<close>

fun accounted :: "rp_state \<times> container_spec list \<Rightarrow> bool" where
  "accounted (s, live) \<longleftrightarrow>
     subnet_pool_ok (rp_subnets s) \<and> port_pool_ok (rp_ports s) \<and> list_all has_network live
   \<and> distinct (map spec_key live) \<and> subnets_held (rp_subnets s) = set (map spec_key live)
   \<and> distinct (concat (map spec_ports live)) \<and> ports_held (rp_ports s) = set (concat (map spec_ports live))"

lemma Pool_Release_Ok: "Pool_Release out cfg c s = (Ok u, s') \<Longrightarrow> \<exists>t. same_pools s t \<and> s' = releasePoolResources (cs_Resources c) t"
  using same_pools_releaseSystemResources [of s out cfg "cs_ID c"] by (auto simp: Pool_Release_def then_do_Ok_iff)

lemma Pool_Release_Err: "Pool_Release out cfg c s = (Err e, s') \<Longrightarrow> same_pools s s'"
  using same_pools_releaseSystemResources [of s out cfg "cs_ID c"] by (auto simp: Pool_Release_def then_do_Err_iff)

lemma accounted_same: "accounted (s, live) \<Longrightarrow> same_pools s s' \<Longrightarrow> accounted (s', live)"
  by (simp add: same_pools_def)

lemma accounted_add:
  assumes "accounted (s, live)" and "has_network c" and "spec_key c \<notin> subnets_held (rp_subnets s)"
    and "subnets_held (rp_subnets s') = insert (spec_key c) (subnets_held (rp_subnets s))" and "subnet_pool_ok (rp_subnets s')"
    and "distinct (spec_ports c)" and "set (spec_ports c) \<inter> ports_held (rp_ports s) = {}"
    and "ports_held (rp_ports s') = ports_held (rp_ports s) \<union> set (spec_ports c)" and "port_pool_ok (rp_ports s')"
  shows "accounted (s', c # live)"
  using assms by auto

lemma accounted_acquire_fails:
  assumes "accounted (s, live)" and "ok_request rng spec" and "Pool_Acquire out cfg sched rng spec s = (Err e, s')"
  shows "accounted (s', live)"
proof -
  from Pool_Acquire_Err [OF assms(3)] assms(1) show ?thesis
    using subnet_alloc.acquire_release [of "rp_subnets s" "network_request rng spec"] assms(2)
    by (auto simp: ok_request_def)
qed

lemma accounted_release:
  assumes "accounted (s, xs @ c # ys)"
  shows "accounted (releasePoolResources (cs_Resources c) s, xs @ ys)"
proof -
  from assms obtain n where n: "res_Network (cs_Resources c) = Some n" "ok_network n" by (auto simp: has_network_def)
  have ok: "subnet_pool_ok (rp_subnets s)" "port_pool_ok (rp_ports s)" using assms by simp_all
  have "spec_key c = network_key n" using n by (simp add: spec_key_def)
  with releasePoolResources_held [OF ok n] assms show ?thesis by (auto simp: spec_ports_def)
qed

lemma accounted_take_port:
  assumes "accounted (s, xs @ c # ys)" and "PortPool_Acquire (rp_ports s) = (Ok p, pp)"
  shows "accounted (s\<lparr>rp_ports := pp\<rparr>, xs @ c\<lparr>cs_Resources := AddPort p (cs_Resources c)\<rparr> # ys)"
proof -
  have "port_pool_ok (rp_ports s)" using assms(1) by simp
  from ports.acquire_Ok [OF this _ assms(2)] have p: "p \<notin> ports_held (rp_ports s)"
    "ports_held pp = insert p (ports_held (rp_ports s))" "port_pool_ok pp" by simp_all
  let ?c = "c\<lparr>cs_Resources := AddPort p (cs_Resources c)\<rparr>"
  have "spec_ports ?c = spec_ports c @ [p]" "spec_key ?c = spec_key c" "has_network ?c = has_network c"
    by (simp_all add: spec_ports_def AddPort_def spec_key_def has_network_def)
  with p assms(1) show ?thesis by auto
qed

lemma accounted_step: "pool_step out cfg x y \<Longrightarrow> accounted x \<Longrightarrow> accounted y"
proof (induction rule: pool_step.induct)
  case (acquire rng spec sched s c s' live)
  from Pool_Acquire_Ok [OF acquire(2)] obtain n where
    n: "SubnetPool_Acquire (network_request rng spec) (rp_subnets s) = (Ok n, rp_subnets s')"
    "res_Network (cs_Resources c) = Some n" "res_Ports (cs_Resources c) = []" "rp_ports s' = rp_ports s" by blast
  have "subnet_pool_ok (rp_subnets s)" using acquire(3) by simp
  from subnet_alloc.acquire_Ok [OF this _ n(1)] acquire(1) have
    "network_key n \<notin> subnets_held (rp_subnets s)" "subnet_pool_ok (rp_subnets s')" "ok_network n"
    "subnets_held (rp_subnets s') = insert (network_key n) (subnets_held (rp_subnets s))"
    by (simp_all add: ok_request_def)
  with n(2-4) acquire(3) show ?case
    by (intro accounted_add [OF acquire(3)]) (simp_all add: spec_key_def has_network_def spec_ports_def)
next
  case (restore j sn n s c s' live)
  from Pool_Restore_Ok [OF restore(4)] restore(1,2) obtain version t m where
    r: "c = restored_spec cfg sn version" "SubnetPool_Remove n (rp_subnets s) = (Ok (), rp_subnets s')"
    "restore_ports n (rsn_Ports (sn_Resources sn)) t = (Ok (), m)" "rp_ports t = rp_ports s" "rp_ports s' = rp_ports m"
    by auto
  have ok: "subnet_pool_ok (rp_subnets s)" "port_pool_ok (rp_ports t)" using restore(5) r(4) by simp_all
  have c: "res_Network (cs_Resources c) = Some n" "res_Ports (cs_Resources c) = rsn_Ports (sn_Resources sn)"
    using r(1) restore(2) by (simp_all add: restored_spec_def NewResources_def Let_def)
  note n = subnet_alloc.reserve_Ok [OF ok(1) restore(3) r(2)] and p = restore_ports_Ok [OF r(3) ok(2)]
  show ?case
    using n p c restore(3) r(4,5)
    by (intro accounted_add [OF restore(5)]) (simp_all add: spec_key_def has_network_def spec_ports_def)
next
  case (release c s u s' xs ys)
  from Pool_Release_Ok [OF release(1)] obtain t where t: "same_pools s t" "s' = releasePoolResources (cs_Resources c) t" by blast
  show ?case unfolding t(2) by (rule accounted_release [OF accounted_same [OF release(2) t(1)]])
next
  case (take_port s p pp xs c ys)
  then show ?case by (intro accounted_take_port)
next
  case (prune keep s r s' live)
  have "same_pools s s'" using prune(1) same_pools_Prune [of s out cfg keep] by simp
  then show ?case by (rule accounted_same [OF prune(2)])
next
  case (prepare s r s' live)
  have "same_pools s s'" using prepare(1) same_pools_Setup [of s out cfg] by simp
  then show ?case by (rule accounted_same [OF prepare(2)])
next
  case (acquire_fails rng spec sched s e s' live)
  show ?case by (rule accounted_acquire_fails [OF acquire_fails(3,1,2)])
next
  case (release_fails c s e s' live)
  show ?case by (rule accounted_same [OF release_fails(2) Pool_Release_Err [OF release_fails(1)]])
qed

section \<open>When the outside does not fail\<close>

text \<open>The calls of a method succeed when no external call fails.\<close>

definition all_ok :: "outside \<Rightarrow> bool" where
  "all_ok out \<longleftrightarrow> (\<forall>t e. o_err out t e = None)"

lemma is_ok_iff: "is_ok r \<longleftrightarrow> (\<exists>x. r = Ok x)"
  by (cases r) auto

named_theorems succeeds \<open>calls that succeed when the outside does not fail\<close>

lemma is_ok_then_do [succeeds]:
  assumes "is_ok (fst r)" and "\<And>x s. r = (Ok x, s) \<Longrightarrow> is_ok (fst (f x s))"
  shows "is_ok (fst (then_do r f))"
  using assms by (cases r; cases "fst r") auto

lemma is_ok_wrap_error [succeeds]: "is_ok (fst r) \<Longrightarrow> is_ok (fst (wrap_error p r))"
  by (cases r; cases "fst r") auto

lemma is_ok_on_error [succeeds]: "is_ok (fst r) \<Longrightarrow> is_ok (fst (on_error undo r))"
  by (cases r; cases "fst r") auto

lemma is_ok_do_all [succeeds]: "(\<And>x s. is_ok (fst (f x s))) \<Longrightarrow> is_ok (fst (do_all f xs s))"
  by (induction xs arbitrary: s) (auto intro!: is_ok_then_do)

lemma is_ok_on_world [succeeds]: "(\<And>w. is_ok (fst (f w))) \<Longrightarrow> is_ok (fst (on_world f s))"
  by (simp add: on_world_def split: prod.splits) (metis fst_conv)

lemma is_ok_pair [succeeds]: "is_ok r \<Longrightarrow> is_ok (fst (r, s))" "is_ok (Ok x)"
  by simp_all

lemma is_ok_external [succeeds]:
  assumes "all_ok out"
  shows "is_ok (fst (perform out e w))" "is_ok (fst (run_cmd out c w))" "is_ok (fst (write_file out p s w))"
    "is_ok (fst (write_kernel out e w))"
  using assms by (simp_all add: all_ok_def perform_def run_cmd_def write_file_def write_kernel_def)

lemma is_ok_ProvideFilter [succeeds]:
  assumes "all_ok out"
  shows "is_ok (fst (Filter_Setup out (ProvideFilter p i) h w))" "is_ok (fst (Filter_TearDown out (ProvideFilter p i) w))"
proof -
  have "logChainName (ProvideFilter p i) \<noteq> ''''" by (simp add: ProvideFilter_def NewLoggingChain_def)
  then show "is_ok (fst (Filter_TearDown out (ProvideFilter p i) w))"
    by (simp add: Filter_TearDown_def Chain_TearDown_def split: prod.splits)
  moreover have "is_ok (fst (Chain_TearDown out (ProvideFilter p i) w))" for w
    using \<open>logChainName (ProvideFilter p i) \<noteq> ''''\<close> by (simp add: Chain_TearDown_def split: prod.splits)
  ultimately show "is_ok (fst (Filter_Setup out (ProvideFilter p i) h w))"
    using \<open>logChainName (ProvideFilter p i) \<noteq> ''''\<close> assms unfolding Filter_Setup_def
    by (auto simp: Chain_Setup_def intro!: succeeds)
qed

lemma is_ok_ContainerTeardown [succeeds]:
  assumes "all_ok out"
  shows "is_ok (fst (ContainerTeardown out chs i w))"
proof -
  have one: "is_ok (fst (MgrChain_Teardown out c i w))" for c w
    using assms by (cases c) (auto intro!: succeeds)
  have "is_ok (fst (teardown_loop out chs i (Ok ()) w))" for w
  proof (induction chs arbitrary: w)
    case (Cons c chs)
    obtain r w' where r: "MgrChain_Teardown out c i w = (r, w')" by fastforce
    with one [of c w] obtain u where "r = Ok u" by (auto simp: is_ok_iff)
    with r Cons show ?case by simp
  qed simp
  then show ?thesis by (simp add: ContainerTeardown_def)
qed

lemma is_ok_Mgr_Release:
  "all_ok out \<Longrightarrow> is_ok (fst (on_bridges (Mgr_Release out b i) s))"
  by (auto simp: on_bridges_def Mgr_Release_def all_ok_def perform_def split: prod.splits)

lemma is_ok_releaseSystemResources [succeeds]:
  assumes "all_ok out"
  shows "is_ok (fst (releaseSystemResources out cfg i s))"
proof -
  have "is_ok (fst (release_bridge out cfg i s))" for s
    using assms is_ok_Mgr_Release
    by (auto simp: release_bridge_def intro!: is_ok_wrap_error split: prod.splits res.splits)
  moreover have "is_ok (fst (case on_world (Filter_TearDown out (ProvideFilter p i)) s of (Panic m, s) \<Rightarrow> (Panic m, s) | (_, s) \<Rightarrow> (Ok (), s)))" for p s
    using is_ok_on_world [of "Filter_TearDown out (ProvideFilter p i)" s] is_ok_ProvideFilter(2) [OF assms]
    by (auto split: prod.splits res.splits)
  ultimately show ?thesis
    using assms unfolding releaseSystemResources_def Let_def
    by (intro is_ok_then_do) (auto intro!: succeeds split: prod.splits)
qed

lemma Pool_Release_succeeds: "all_ok out \<Longrightarrow> is_ok (fst (Pool_Release out cfg c s))"
  unfolding Pool_Release_def by (intro succeeds)

lemma SubnetPool_Acquire_gateway:
  "SubnetPool_Acquire q p = (Ok n, p') \<Longrightarrow> is_ok (GatewayIP (Subnet n))"
  by (cases q) (auto simp: Let_def is_ok_iff res_bind_Ok_iff split: res.splits)

lemma is_ok_setupRootfs:
  assumes "all_ok out" and "o_url_ok out (gs_RootFSPath spec) = None" and "\<And>t i rs. is_ok (NewEnv (snd (o_rootfs out t i rs)))"
  shows "is_ok (fst (setupRootfs out spec i r s))"
  using assms(2) assms(3) [of "trace (rp_world s)" i] is_ok_external(1) [OF assms(1)]
  by (auto simp: setupRootfs_def Let_def intro!: is_ok_then_do is_ok_on_world is_ok_pair split: prod.splits)
    (metis snd_conv)

lemma is_ok_setupBridge:
  assumes "all_ok out" and "res_Network r = Some n" and "is_ok (GatewayIP (Subnet n))"
  shows "is_ok (fst (setupBridge out cfg i r s))"
proof -
  have "is_ok (fst (on_bridges (Mgr_Reserve out (Subnet n) i) s))" for s
    using assms(1,3) by (auto simp: on_bridges_def Mgr_Reserve_def all_ok_def perform_def is_ok_iff Let_def split: prod.splits option.splits)
  then show ?thesis
    using assms(1,2) by (auto simp: setupBridge_def saveBridgeName_def intro!: succeeds)
qed

lemma is_ok_acquireSystemResources:
  assumes "all_ok out" and "res_Network r = Some n" and "is_ok (GatewayIP (Subnet n))"
    and "o_url_ok out (gs_RootFSPath spec) = None" and "\<And>t i rs. is_ok (NewEnv (snd (o_rootfs out t i rs)))"
  shows "is_ok (fst (acquireSystemResources out cfg spec i r s))"
proof -
  have dirs: "is_ok (fst (setupContainerDirectories out cfg spec i r s))" for s
    unfolding setupContainerDirectories_def
    by (auto intro!: succeeds is_ok_setupRootfs [OF assms(1,4,5)] is_ok_setupBridge [OF assms(1-3)])
  have "is_ok (fst (run_create out cfg spec i p r' c s))" for p r' c s
    unfolding run_create_def saveRootFSProvider_def saveContainerVersion_def writeBindMounts_def mount_one_def Let_def
    using assms(1) by (intro succeeds)
  then show ?thesis
    unfolding acquireSystemResources_def Let_def using assms(1-3) dirs
    by (auto intro!: succeeds simp: on_error_Ok_iff split: option.splits dest!: setupContainerDirectories_resources)
qed

section \<open>An example\<close>

definition example_pool_config :: pool_config where
  "example_pool_config =
     \<lparr>rp_binPath = ''/bin'', rp_depotPath = ''/depot'', rp_denyNetworks = [''0.0.0.0/0''], rp_allowNetworks = [''10.0.0.1/32''],
      rp_mappedRoot = 600000, rp_externalIP = [1, 2, 3, 4], rp_mtu = 1500,
      rp_iptablesMgr = prov_ipTablesMgr example_provider, rp_filterProvider = example_provider,
      rp_defaultChain = NewGlobalChain ''w-1-default'', rp_currentVersion = ''1.0.0''\<rparr>"

definition example_pool :: rp_state where
  "example_pool =
     \<lparr>rp_subnets = NewSubnets example_range, rp_bridges = BridgeMgr_New ''w1b-'' 1447574400000000000,
      rp_ports = example_ports, rp_containerNum = 1447574400000000000, rp_world = empty_world\<rparr>"

lemma acquirePoolResources_succeeds:
  assumes "is_ok (parseNetworkSpec (gs_Network spec))"
    and "SubnetPool_Acquire (network_request rng spec) (rp_subnets s) = (Ok n, p)"
  shows "\<exists>r s'. acquirePoolResources cfg rng spec s = (Ok r, s') \<and> res_Network r = Some n"
  using assms by (auto simp: acquirePoolResources_def network_request_def is_ok_iff on_subnets_def)

lemma filter_turn_succeeds:
  assumes "all_ok out" and "ch = None \<or> ch = Some (Ok ())" and "filter_turn out cfg i h now (ch, s) = (ch', s')"
  shows "ch' = None \<or> ch' = Some (Ok ())" and "now \<Longrightarrow> ch' = Some (Ok ())"
proof -
  have "is_ok (fst (setup_filter out cfg i h s))" unfolding setup_filter_def using assms(1) by (intro succeeds)
  then obtain t where "setup_filter out cfg i h s = (Ok (), t)" by (metis is_ok_iff old.unit.exhaust prod.collapse)
  then show "ch' = None \<or> ch' = Some (Ok ())" and "now \<Longrightarrow> ch' = Some (Ok ())"
    using assms(2,3) by (auto simp: filter_turn_def split: if_splits)
qed

lemma Pool_Acquire_succeeds:
  assumes "all_ok out" and "is_ok (parseNetworkSpec (gs_Network spec))"
    and "SubnetPool_Acquire (network_request rng spec) (rp_subnets s) = (Ok n, p)"
    and "o_url_ok out (gs_RootFSPath spec) = None" and "\<And>t i rs. is_ok (NewEnv (snd (o_rootfs out t i rs)))"
    and "is_ok (NewEnv (gs_Env spec))"
  shows "\<exists>c s'. Pool_Acquire out cfg sched rng spec s = (Ok c, s')"
proof -
  obtain i s1 where i: "next_containerID s = (i, s1)" by fastforce
  let ?turn = "filter_turn out cfg i (getHandle (gs_Handle spec) i)"
  obtain ch s2 where f: "?turn (sched = FilterFirst) (None, s1) = (ch, s2)" by fastforce
  have "same_pools s s2" by (rule pools.step_trans [OF same_pools_eqs(1) [OF i] same_pools_eqs(2) [OF f]])
  then have "SubnetPool_Acquire (network_request rng spec) (rp_subnets s2) = (Ok n, p)"
    using assms(3) by (simp add: same_pools_def)
  from acquirePoolResources_succeeds [OF assms(2) this] obtain r s3 where
    a: "acquirePoolResources cfg rng spec s2 = (Ok r, s3)" "res_Network r = Some n" by blast
  obtain ch' s4 where f': "?turn (sched = FilterBetween) (ch, s3) = (ch', s4)" by fastforce
  from is_ok_acquireSystemResources [OF assms(1) a(2) SubnetPool_Acquire_gateway [OF assms(3)] assms(4,5)]
  obtain q e r' s5 where b: "acquireSystemResources out cfg spec i r s4 = (Ok (q, e, r'), s5)"
    by (metis is_ok_iff prod.collapse)
  obtain ch'' s6 where f'': "?turn True (ch', s5) = (ch'', s6)" by fastforce
  have "ch'' = Some (Ok ())"
    using filter_turn_succeeds [OF assms(1) _ f] filter_turn_succeeds [OF assms(1) _ f'] filter_turn_succeeds [OF assms(1) _ f'']
    by blast
  moreover obtain v where "NewEnv (gs_Env spec) = Ok v" using assms(6) by (auto simp: is_ok_iff)
  ultimately show ?thesis using a(1) b by (simp add: Pool_Acquire_def i f f' f'' Let_def)
qed

section \<open>Properties\<close>

text \<open>
  C1. Subnets and ports are accounted for exactly. However containers are acquired (whether that
  succeeds or fails at any step, whenever the goroutine for the filter runs), map ports, are
  released, restored and pruned, in any order: the networks that the subnet pool holds are those of
  the live containers, no two of which share one, and likewise for the ports.
\<close>

theorem pool_accounting:
  assumes "v4_net d k" and "k \<le> 30" and "rp_subnets s = NewSubnets d"
    and "unat start + unat sz < 2 ^ 32" and "PortPool_New start sz state = Ok (rp_ports s)"
    and "(pool_step out cfg)\<^sup>*\<^sup>* (s, []) (s', live)"
  shows "distinct (map spec_key live) \<and> subnets_held (rp_subnets s') = set (map spec_key live)
    \<and> distinct (concat (map spec_ports live)) \<and> ports_held (rp_ports s') = set (concat (map spec_ports live))"
proof -
  have start: "accounted (s, [])"
    using NewSubnets_ok [OF assms(1,2)] New_port_pool_ok [OF assms(4,5)] by (simp add: assms(3))
  have "accounted (s', live)"
    using assms(6) by (induction "(s', live)" arbitrary: s' live rule: rtranclp_induct)
      (auto intro: accounted_step start simp del: accounted.simps)
  then show ?thesis by simp
qed

lemma quiet_all_ok: "all_ok quiet"
  by (simp add: all_ok_def quiet_def)

lemma example_acquire:
  "SubnetPool_Acquire (network_request (\<lambda>m. m) zero_garden_spec) (rp_subnets example_pool) =
     (Ok \<lparr>Subnet = example_net 0, IP = [10, 254, 0, 2]\<rparr>,
      \<lparr>allocated = [(''10.254.0.0/30'', [[10, 254, 0, 2]])], dynamicRange = example_range\<rparr>)"
  by code_simp

lemma example_Pool_Acquire:
  "\<exists>c s'. Pool_Acquire quiet cfg sched (\<lambda>m. m) zero_garden_spec example_pool = (Ok c, s')"
  by (rule Pool_Acquire_succeeds [OF quiet_all_ok _ example_acquire])
    (simp_all add: quiet_def NewEnv_def zero_garden_spec_def parseNetworkSpec_def)

lemma example_ok_request: "ok_request (\<lambda>m. m) zero_garden_spec"
  by (simp add: ok_request_def network_request_def parseNetworkSpec_def zero_garden_spec_def)

theorem pool_accounting_witness:
  "\<exists>c s'. (pool_step quiet example_pool_config)\<^sup>*\<^sup>* (example_pool, []) (s', [c])
     \<and> subnets_held (rp_subnets s') = {spec_key c} \<and> spec_key c = (''10.254.0.0/30'', [10, 254, 0, 2])"
proof -
  obtain c s' where a: "Pool_Acquire quiet example_pool_config FilterLast (\<lambda>m. m) zero_garden_spec example_pool = (Ok c, s')"
    using example_Pool_Acquire by blast
  then have run: "(pool_step quiet example_pool_config)\<^sup>*\<^sup>* (example_pool, []) (s', [c])"
    by (intro r_into_rtranclp pool_step.acquire [OF example_ok_request])
  have "PortPool_New 61000 2 \<lparr>Offset = 0\<rparr> = Ok (rp_ports example_pool)" by code_simp
  from pool_accounting [OF example_range_v4 _ _ _ this run]
  have "subnets_held (rp_subnets s') = {spec_key c}" by (simp add: example_pool_def)
  moreover have "spec_key c = network_key \<lparr>Subnet = example_net 0, IP = [10, 254, 0, 2]\<rparr>"
    using Pool_Acquire_Ok [OF a] by (simp add: example_acquire spec_key_def)
  moreover have "network_key \<lparr>Subnet = example_net 0, IP = [10, 254, 0, 2]\<rparr> = (''10.254.0.0/30'', [10, 254, 0, 2])" by code_simp
  ultimately show ?thesis using run by (intro exI [of _ c] exI [of _ s']) simp
qed

section \<open>The file that names the bridge\<close>

text \<open>
  What the outside is relied on for: only the script that destroys a container, and the removal of a
  directory, change the file in the depot that names a container's bridge.
\<close>

fun destroys :: "pool_config \<Rightarrow> event \<Rightarrow> bool" where
  "destroys cfg (RemoveAll _) \<longleftrightarrow> True"
| "destroys cfg (Run c) \<longleftrightarrow> cmd_path c = path_Join [rp_binPath cfg, ''destroy.sh'']"
| "destroys cfg _ \<longleftrightarrow> False"

declare destroys.simps(2) [simp del]

definition keeps_depot :: "outside \<Rightarrow> pool_config \<Rightarrow> bool" where
  "keeps_depot out cfg \<longleftrightarrow> (\<forall>t e f i. \<not> destroys cfg e \<longrightarrow>
     map_of (o_files out t e f) (bridge_file cfg i) = map_of f (bridge_file cfg i))"

definition keeps_file :: "string \<Rightarrow> world \<Rightarrow> world \<Rightarrow> bool" where
  "keeps_file p w w' \<longleftrightarrow> map_of (files w') p = map_of (files w) p"

interpretation kept_file: frame "keeps_file p" for p
  by unfold_locales (auto simp: keeps_file_def)

definition keeps_bridge :: "string \<Rightarrow> rp_state \<Rightarrow> rp_state \<Rightarrow> bool" where
  "keeps_bridge p s s' \<longleftrightarrow> rp_bridges s' = rp_bridges s \<and> keeps_file p (rp_world s) (rp_world s')"

interpretation kept_bridge: frame "keeps_bridge p" for p
  by unfold_locales (auto simp: keeps_bridge_def keeps_file_def)

named_theorems file_frame \<open>calls that keep the file with the bridge's name\<close>

lemmas file_steps [file_frame] = kept_file.step_refl kept_file.step_then_do kept_file.step_pair kept_file.step_wrap_error
  kept_file.step_on_error kept_file.step_do_all kept_bridge.step_refl kept_bridge.step_then_do kept_bridge.step_pair
  kept_bridge.step_wrap_error

lemma keeps_file_perform [file_frame]:
  "keeps_depot out cfg \<Longrightarrow> \<not> destroys cfg e \<Longrightarrow> keeps_file (bridge_file cfg i) w (snd (perform out e w))"
  by (simp add: keeps_depot_def keeps_file_def perform_def)

lemma keeps_file_run_cmd [file_frame]:
  "keeps_depot out cfg \<Longrightarrow> \<not> destroys cfg (Run c) \<Longrightarrow> keeps_file (bridge_file cfg i) w (snd (run_cmd out c w))"
  by (simp add: run_cmd_def keeps_file_perform)

lemma keeps_file_write [file_frame]: "p \<noteq> q \<Longrightarrow> keeps_file p w (snd (write_file out q s w))"
  by (simp add: write_file_def keeps_file_def update_conv' split: option.splits)

lemma keeps_bridge_on_world [file_frame]:
  "(\<And>w. keeps_file p w (snd (f w))) \<Longrightarrow> keeps_bridge p s (snd (on_world f s))"
  by (simp add: on_world_def keeps_bridge_def split: prod.splits) (metis snd_conv)

lemma script_names_differ:
  "plain_name f \<Longrightarrow> plain_name g \<Longrightarrow> f \<noteq> g \<Longrightarrow> path_Join (es @ [f]) \<noteq> path_Join (ds @ [g])"
  using path_Join_name_inject by blast

lemma plain_names [simp]:
  "plain_name ''destroy.sh''" "plain_name ''create.sh''" "plain_name ''iptables''" "plain_name ''bash''"
  "plain_name ''bridge-name''" "plain_name ''rootfs-provider''" "plain_name ''version''"
  by (simp_all add: plain_name_def)

lemma not_destroying [simp]:
  "\<not> destroys cfg (Run (iptables args))" "\<not> destroys cfg (Run (bash_cmd line))"
  "\<not> destroys cfg (Run (create_cmd out cfg i q r n g))"
proof -
  have "''/sbin/iptables'' = path_Join ([''/sbin''] @ [''iptables''])" "''bash'' = path_Join ([] @ [''bash''])"
    by code_simp+
  then show "\<not> destroys cfg (Run (iptables args))" "\<not> destroys cfg (Run (bash_cmd line))"
    "\<not> destroys cfg (Run (create_cmd out cfg i q r n g))"
    using script_names_differ [of "''iptables''" "''destroy.sh''" "[''/sbin'']" "[rp_binPath cfg]"]
      script_names_differ [of "''bash''" "''destroy.sh''" "[]" "[rp_binPath cfg]"]
      script_names_differ [of "''create.sh''" "''destroy.sh''" "[rp_binPath cfg]" "[rp_binPath cfg]"]
    by (simp_all add: iptables_def bash_cmd_def create_cmd_def exec_Command_def destroys.simps(2))
qed

lemma file_names_differ:
  "bridge_file cfg i \<noteq> provider_file cfg j" "bridge_file cfg i \<noteq> version_file cfg j"
  using script_names_differ [of "''bridge-name''" "''rootfs-provider''" "[rp_depotPath cfg, i]" "[rp_depotPath cfg, j]"]
    script_names_differ [of "''bridge-name''" "''version''" "[rp_depotPath cfg, i]" "[rp_depotPath cfg, j]"]
  by (simp_all add: bridge_file_def provider_file_def version_file_def)

lemma keeps_bridge_filter_turn [file_frame]:
  assumes "keeps_depot out cfg"
  shows "keeps_bridge (bridge_file cfg i) s (snd (filter_turn out cfg j h now (ch, s)))"
proof -
  have down: "keeps_file (bridge_file cfg i) w (snd (Chain_TearDown out c w))" for c w
  proof -
    obtain r1 w1 where w1: "run_cmd out (iptables [''-w'', ''-F'', logChainName c]) w = (r1, w1)" by fastforce
    obtain r2 w2 where w2: "run_cmd out (iptables [''-w'', ''-X'', logChainName c]) w1 = (r2, w2)" by fastforce
    have "keeps_file (bridge_file cfg i) w w1" "keeps_file (bridge_file cfg i) w1 w2"
      using keeps_file_run_cmd [OF assms not_destroying(1)] w1 w2 by (metis snd_conv)+
    from kept_file.step_trans [OF this] show ?thesis
      using kept_file.step_refl [of "bridge_file cfg i" w] by (simp add: Chain_TearDown_def w1 w2)
  qed
  have "keeps_file (bridge_file cfg i) w (snd (Filter_Setup out c h w))" for c w
    unfolding Filter_Setup_def Chain_Setup_def using assms
    by (auto intro!: kept_file.step_wrap_error kept_file.step_then_do down keeps_file_run_cmd kept_file.step_refl)
  then have "keeps_bridge (bridge_file cfg i) s (snd (setup_filter out cfg j h s))" for s
    unfolding setup_filter_def by (intro file_frame)
  then have "keeps_bridge (bridge_file cfg i) s t" if "setup_filter out cfg j h s = (r, t)" for r t
    using that by (metis snd_conv)
  then show ?thesis
    using kept_bridge.step_refl [of "bridge_file cfg i" s] by (auto simp: filter_turn_def split: option.splits prod.splits)
qed

lemma keeps_bridge_run_create [file_frame]:
  assumes "keeps_depot out cfg"
  shows "keeps_bridge (bridge_file cfg i) s (snd (run_create out cfg spec j q r (create_cmd out cfg j q r n g) s))"
  unfolding run_create_def saveRootFSProvider_def saveContainerVersion_def writeBindMounts_def mount_one_def Let_def
  using assms by (intro file_frame) (simp_all add: file_names_differ)

lemma keeps_bridge_setupRootfs [file_frame]:
  "keeps_depot out cfg \<Longrightarrow> keeps_bridge (bridge_file cfg i) s (snd (setupRootfs out spec j r s))"
  by (auto simp: setupRootfs_def Let_def intro!: file_frame split: option.splits prod.splits)

lemma setupBridge_Ok:
  assumes "setupBridge out cfg i r s = (Ok r', s')" and "res_Network r = Some n"
  shows "(\<exists>w w'. Mgr_Reserve out (Subnet n) i (rp_bridges s, w) = (Ok (res_Bridge r'), rp_bridges s', w'))
    \<and> map_of (files (rp_world s')) (bridge_file cfg i) = Some (res_Bridge r')"
proof -
  from assms obtain b t where b: "on_bridges (Mgr_Reserve out (Subnet n) i) s = (Ok b, t)"
    and w: "saveBridgeName out cfg i b t = (Ok (), s')" and r': "r' = r\<lparr>res_Bridge := b\<rparr>"
    by (auto simp: setupBridge_def then_do_Ok_iff)
  from w have "rp_bridges s' = rp_bridges t" "map_of (files (rp_world s')) (bridge_file cfg i) = Some b"
    by (auto simp: saveBridgeName_def on_world_def write_file_def update_conv' split: option.splits)
  moreover from b obtain w where "Mgr_Reserve out (Subnet n) i (rp_bridges s, rp_world s) = (Ok b, rp_bridges t, w)"
    by (auto simp: on_bridges_def split: prod.splits)
  ultimately show ?thesis using r' by auto
qed

lemma acquireSystemResources_Ok:
  assumes "keeps_depot out cfg" and "acquireSystemResources out cfg spec i r s = (Ok (q, e, r'), s')" and "res_Network r = Some n"
  shows "(\<exists>w w'. Mgr_Reserve out (Subnet n) i (rp_bridges s, w) = (Ok (res_Bridge r'), rp_bridges s', w'))
    \<and> map_of (files (rp_world s')) (bridge_file cfg i) = Some (res_Bridge r')"
proof -
  from assms(2) obtain s1 x s2 s3 where s1: "on_world (perform out (MkdirAll (path_Join [rp_depotPath cfg, i]))) s = (Ok x, s1)"
    and s2: "setupRootfs out spec i r s1 = (Ok (q, e), s2)" and s3: "setupBridge out cfg i r s2 = (Ok r', s3)"
    and s4: "\<exists>n g. run_create out cfg spec i q r' (create_cmd out cfg i q r' n g) s3 = (Ok (), s')"
    by (auto simp: acquireSystemResources_def setupContainerDirectories_def ok_iffs Let_def split: option.splits prod.splits) blast
  from s1 have b1: "rp_bridges s1 = rp_bridges s" by (auto simp: on_world_def split: prod.splits)
  from keeps_bridge_setupRootfs [OF assms(1), of i s1 spec i r] s2 have b2: "rp_bridges s2 = rp_bridges s1"
    by (simp add: keeps_bridge_def)
  from s4 keeps_bridge_run_create [OF assms(1), of i s3 spec i q r'] have "keeps_bridge (bridge_file cfg i) s3 s'"
    by (metis snd_conv)
  with setupBridge_Ok [OF s3 assms(3)] b1 b2 show ?thesis by (simp add: keeps_bridge_def keeps_file_def)
qed

lemma Pool_Acquire_bridge:
  assumes "keeps_depot out cfg" and "Pool_Acquire out cfg sched rng spec s = (Ok c, s')"
  shows "\<exists>(n::network) b w w'. Mgr_Reserve out (Subnet n) (cs_ID c) (rp_bridges s, w) = (Ok b, rp_bridges s', w')
    \<and> map_of (files (rp_world s')) (bridge_file cfg (cs_ID c)) = Some b"
proof -
  obtain i s1 where i: "next_containerID s = (i, s1)" by fastforce
  let ?turn = "filter_turn out cfg i (getHandle (gs_Handle spec) i)"
  have turn: "keeps_bridge (bridge_file cfg i) s s'" if "?turn now (ch, s) = (ch', s')" for now ch s ch' s'
    using keeps_bridge_filter_turn [OF assms(1)] that by (metis snd_conv)
  obtain ch s2 where f: "?turn (sched = FilterFirst) (None, s1) = (ch, s2)" by fastforce
  obtain ra s3 where a: "acquirePoolResources cfg rng spec s2 = (ra, s3)" by fastforce
  from assms(2) a obtain r where r: "ra = Ok r" by (cases ra) (auto simp: Pool_Acquire_def i f Let_def)
  obtain ch' s4 where f': "?turn (sched = FilterBetween) (ch, s3) = (ch', s4)" by fastforce
  obtain rb s5 where b: "acquireSystemResources out cfg spec i r s4 = (rb, s5)" by fastforce
  from assms(2) a r b obtain p e r' where x: "rb = Ok (p, e, r')"
    by (cases rb) (auto simp: Pool_Acquire_def i f f' Let_def)
  obtain ch'' s6 where f'': "?turn True (ch', s5) = (ch'', s6)" by fastforce
  have res: "s' = s6 \<and> cs_ID c = i"
    using assms(2) a r b x
    by (simp add: Pool_Acquire_def i f f' f'' Let_def split: option.splits res.splits) (auto split: res.splits)
  from acquirePoolResources_Ok [OF a [unfolded r]] obtain n where
    n: "res_Network r = Some n" and s3: "s3 = s2\<lparr>rp_subnets := rp_subnets s3\<rparr>" by blast
  from s3 have "rp_bridges s3 = rp_bridges s2" by (metis rp_state.select_convs(2) rp_state.update_convs(1) rp_state.surjective)
  moreover have "rp_bridges s1 = rp_bridges s" using i by (auto simp: next_containerID_def)
  ultimately have "rp_bridges s4 = rp_bridges s" using turn [OF f] turn [OF f'] by (simp add: keeps_bridge_def)
  with acquireSystemResources_Ok [OF assms(1) b [unfolded x] n] turn [OF f''] res show ?thesis
    by (intro exI [of _ n] exI [of _ "res_Bridge r'"]) (auto simp: keeps_bridge_def keeps_file_def)
qed

section \<open>Releasing the bridge\<close>

definition same_bridges :: "rp_state \<Rightarrow> rp_state \<Rightarrow> bool" where
  "same_bridges s s' \<longleftrightarrow> rp_bridges s' = rp_bridges s"

interpretation bridges_kept: frame same_bridges
  by unfold_locales (auto simp: same_bridges_def)

lemma same_bridges_on_world: "same_bridges s (snd (on_world f s))"
  by (simp add: on_world_def same_bridges_def split: prod.splits)

lemma releaseSystemResources_bridges:
  assumes "release_bridge out cfg i s = (Ok (), t)"
  shows "rp_bridges (snd (releaseSystemResources out cfg i s)) = rp_bridges t"
proof -
  have 1: "same_bridges u (snd (case on_world f u of (Panic m, s) \<Rightarrow> (Panic m, s) | (_, s) \<Rightarrow> (Ok (), s)))"
    for f :: "world \<Rightarrow> unit res \<times> world" and u
    using same_bridges_on_world [of u f] by (auto split: prod.splits res.splits)
  obtain p u where p: "rootfs_provider_of out cfg i t = (p, u)" by fastforce
  then have "rp_bridges u = rp_bridges t" by (auto simp: rootfs_provider_of_def on_world_def split: prod.splits res.splits)
  moreover have "same_bridges u (snd (releaseSystemResources out cfg i s))"
    unfolding releaseSystemResources_def
    by (auto simp: assms p intro!: bridges_kept.step_then_do same_bridges_on_world 1 bridges_kept.step_refl)
  ultimately show ?thesis by (simp add: same_bridges_def)
qed

lemma Mgr_Reserve_owners:
  "Mgr_Reserve out sn i (m, w) = (Ok b, m', w') \<Longrightarrow>
   owners_of m' x = (if x = b then owners_of m b @ [i] else owners_of m x)"
  by (auto simp: Mgr_Reserve_def Let_def Generate_def owners_of_def [of "m\<lparr>names := g\<rparr>" for g] split: option.splits res.splits prod.splits)
    (simp_all add: owners_of_def)

lemma Mgr_release_owners:
  "owners_of (snd (Mgr_release_owner b i m)) x = (if x = b then remove1 i (owners_of m b) else owners_of m x)"
  by (auto simp: Mgr_release_owner_def Let_def owners_of_def update_conv' delete_conv')

text \<open>
  C14. Releasing undoes acquiring. When no external call fails and only \<open>destroy.sh\<close> removes the
  files of a container, a container that was acquired can be released, and then the networks and
  ports that are held and the owners of every bridge are what they were before.
\<close>

theorem Acquire_Release_roundtrip:
  assumes "all_ok out" and "keeps_depot out cfg" and "ok_request rng spec"
    and "subnet_pool_ok (rp_subnets s)" and "port_pool_ok (rp_ports s)"
    and "\<And>b. fst (next_containerID s) \<notin> set (owners_of (rp_bridges s) b)"
    and "Pool_Acquire out cfg sched rng spec s = (Ok c, s1)"
  shows "\<exists>s2. Pool_Release out cfg c s1 = (Ok (), s2)
    \<and> subnets_held (rp_subnets s2) = subnets_held (rp_subnets s) \<and> ports_held (rp_ports s2) = ports_held (rp_ports s)
    \<and> owners_of (rp_bridges s2) = owners_of (rp_bridges s)"
proof -
  obtain s2 where rel: "Pool_Release out cfg c s1 = (Ok (), s2)"
    using Pool_Release_succeeds [OF assms(1), of cfg c s1] by (metis is_ok_iff old.unit.exhaust prod.collapse)
  from Pool_Acquire_Ok [OF assms(7)] obtain n where
    n: "SubnetPool_Acquire (network_request rng spec) (rp_subnets s) = (Ok n, rp_subnets s1)"
    "res_Network (cs_Resources c) = Some n" "res_Ports (cs_Resources c) = []" "rp_ports s1 = rp_ports s"
    and i: "cs_ID c = fst (next_containerID s)" by blast
  from rel obtain t where sys: "releaseSystemResources out cfg (cs_ID c) s1 = (Ok (), t)"
    and s2: "s2 = releasePoolResources (cs_Resources c) t" by (auto simp: Pool_Release_def then_do_Ok_iff)
  have same: "same_pools s1 t" using same_pools_releaseSystemResources [of s1 out cfg "cs_ID c"] sys by simp
  have acq: "network_key n \<notin> subnets_held (rp_subnets s)" "subnet_pool_ok (rp_subnets s1)" "ok_network n"
    "subnets_held (rp_subnets s1) = insert (network_key n) (subnets_held (rp_subnets s))"
    using subnet_alloc.acquire_Ok [OF assms(4) _ n(1)] assms(3) by (simp_all add: ok_request_def)
  have pools: "subnets_held (rp_subnets s2) = subnets_held (rp_subnets s)" "ports_held (rp_ports s2) = ports_held (rp_ports s)"
    using releasePoolResources_held [of t "cs_Resources c" n] acq same assms(5) n by (auto simp: s2 same_pools_def)
  from Pool_Acquire_bridge [OF assms(2,7)] obtain sn b w w' where
    b: "Mgr_Reserve out sn (cs_ID c) (rp_bridges s, w) = (Ok b, rp_bridges s1, w')"
    and f: "map_of (files (rp_world s1)) (bridge_file cfg (cs_ID c)) = Some b" by blast
  obtain u where u: "release_bridge out cfg (cs_ID c) s1 = (Ok (), u)"
    using sys by (auto simp: releaseSystemResources_def then_do_Ok_iff)
  have "rp_bridges s2 = rp_bridges u"
    using releaseSystemResources_bridges [OF u] sys
    by (simp add: s2 releasePoolResources_def on_subnets_def Let_def split: option.splits prod.splits)
  moreover have "rp_bridges u = snd (Mgr_release_owner b (cs_ID c) (rp_bridges s1))"
    using u f assms(1)
    by (auto simp: release_bridge_def on_world_def read_file_def all_ok_def wrap_error_Ok_iff on_bridges_def Mgr_Release_def
        split: prod.splits if_splits)
  moreover have "cs_ID c \<notin> set (owners_of (rp_bridges s) b)" using assms(6) i by simp
  ultimately have "owners_of (rp_bridges s2) x = owners_of (rp_bridges s) x" for x
    by (simp add: Mgr_release_owners Mgr_Reserve_owners [OF b] remove1_append)
  then show ?thesis using rel pools by auto
qed

theorem Acquire_Release_roundtrip_witness:
  "\<exists>c s1 s2. Pool_Acquire quiet example_pool_config FilterBetween (\<lambda>m. m) zero_garden_spec example_pool = (Ok c, s1)
     \<and> Pool_Release quiet example_pool_config c s1 = (Ok (), s2)
     \<and> subnets_held (rp_subnets s2) = {} \<and> ports_held (rp_ports s2) = {} \<and> owners_of (rp_bridges s2) = (\<lambda>_. [])"
proof -
  obtain c s1 where a: "Pool_Acquire quiet example_pool_config FilterBetween (\<lambda>m. m) zero_garden_spec example_pool = (Ok c, s1)"
    using example_Pool_Acquire by blast
  have dep: "keeps_depot quiet example_pool_config" by (simp add: keeps_depot_def quiet_def)
  have "PortPool_New 61000 2 \<lparr>Offset = 0\<rparr> = Ok (rp_ports example_pool)" by code_simp
  from New_port_pool_ok [OF _ this] have pp: "port_pool_ok (rp_ports example_pool)" "ports_held (rp_ports example_pool) = {}" by simp_all
  have sp: "subnet_pool_ok (rp_subnets example_pool)" "subnets_held (rp_subnets example_pool) = {}"
    using NewSubnets_ok [OF example_range_v4] by (simp_all add: example_pool_def)
  have ow: "owners_of (rp_bridges example_pool) = (\<lambda>_. [])"
    by (simp add: fun_eq_iff owners_of_def example_pool_def BridgeMgr_New_def)
  from Acquire_Release_roundtrip [OF quiet_all_ok dep example_ok_request sp(1) pp(1) _ a] sp(2) pp(2) ow
  obtain s2 where "Pool_Release quiet example_pool_config c s1 = (Ok (), s2)" "subnets_held (rp_subnets s2) = {}"
    "ports_held (rp_ports s2) = {}" "owners_of (rp_bridges s2) = (\<lambda>_. [])" by auto
  with a show ?thesis by (intro exI [of _ c] exI [of _ s1] exI [of _ s2]) simp
qed

end
