(* ===== verification/Pool_Restore.thy ===== *)
theory Pool_Restore
  imports Resource_Pool_Props
begin

text \<open>
  What the resource pool restores from a snapshot, what it leaves behind when that fails, and what
  it prunes.
\<close>

section \<open>Snapshots\<close>

lemma Container_Snapshot_Ok:
  assumes "Container_Snapshot c = Ok sn"
  shows "sn_ID sn = Container_ID c \<and> sn_Handle sn = Handle c \<and> sn_RootFSPath sn = RootFSPath c
    \<and> sn_State sn = State c \<and> sn_Events sn = Events c \<and> sn_Limits sn = cs_Limits (c_spec c)
    \<and> sn_GraceTime sn = gs_GraceTime (cs_Spec (c_spec c)) \<and> sn_EnvVars sn = gs_Env (cs_Spec (c_spec c))
    \<and> sn_Resources sn = \<lparr>rsn_RootUID = res_RootUID (cs_Resources (c_spec c)), rsn_Network = res_Network (cs_Resources (c_spec c)),
                         rsn_Bridge = res_Bridge (cs_Resources (c_spec c)), rsn_Ports = res_Ports (cs_Resources (c_spec c))\<rparr>
    \<and> sn_NetIns sn = cs_NetIns (c_spec c) \<and> sn_NetOuts sn = cs_NetOuts (c_spec c) \<and> sn_Properties sn = Properties c
    \<and> map Some (sn_Processes sn) = map snapshot_process (ActiveProcesses (c_tracker c))"
proof -
  let ?ps = "map snapshot_process (ActiveProcesses (c_tracker c))"
  from assms have n: "None \<notin> set ?ps" and sn: "sn_Processes sn = map the ?ps"
    by (auto simp: Container_Snapshot_def Let_def split: if_splits)
  have "map Some (map the ps) = ps" if "None \<notin> set ps" for ps :: "active_process option list"
    using that by (induction ps) auto
  from this [OF n] have "map Some (map the ?ps) = ?ps" .
  then show ?thesis using assms n sn by (auto simp: Container_Snapshot_def Let_def split: if_splits)
qed


lemma example_Snapshot: "is_ok (Container_Snapshot (ProvideContainer example_provider example_spec))"
  by (simp add: Container_Snapshot_def ProvideContainer_def NewLinuxContainer_def ActiveProcesses_def NewTracker_def)

lemma example_Restore:
  assumes "Container_Snapshot (ProvideContainer example_provider example_spec) = Ok sn"
  shows "is_ok (fst (Pool_Restore quiet example_pool_config (encode_snapshot sn) example_pool))"
proof -
  have "is_ok (fst (case Container_Snapshot (ProvideContainer example_provider example_spec) of
     Ok sn \<Rightarrow> Pool_Restore quiet example_pool_config (encode_snapshot sn) example_pool
   | _ \<Rightarrow> (Panic '''', example_pool)))"
    by code_simp
  then show ?thesis by (simp add: assms)
qed


section \<open>Restoring when a port is taken\<close>

lemma Remove_taken:
  assumes "port_pool_ok (rp_ports s)" and "p \<in> set ps" and "p \<in> ports_held (rp_ports s)"
  shows "\<exists>e s'. do_all (\<lambda>p. on_ports (PortPool_Remove p)) ps s = (Err e, s') \<and> port_pool_ok (rp_ports s')
    \<and> rp_bridges s' = rp_bridges s \<and> port_range (rp_ports s') = port_range (rp_ports s)"
  using assms
proof (induction ps arbitrary: s)
  case (Cons q ps)
  obtain r pp where r: "PortPool_Remove q (rp_ports s) = (r, pp)" by fastforce
  show ?case
  proof (cases r)
    case (Ok u)
    note q = ports.reserve_Ok [OF Cons.prems(1) _ r [unfolded Ok]]
    then have "p \<in> set ps" "p \<in> ports_held pp" "port_pool_ok pp" using Cons.prems by auto
    with Cons.IH [of "s\<lparr>rp_ports := pp\<rparr>"] obtain e s' where
      "do_all (\<lambda>p. on_ports (PortPool_Remove p)) ps (s\<lparr>rp_ports := pp\<rparr>) = (Err e, s')" "port_pool_ok (rp_ports s')"
      "rp_bridges s' = rp_bridges s" "port_range (rp_ports s') = port_range pp" by auto
    moreover have "on_ports (PortPool_Remove q) s = (Ok u, s\<lparr>rp_ports := pp\<rparr>)" by (simp add: on_ports_def r Ok)
    moreover have "port_range pp = port_range (rp_ports s)" using r by (auto simp: PortPool_Remove_eq split: if_splits)
    ultimately show ?thesis by (intro exI [of _ e] exI [of _ s']) simp
  next
    case (Err e)
    from ports.reserve_fail [OF Cons.prems(1) r] Err have "pp = rp_ports s" by simp
    with r Err Cons.prems(1) show ?thesis by (simp add: on_ports_def)
  next
    case (Panic m)
    with r show ?thesis by (simp add: PortPool_Remove_eq split: if_splits)
  qed
qed simp

text \<open>
  C31. When a snapshot asks for a port that is already taken, restoring fails, and the port is free
  afterwards although its holder still uses it: the clean-up releases every port of the snapshot,
  whoever holds it. The reservation of the bridge, made just before, is not undone.
\<close>

theorem Restore_frees_foreign_ports:
  assumes "decode_snapshot j = Ok sn" and "rsn_Network (sn_Resources sn) = Some n"
    and "SubnetPool_Remove n (rp_subnets s) = (Ok (), p1)"
    and "Mgr_Rereserve (rsn_Bridge (sn_Resources sn)) (Subnet n) (sn_ID sn) (rp_bridges s) = (Ok (), m1)"
    and "port_pool_ok (rp_ports s)"
    and "port \<in> set (rsn_Ports (sn_Resources sn))" and "port \<in> ports_held (rp_ports s)"
  shows "\<exists>e s'. Pool_Restore out cfg j s = (Err e, s') \<and> port \<notin> ports_held (rp_ports s')
    \<and> port \<in> set (pp_pool (rp_ports s')) \<and> sn_ID sn \<in> set (owners_of (rp_bridges s') (rsn_Bridge (sn_Resources sn)))"
proof -
  let ?ps = "rsn_Ports (sn_Resources sn)"
  let ?s = "s\<lparr>rp_subnets := p1, rp_bridges := m1\<rparr>"
  have "port_pool_ok (rp_ports ?s)" "port \<in> ports_held (rp_ports ?s)" using assms(5,7) by simp_all
  from Remove_taken [OF this(1) assms(6) this(2)] obtain e t where
    t: "do_all (\<lambda>p. on_ports (PortPool_Remove p)) ?ps ?s = (Err e, t)" "port_pool_ok (rp_ports t)"
    "rp_bridges t = m1" "port_range (rp_ports t) = port_range (rp_ports s)" by auto
  obtain r q where q: "SubnetPool_Release n (rp_subnets t) = (r, q)" by fastforce
  let ?s' = "t\<lparr>rp_subnets := q, rp_ports := fold PortPool_Release ?ps (rp_ports t)\<rparr>"
  have "Pool_Restore out cfg j s = (Err e, ?s')"
    using assms(1-4) t(1) q
    by (simp add: Pool_Restore_def on_subnets_def on_bridges_def restore_ports_def Let_def)
  moreover have "port_pool_ok (fold PortPool_Release ps p) \<and> ports_held (fold PortPool_Release ps p) = ports_held p - set ps
      \<and> port_range (fold PortPool_Release ps p) = port_range p" if "port_pool_ok p" for ps p
    using that
  proof (induction ps arbitrary: p)
    case (Cons x ps)
    then show ?case
      using ports.release_invar [of p x] ports.release_held [of p x] by (auto simp: PortPool_Release_eq)
  qed simp
  then have "port \<notin> ports_held (rp_ports ?s')" "port_range (rp_ports ?s') = port_range (rp_ports t)"
    using t(2) assms(6) by auto
  moreover have "port \<in> port_range (rp_ports t)" using assms(7) t(4) by (simp add: ports_held_def)
  moreover have "sn_ID sn \<in> set (owners_of m1 (rsn_Bridge (sn_Resources sn)))"
    using assms(4) by (auto simp: Mgr_Rereserve_def Let_def add_owner_assign_commute split: if_splits option.splits)
  ultimately show ?thesis using t(3) by (intro exI [of _ e] exI [of _ ?s']) (auto simp: ports_held_def)
qed

definition example_busy_pool :: rp_state where
  "example_busy_pool = example_pool\<lparr>rp_ports := example_ports\<lparr>pp_pool := [61001]\<rparr>\<rparr>"

definition example_snapshot :: "snapshot" where
  "example_snapshot =
     \<lparr>sn_ID = ''c1'', sn_Handle = ''h'', sn_RootFSPath = ''/rootfs'', sn_GraceTime = 0, sn_State = ''active'', sn_Events = [],
      sn_Limits = no_limits,
      sn_Resources = \<lparr>rsn_RootUID = 0, rsn_Network = Some \<lparr>Subnet = example_net 4, IP = [10, 254, 0, 6]\<rparr>, rsn_Bridge = ''w1b-0'',
                      rsn_Ports = [61000]\<rparr>,
      sn_Processes = [], sn_DefaultProcessSignaller = True, sn_NetIns = [], sn_NetOuts = [], sn_Properties = [], sn_EnvVars = []\<rparr>"

theorem Restore_frees_foreign_ports_witness:
  "\<exists>e s'. Pool_Restore quiet example_pool_config (encode_snapshot example_snapshot) example_busy_pool = (Err e, s')
     \<and> 61000 \<in> ports_held (rp_ports example_busy_pool) \<and> 61000 \<in> set (pp_pool (rp_ports s'))"
proof -
  let ?n = "\<lparr>Subnet = example_net 4, IP = IP_To16 [10, 254, 0, 6]\<rparr>"
  have d: "decode_snapshot (encode_snapshot example_snapshot) = Ok (with_network (Some ?n) example_snapshot)"
    using decode_encode [of example_snapshot "\<lparr>Subnet = example_net 4, IP = [10, 254, 0, 6]\<rparr>" 30] example_net_v4 [of 4]
    by (simp add: example_snapshot_def)
  have w: "sn_Resources (with_network (Some ?n) example_snapshot) =
      \<lparr>rsn_RootUID = 0, rsn_Network = Some ?n, rsn_Bridge = ''w1b-0'', rsn_Ports = [61000]\<rparr>"
    by (simp add: with_network_def example_snapshot_def)
  obtain p1 where p1: "SubnetPool_Remove ?n (rp_subnets example_busy_pool) = (Ok (), p1)"
    by (simp add: SubnetPool_Remove_def example_busy_pool_def example_pool_def NewSubnets_def allocated_ips_def IP_To16_def)
  obtain m1 where m1: "Mgr_Rereserve ''w1b-0'' (example_net 4) ''c1'' (rp_bridges example_busy_pool) = (Ok (), m1)"
    by (simp add: Mgr_Rereserve_def example_busy_pool_def example_pool_def BridgeMgr_New_def)
  have r: "port_range example_ports = {x. 61000 \<le> x \<and> x < 61002}"
    by (simp add: port_range_def example_ports_def)
  have held: "(61000::port) \<in> ports_held (rp_ports example_busy_pool)" "port_pool_ok (rp_ports example_busy_pool)"
    by (simp_all add: ports_held_def port_pool_ok_def example_busy_pool_def r)
  have "sn_ID (with_network (Some ?n) example_snapshot) = ''c1''" by (simp add: with_network_def example_snapshot_def)
  with Restore_frees_foreign_ports [OF d, of ?n example_busy_pool p1 m1 61000 quiet example_pool_config] p1 m1 held
  show ?thesis by (auto simp: w)
qed

section \<open>Pruning\<close>

text \<open>The events that destroy the container \<open>i\<close>.\<close>

definition spares :: "pool_config \<Rightarrow> string set \<Rightarrow> event \<Rightarrow> bool" where
  "spares cfg K e \<longleftrightarrow> (\<forall>i\<in>K. e \<noteq> Run (destroy_cmd cfg i) \<and> e \<noteq> DestroyRootfs i)"

lemma spares_others:
  "spares cfg K (ReadFile p)" "spares cfg K (DestroyBridge b)" "spares cfg K ListBridges" "spares cfg K (ReadDir p)"
  by (simp_all add: spares_def)

lemma spares_not_destroying: "\<not> destroys cfg (Run c) \<Longrightarrow> spares cfg K (Run c)"
  by (auto simp: spares_def destroys.simps(2) destroy_cmd_def exec_Command_def)

lemma spares_sh: "spares cfg K (Run (sh x))"
proof -
  have "''sh'' = path_Join ([] @ [''sh''])" "plain_name ''sh''" by code_simp+
  then have "''sh'' \<noteq> path_Join ([rp_binPath cfg] @ [''destroy.sh''])"
    using script_names_differ [of "''sh''" "''destroy.sh''" "[]" "[rp_binPath cfg]"] by simp
  then show ?thesis by (intro spares_not_destroying) (simp add: destroys.simps(2) sh_def exec_Command_def)
qed

lemma destroy_cmd_inject:
  assumes "plain_name i" and "plain_name j"
  shows "destroy_cmd cfg i = destroy_cmd cfg j \<longleftrightarrow> i = j"
  using path_Join_name_inject [OF assms, of "[rp_depotPath cfg]" "[rp_depotPath cfg]"]
  by (auto simp: destroy_cmd_def exec_Command_def)

lemma spares_destroy:
  "plain_name i \<Longrightarrow> \<forall>j\<in>K. plain_name j \<Longrightarrow> i \<notin> K \<Longrightarrow> spares cfg K (Run (destroy_cmd cfg i)) \<and> spares cfg K (DestroyRootfs i)"
  by (auto simp: spares_def destroy_cmd_inject)

definition pool_emits :: "(event \<Rightarrow> bool) \<Rightarrow> rp_state \<Rightarrow> rp_state \<Rightarrow> bool" where
  "pool_emits P s s' \<longleftrightarrow> emits P (rp_world s) (rp_world s')"

interpretation pool_calls: frame "pool_emits P" for P
  by unfold_locales (auto simp: pool_emits_def emits_def)

lemma pool_emits_on_world: "(\<And>w. emits P w (snd (f w))) \<Longrightarrow> pool_emits P s (snd (on_world f s))"
  by (simp add: pool_emits_def on_world_def split: prod.splits) (metis snd_conv)

lemma emits_teardown: "emits (spares cfg K) w (snd (ContainerTeardown out chs i w))"
proof -
  have one: "emits (spares cfg K) w (snd (MgrChain_Teardown out c i w))" for c w
    by (cases c) (auto simp: filter_teardown_cmds_def nat_teardown_cmds_def Let_def
        intro!: calls.step_wrap_error calls.step_then_do emits_run_cmd spares_sh)
  have "emits (spares cfg K) w (snd (teardown_loop out chs i r w))" for r w
  proof (induction chs arbitrary: r w)
    case (Cons c chs)
    obtain a v where a: "MgrChain_Teardown out c i w = (a, v)" by fastforce
    with one [of w c] have "emits (spares cfg K) w v" by simp
    with Cons a show ?case by (cases a) (auto intro: calls.step_trans)
  qed (simp add: calls.step_refl)
  then show ?thesis by (simp add: ContainerTeardown_def)
qed

lemma emits_filter_teardown: "emits (spares cfg K) w (snd (Filter_TearDown out c w))"
proof -
  obtain r1 w1 where w1: "run_cmd out (iptables [''-w'', ''-F'', logChainName c]) w = (r1, w1)" by fastforce
  obtain r2 w2 where w2: "run_cmd out (iptables [''-w'', ''-X'', logChainName c]) w1 = (r2, w2)" by fastforce
  have "emits (spares cfg K) w w1" "emits (spares cfg K) w1 w2"
    using emits_run_cmd [of "spares cfg K", OF spares_not_destroying [OF not_destroying(1)]] w1 w2 by (metis snd_conv)+
  from calls.step_trans [OF this] show ?thesis
    using calls.step_refl by (simp add: Filter_TearDown_def Chain_TearDown_def w1 w2)
qed

lemma pool_emits_release_bridge: "pool_emits (spares cfg K) s (snd (release_bridge out cfg i s))"
proof -
  obtain r t where r: "on_world (read_file out (bridge_file cfg i)) s = (r, t)" by fastforce
  then have t: "pool_emits (spares cfg K) s t"
    using pool_emits_on_world [of "spares cfg K" "read_file out (bridge_file cfg i)" s,
        OF emits_files(1) [of "spares cfg K", OF spares_others(1)]] by simp
  have "pool_emits (spares cfg K) t (snd (on_bridges (Mgr_Release out b i) t))" for b
    by (auto simp: pool_emits_def on_bridges_def Mgr_Release_def emits_def perform_def spares_def split: prod.splits)
  then show ?thesis
    using t by (cases r) (auto simp: release_bridge_def r intro!: pool_calls.step_trans [OF t] pool_calls.step_wrap_error)
qed

lemma pool_emits_releaseSystemResources:
  assumes "plain_name i" and "\<forall>j\<in>K. plain_name j" and "i \<notin> K"
  shows "pool_emits (spares cfg K) s (snd (releaseSystemResources out cfg i s))"
proof -
  note d = spares_destroy [OF assms, of cfg]
  have 1: "pool_emits (spares cfg K) u (snd (case on_world (Filter_TearDown out c) u of (Panic m, s) \<Rightarrow> (Panic m, s) | (_, s) \<Rightarrow> (Ok (), s)))"
    for u c
    using pool_emits_on_world [of "spares cfg K" "Filter_TearDown out c", OF emits_filter_teardown, of u] by (auto split: prod.splits res.splits)
  have 2: "pool_emits (spares cfg K) u (snd (rootfs_provider_of out cfg i u))" for u
    using pool_emits_on_world [of "spares cfg K" "read_file out (provider_file cfg i)", OF emits_files(1) [of "spares cfg K", OF spares_others(1)], of u]
    by (auto simp: rootfs_provider_of_def split: prod.splits res.splits)
  have prov: "pool_emits (spares cfg K) u (snd (let (p, s) = rootfs_provider_of out cfg i u in g p s))"
    if "\<And>p s. pool_emits (spares cfg K) s (snd (g p s))" for g :: "string \<Rightarrow> rp_state \<Rightarrow> unit res \<times> rp_state" and u
  proof -
    obtain p t where p: "rootfs_provider_of out cfg i u = (p, t)" by fastforce
    with 2 [of u] have "pool_emits (spares cfg K) u t" by simp
    then show ?thesis using pool_calls.step_trans [OF _ that] by (simp add: p)
  qed
  show ?thesis
    unfolding releaseSystemResources_def
    by (intro pool_calls.step_then_do pool_emits_release_bridge prov)
      (auto intro!: pool_calls.step_then_do pool_emits_on_world emits_teardown emits_run_cmd emits_perform 1 pool_calls.step_refl
        simp: d split: if_splits)
qed

lemma pool_emits_prune_entries:
  assumes "\<forall>j\<in>K. plain_name j" and "K \<subseteq> insert ''tmp'' (set keep)" and "\<forall>i\<in>set is. plain_name i"
  shows "pool_emits (spares cfg K) s (prune_entries out cfg keep is s)"
  using assms(3)
proof (induction "is" arbitrary: s)
  case (Cons i "is")
  have "pool_emits (spares cfg K) s (if i = ''tmp'' then s else if i \<in> set keep then s else pruneEntry out cfg i s)"
    using pool_emits_releaseSystemResources [OF _ assms(1), of i] Cons.prems assms(2) pool_calls.step_refl
    by (auto simp: pruneEntry_def)
  with Cons show ?case by (auto intro: pool_calls.step_trans simp del: if_split)
qed (simp add: pool_calls.step_refl)

lemma pool_emits_Mgr_Prune: "pool_emits (spares cfg K) s (snd (on_bridges (Mgr_Prune out) s))"
proof -
  have "emits (spares cfg K) w (prune_loop out m bs w)" for m bs w
  proof (induction bs arbitrary: w)
    case (Cons b bs)
    have "emits (spares cfg K) w (if has_prefix b (mgr_prefix m) \<and> \<not> isReserved m b then snd (perform out (DestroyBridge b) w) else w)"
      using emits_perform [of "spares cfg K", OF spares_others(2)] calls.step_refl by simp
    with Cons show ?case by (auto intro: calls.step_trans simp del: if_split)
  qed (simp add: calls.step_refl)
  moreover have "emits (spares cfg K) w (snd (perform out ListBridges w))" for w
    by (rule emits_perform) (rule spares_others)
  ultimately show ?thesis
    by (auto simp: pool_emits_def on_bridges_def Mgr_Prune_def split: prod.splits res.splits) (metis calls.step_trans snd_conv)+
qed

lemma releaseSystemResources_destroys:
  assumes "all_ok out"
  shows "Run (destroy_cmd cfg i) \<in> set (trace (rp_world (snd (releaseSystemResources out cfg i s))))"
proof -
  let ?T = "pool_emits (\<lambda>_. True)"
  have grows: "?T u (snd (on_world f u))" if "\<And>w. \<exists>es. trace (snd (f w)) = trace w @ es" for f :: "world \<Rightarrow> unit res \<times> world" and u
    using that by (intro pool_emits_on_world) (fastforce simp: emits_def list_all_iff)
  obtain q where q: "releaseSystemResources out cfg i s = (Ok (), q)"
    using is_ok_releaseSystemResources [OF assms, of cfg i s] by (metis is_ok_iff old.unit.exhaust prod.collapse)
  then obtain t where t: "release_bridge out cfg i s = (Ok (), t)"
    by (auto simp: releaseSystemResources_def then_do_Ok_iff)
  obtain p u where p: "rootfs_provider_of out cfg i t = (p, u)" by fastforce
  define rest where "rest s =
      then_do (if shouldCleanRootfs p then on_world (perform out (DestroyRootfs i)) s else (Ok (), s)) (\<lambda>_ s.
       case on_world (Filter_TearDown out (ProvideFilter (rp_filterProvider cfg) i)) s of
         (Panic m, s) \<Rightarrow> (Panic m, s) | (_, s) \<Rightarrow> (Ok (), s))" for s
  from q have "then_do (on_world (ContainerTeardown out (rp_iptablesMgr cfg) i) u) (\<lambda>_ s.
      then_do (on_world (run_cmd out (destroy_cmd cfg i)) s) (\<lambda>_. rest)) = (Ok (), q)"
    by (simp only: releaseSystemResources_def t then_do.simps p Let_def prod.case rest_def [abs_def])
  then obtain v where "then_do (on_world (run_cmd out (destroy_cmd cfg i)) v) (\<lambda>_. rest) = (Ok (), q)"
    by (rule then_do_OkE)
  then obtain y x where x: "on_world (run_cmd out (destroy_cmd cfg i)) v = (Ok y, x)" and rest: "rest x = (Ok (), q)"
    by (rule then_do_OkE)
  have "Run (destroy_cmd cfg i) \<in> set (trace (rp_world x))"
    using x run_cmd_trace_eq [of out "destroy_cmd cfg i" "rp_world v"] by (auto simp: on_world_def split: prod.splits)
  moreover have down: "?T u (snd (case on_world (Filter_TearDown out c) u of (Panic m, s) \<Rightarrow> (Panic m, s) | (_, s) \<Rightarrow> (Ok (), s)))" for u c
  proof -
    have "?T u (snd (on_world (Filter_TearDown out c) u))"
      using emits_filter_teardown [of cfg "{}" _ out c] by (intro grows) (auto simp: emits_def)
    then show ?thesis by (auto split: prod.splits res.splits)
  qed
  have root: "?T x (snd (if shouldCleanRootfs p then on_world (perform out (DestroyRootfs i)) x else (Ok (), x)))"
    using grows [of "perform out (DestroyRootfs i)" x] pool_calls.step_refl by simp
  have "?T x (snd (rest x))" unfolding rest_def by (rule pool_calls.step_then_do [OF root down])
  then have "?T x q" by (simp add: rest)
  ultimately show ?thesis by (auto simp: q pool_emits_def emits_def)
qed

lemma prune_destroys:
  assumes "all_ok out" and "i \<in> set is" and "i \<noteq> ''tmp''" and "i \<notin> set keep" and "\<forall>i\<in>set is. plain_name i"
  shows "Run (destroy_cmd cfg i) \<in> set (trace (rp_world (prune_entries out cfg keep is s)))"
  using assms(2,5)
proof (induction "is" arbitrary: s)
  case (Cons j "is")
  define t where "t = (if j = ''tmp'' then s else if j \<in> set keep then s else pruneEntry out cfg j s)"
  have t: "prune_entries out cfg keep (j # is) s = prune_entries out cfg keep is t" by (simp add: t_def)
  show ?case
  proof (cases "i = j")
    case True
    then have "Run (destroy_cmd cfg i) \<in> set (trace (rp_world t))"
      using assms(3,4) releaseSystemResources_destroys [OF assms(1)] by (simp add: pruneEntry_def t_def)
    moreover have "pool_emits (spares cfg {}) t (prune_entries out cfg keep is t)"
      using Cons.prems(2) by (intro pool_emits_prune_entries) simp_all
    ultimately show ?thesis unfolding t by (auto simp: pool_emits_def emits_def)
  next
    case False
    then show ?thesis using Cons by simp
  qed
qed simp



end
