(* ===== verification/Repository.thy ===== *)
theory Repository
  imports Container_Props
begin

text \<open>
  The container repository (\<open>container_repository/in_memory_container_repository.go\<close>) and the contract
  that the backend relies on, as a locale. A Go map is an association list; the order in which it is
  traversed is a parameter.
\<close>

section \<open>The contract\<close>

locale container_store =
  fixes handle :: "'c \<Rightarrow> string"
    and wf :: "'r \<Rightarrow> bool"
    and empty :: 'r
    and add :: "'c \<Rightarrow> 'r \<Rightarrow> 'r"
    and find :: "string \<Rightarrow> 'r \<Rightarrow> 'c res"
    and del :: "'c \<Rightarrow> 'r \<Rightarrow> 'r"
    and query :: "('c \<Rightarrow> bool) \<Rightarrow> 'o \<Rightarrow> 'r \<Rightarrow> 'c list"
    and order_ok :: "'o \<Rightarrow> bool"
  assumes wf_empty: "wf empty" and wf_add: "wf r \<Longrightarrow> wf (add c r)" and wf_del: "wf r \<Longrightarrow> wf (del c r)"
    and find_empty: "find h empty = Err (ContainerNotFoundError h)"
    and find_add: "wf r \<Longrightarrow> find h (add c r) = (if h = handle c then Ok c else find h r)"
    and find_del: "wf r \<Longrightarrow> find h (del c r) = (if h = handle c then Err (ContainerNotFoundError h) else find h r)"
    and find_cases: "is_ok (find h r) \<or> find h r = Err (ContainerNotFoundError h)"
    and find_handle: "wf r \<Longrightarrow> find h r = Ok c \<Longrightarrow> handle c = h"
    and query_set: "wf r \<Longrightarrow> order_ok q \<Longrightarrow> set (query P q r) = {c. find (handle c) r = Ok c \<and> P c}"
    and query_distinct: "wf r \<Longrightarrow> order_ok q \<Longrightarrow> distinct (map handle (query P q r))"
begin

text \<open>What a client sees of a store: the container of each handle.\<close>

definition view :: "'r \<Rightarrow> string \<Rightarrow> 'c option" where
  "view r h = (case find h r of Ok c \<Rightarrow> Some c | _ \<Rightarrow> None)"

lemma view_empty: "view empty = (\<lambda>_. None)"
  by (simp add: view_def find_empty fun_eq_iff)

lemma view_add: "wf r \<Longrightarrow> view (add c r) = (view r)(handle c \<mapsto> c)"
  by (simp add: view_def find_add fun_eq_iff)

lemma view_del: "wf r \<Longrightarrow> view (del c r) = (view r)(handle c := None)"
  by (simp add: view_def find_del fun_eq_iff)

lemma find_Ok_iff: "find h r = Ok c \<longleftrightarrow> view r h = Some c"
  by (auto simp: view_def split: res.splits)

lemma find_Err_iff: "find h r = Err (ContainerNotFoundError h) \<longleftrightarrow> view r h = None"
  using find_cases [of h r] by (auto simp: view_def split: res.splits)

lemma query_view:
  assumes "wf r" and "order_ok q"
  shows "set (query P q r) = {c \<in> ran (view r). P c}" and "card (dom (view r)) = length (query (\<lambda>_. True) q r)"
proof -
  have key: "handle c = h" if "view r h = Some c" for h c
    using find_handle [OF assms(1)] that by (simp add: find_Ok_iff)
  have ran: "c \<in> ran (view r) \<longleftrightarrow> find (handle c) r = Ok c" for c
    unfolding find_Ok_iff by (auto simp: ran_def dest: key)
  then show "set (query P q r) = {c \<in> ran (view r). P c}" using query_set [OF assms] by auto
  have "h \<in> dom (view r) \<longleftrightarrow> h \<in> handle ` set (query (\<lambda>_. True) q r)" for h
  proof
    assume "h \<in> dom (view r)"
    then obtain c where c: "view r h = Some c" by blast
    with key [OF c] have "c \<in> set (query (\<lambda>_. True) q r)" by (simp add: query_set [OF assms] find_Ok_iff)
    with key [OF c] show "h \<in> handle ` set (query (\<lambda>_. True) q r)" by blast
  qed (auto simp: query_set [OF assms] find_Ok_iff)
  then have "dom (view r) = handle ` set (query (\<lambda>_. True) q r)" by blast
  then show "card (dom (view r)) = length (query (\<lambda>_. True) q r)"
    using distinct_card [OF query_distinct [OF assms, of "\<lambda>_. True"]] by simp
qed

end

section \<open>The repository in memory\<close>

type_synonym repository = "(string \<times> container) list"

text \<open>The order in which a \<open>range\<close> over the map visits its entries.\<close>

type_synonym repo_order = "repository \<Rightarrow> repository"

definition repo_order_ok :: "repo_order \<Rightarrow> bool" where
  "repo_order_ok rng \<longleftrightarrow> (\<forall>r. mset (rng r) = mset r)"

definition Repo_New :: repository where
  "Repo_New = []"

definition Repo_Add :: "container \<Rightarrow> repository \<Rightarrow> repository" where
  "Repo_Add c r = AList.update (Handle c) c r"

definition FindByHandle :: "string \<Rightarrow> repository \<Rightarrow> container res" where
  "FindByHandle h r = (case map_of r h of None \<Rightarrow> Err (ContainerNotFoundError h) | Some c \<Rightarrow> Ok c)"

definition Repo_Delete :: "container \<Rightarrow> repository \<Rightarrow> repository" where
  "Repo_Delete c r = AList.delete (Handle c) r"

definition Repo_Query :: "(container \<Rightarrow> bool) \<Rightarrow> repo_order \<Rightarrow> repository \<Rightarrow> container list" where
  "Repo_Query P rng r = filter P (map snd (rng r))"

definition Repo_All :: "repo_order \<Rightarrow> repository \<Rightarrow> container list" where
  "Repo_All rng r = Repo_Query (\<lambda>_. True) rng r"

text \<open>Every container is stored once, under its own handle.\<close>

definition repo_wf :: "repository \<Rightarrow> bool" where
  "repo_wf r \<longleftrightarrow> distinct (map fst r) \<and> (\<forall>(h, c)\<in>set r. Handle c = h)"

lemma repo_wf_rng: "repo_wf r \<Longrightarrow> repo_order_ok rng \<Longrightarrow> repo_wf (rng r) \<and> set (rng r) = set r"
proof -
  assume "repo_wf r" and "repo_order_ok rng"
  then have m: "mset (rng r) = mset r" by (simp add: repo_order_ok_def)
  then have "mset (map fst (rng r)) = mset (map fst r)" by simp
  then have "distinct (map fst (rng r)) = distinct (map fst r)" by (rule mset_eq_imp_distinct_iff)
  with mset_eq_setD [OF m] \<open>repo_wf r\<close> show "repo_wf (rng r) \<and> set (rng r) = set r" by (simp add: repo_wf_def)
qed

lemma repo_wf_handles: "repo_wf r \<Longrightarrow> map Handle (map snd r) = map fst r"
  by (induction r) (auto simp: repo_wf_def)

interpretation repo: container_store Handle repo_wf Repo_New Repo_Add FindByHandle Repo_Delete Repo_Query repo_order_ok
proof
  show "repo_wf Repo_New" by (simp add: repo_wf_def Repo_New_def)
  show "repo_wf (Repo_Add c r)" if "repo_wf r" for c r
    using that AList_update_subset [of "Handle c" c r] by (auto simp: repo_wf_def Repo_Add_def distinct_update)
  show "repo_wf (Repo_Delete c r)" if "repo_wf r" for c r
    using that by (auto simp: repo_wf_def Repo_Delete_def AList.delete_eq distinct_map_filter)
  show "FindByHandle h Repo_New = Err (ContainerNotFoundError h)" for h
    by (simp add: FindByHandle_def Repo_New_def)
  show "FindByHandle h (Repo_Add c r) = (if h = Handle c then Ok c else FindByHandle h r)" for h c r
    by (simp add: FindByHandle_def Repo_Add_def update_conv')
  show "FindByHandle h (Repo_Delete c r) = (if h = Handle c then Err (ContainerNotFoundError h) else FindByHandle h r)" for h c r
    by (simp add: FindByHandle_def Repo_Delete_def delete_conv')
  show "is_ok (FindByHandle h r) \<or> FindByHandle h r = Err (ContainerNotFoundError h)" for h r
    by (simp add: FindByHandle_def split: option.splits)
  show "Handle c = h" if "repo_wf r" "FindByHandle h r = Ok c" for r h c
    using that by (auto simp: FindByHandle_def repo_wf_def split: option.splits dest!: map_of_SomeD)
  show "set (Repo_Query P rng r) = {c. FindByHandle (Handle c) r = Ok c \<and> P c}" if "repo_wf r" "repo_order_ok rng" for r rng P
  proof -
    have d: "distinct (map fst r)" and own: "(h, c) \<in> set r \<Longrightarrow> Handle c = h" for h c
      using that(1) by (auto simp: repo_wf_def)
    have "FindByHandle (Handle c) r = Ok c \<longleftrightarrow> (Handle c, c) \<in> set r" for c
      by (auto simp: FindByHandle_def map_of_eq_Some_iff [OF d, symmetric] split: option.splits)
    moreover have "c \<in> snd ` set r \<longleftrightarrow> (Handle c, c) \<in> set r" for c
    proof
      assume "c \<in> snd ` set r"
      then obtain h where "(h, c) \<in> set r" by auto
      with own [OF this] show "(Handle c, c) \<in> set r" by simp
    qed (rule image_eqI [of _ snd], simp_all)
    ultimately show ?thesis using repo_wf_rng [OF that] by (auto simp: Repo_Query_def)
  qed
  show "distinct (map Handle (Repo_Query P rng r))" if "repo_wf r" "repo_order_ok rng" for r rng P
  proof -
    have w: "repo_wf (rng r)" using repo_wf_rng [OF that] by blast
    then have "distinct (map Handle (map snd (rng r)))" unfolding repo_wf_handles [OF w] by (simp add: repo_wf_def)
    from distinct_map_filter [OF this] show ?thesis by (simp add: Repo_Query_def)
  qed
qed

section \<open>The lock\<close>

text \<open>
  The methods of the repository hold a \<open>sync.RWMutex\<close>. \<open>All\<close> takes the read lock and calls \<open>Query\<close>,
  which takes it again. A goroutine is the list of lock operations it still has to do. As Go documents
  it, a call of \<open>Lock\<close> that has to wait excludes new readers.
\<close>

datatype lock_op = RLock | RUnlock | WLock | WUnlock

definition Query_lock :: "lock_op list" where
  "Query_lock = [RLock, RUnlock]"

definition All_lock :: "lock_op list" where
  "All_lock = [RLock] @ Query_lock @ [RUnlock]"

definition Add_lock :: "lock_op list" where
  "Add_lock = [WLock, WUnlock]"

record rw_mutex =
  rw_readers :: nat
  rw_writer :: bool
  rw_waiting :: "nat set"

definition free_mutex :: rw_mutex where
  "free_mutex = \<lparr>rw_readers = 0, rw_writer = False, rw_waiting = {}\<rparr>"

text \<open>Goroutine \<open>g\<close> does its next operation; \<open>announce\<close> is the first half of \<open>Lock\<close>.\<close>

inductive lock_step :: "rw_mutex \<times> (nat \<Rightarrow> lock_op list) \<Rightarrow> rw_mutex \<times> (nat \<Rightarrow> lock_op list) \<Rightarrow> bool" where
  rlock: "p g = RLock # os \<Longrightarrow> \<not> rw_writer m \<Longrightarrow> rw_waiting m = {} \<Longrightarrow>
    lock_step (m, p) (m\<lparr>rw_readers := rw_readers m + 1\<rparr>, p(g := os))"
| runlock: "p g = RUnlock # os \<Longrightarrow> lock_step (m, p) (m\<lparr>rw_readers := rw_readers m - 1\<rparr>, p(g := os))"
| announce: "p g = WLock # os \<Longrightarrow> g \<notin> rw_waiting m \<Longrightarrow>
    lock_step (m, p) (m\<lparr>rw_waiting := insert g (rw_waiting m)\<rparr>, p)"
| wlock: "p g = WLock # os \<Longrightarrow> g \<in> rw_waiting m \<Longrightarrow> rw_readers m = 0 \<Longrightarrow> \<not> rw_writer m \<Longrightarrow>
    lock_step (m, p) (m\<lparr>rw_writer := True, rw_waiting := rw_waiting m - {g}\<rparr>, p(g := os))"
| wunlock: "p g = WUnlock # os \<Longrightarrow> lock_step (m, p) (m\<lparr>rw_writer := False\<rparr>, p(g := os))"

inductive_cases lock_stepE: "lock_step (m, p) s'"

definition finished :: "rw_mutex \<times> (nat \<Rightarrow> lock_op list) \<Rightarrow> bool" where
  "finished s \<longleftrightarrow> (\<forall>g. snd s g = [])"

definition stuck :: "rw_mutex \<times> (nat \<Rightarrow> lock_op list) \<Rightarrow> bool" where
  "stuck s \<longleftrightarrow> \<not> finished s \<and> (\<forall>s'. \<not> lock_step s s')"

definition two :: "lock_op list \<Rightarrow> lock_op list \<Rightarrow> nat \<Rightarrow> lock_op list" where
  "two a b g = (if g = 0 then a else if g = 1 then b else [])"

lemma two_upd [simp]: "(two a b)(0 := a') = two a' b" "(two a b)(Suc 0 := b') = two a b'"
  by (auto simp: two_def fun_eq_iff)

lemma two_Cons_iff: "two a b g = x # xs \<longleftrightarrow> g = 0 \<and> a = x # xs \<or> g = 1 \<and> b = x # xs"
  by (simp add: two_def)

text \<open>The states of \<open>Query\<close> running against \<open>Add\<close>.\<close>

definition qstate :: "lock_op list \<Rightarrow> lock_op list \<Rightarrow> bool \<Rightarrow> rw_mutex \<times> (nat \<Rightarrow> lock_op list)" where
  "qstate a b wt = (\<lparr>rw_readers = (if a = [RUnlock] then 1 else 0), rw_writer = (b = [WUnlock]),
     rw_waiting = (if wt then {1} else {})\<rparr>, two a b)"

inductive_set query_states :: "(rw_mutex \<times> (nat \<Rightarrow> lock_op list)) set" where
  "a \<in> {Query_lock, [RUnlock], []} \<Longrightarrow> b \<in> {Add_lock, [WUnlock], []} \<Longrightarrow> wt \<longrightarrow> b = Add_lock \<Longrightarrow>
   b = [WUnlock] \<longrightarrow> a \<noteq> [RUnlock] \<Longrightarrow> qstate a b wt \<in> query_states"

lemma query_states_step:
  assumes "s \<in> query_states" and "lock_step s s'"
  shows "s' \<in> query_states"
  using assms
proof (induction rule: query_states.induct)
  case (1 a b wt)
  have "\<exists>a' b' wt'. s' = qstate a' b' wt' \<and> a' \<in> {Query_lock, [RUnlock], []} \<and> b' \<in> {Add_lock, [WUnlock], []}
      \<and> (wt' \<longrightarrow> b' = Add_lock) \<and> (b' = [WUnlock] \<longrightarrow> a' \<noteq> [RUnlock])"
    using 1(5) [unfolded qstate_def]
  proof (cases rule: lock_step.cases)
    case (rlock g os)
    from rlock(2) 1(1,2) have g: "g = 0" "a = Query_lock" "os = [RUnlock]" by (auto simp: two_Cons_iff Query_lock_def Add_lock_def)
    have b: "b \<noteq> [WUnlock]" "\<not> wt" using rlock(3,4) by (auto split: if_splits)
    then have "s' = qstate [RUnlock] b False" unfolding rlock(1) qstate_def using g by (simp add: Query_lock_def)
    then show ?thesis using 1(2) b by blast
  next
    case (runlock g os)
    from runlock(2) 1(1,2) have g: "g = 0" "a = [RUnlock]" "os = []" by (auto simp: two_Cons_iff Query_lock_def Add_lock_def)
    then have "s' = qstate [] b wt" unfolding runlock(1) qstate_def by simp
    then show ?thesis using 1(2,3) by blast
  next
    case (announce g os)
    from announce(2) 1(1,2) have g: "g = 1" "b = Add_lock" by (auto simp: two_Cons_iff Query_lock_def Add_lock_def)
    have "\<not> wt" using announce(3) g(1) by (auto split: if_splits)
    then have "s' = qstate a b True" unfolding announce(1) qstate_def using g by simp
    then show ?thesis using 1(1,4) g(2) by blast
  next
    case (wlock g os)
    from wlock(2) 1(1,2) have g: "g = 1" "b = Add_lock" "os = [WUnlock]" by (auto simp: two_Cons_iff Query_lock_def Add_lock_def)
    have a: "a \<noteq> [RUnlock]" using wlock(4) by (auto split: if_splits)
    have "wt" using wlock(3) by (auto split: if_splits)
    then have "s' = qstate a [WUnlock] False" unfolding wlock(1) qstate_def using g a by simp
    then show ?thesis using 1(1) a by blast
  next
    case (wunlock g os)
    from wunlock(2) 1(1,2) have g: "g = 1" "b = [WUnlock]" "os = []" by (auto simp: two_Cons_iff Query_lock_def Add_lock_def)
    then have "\<not> wt" using 1(3) by (simp add: Add_lock_def)
    then have "s' = qstate a [] False" unfolding wunlock(1) qstate_def using g by simp
    then show ?thesis using 1(1) by blast
  qed
  then show ?case by (auto intro: query_states.intros)
qed

lemma query_states_not_stuck:
  assumes "s \<in> query_states"
  shows "\<not> stuck s"
  using assms
proof (induction rule: query_states.induct)
  case (1 a b wt)
  let ?m = "fst (qstate a b wt)"
  have p: "snd (qstate a b wt) = two a b" by (simp add: qstate_def)
  consider "a = [RUnlock]" | "b = [WUnlock]" | "a = []" "b = []" | "a = Query_lock" "b = []"
    | "a \<noteq> [RUnlock]" "b = Add_lock" "\<not> wt" | "a \<noteq> [RUnlock]" "b = Add_lock" "wt" using 1 by blast
  then have "finished (qstate a b wt) \<or> (\<exists>s'. lock_step (?m, two a b) s')"
  proof cases
    case 1
    then show ?thesis using lock_step.runlock [of "two a b" 0 "[]" ?m] by (auto simp: two_Cons_iff)
  next
    case 2
    then show ?thesis using lock_step.wunlock [of "two a b" 1 "[]" ?m] by (auto simp: two_Cons_iff)
  next
    case 3
    then show ?thesis by (simp add: finished_def qstate_def two_def)
  next
    case 4
    then show ?thesis using lock_step.rlock [of "two a b" 0 "[RUnlock]" ?m] \<open>wt \<longrightarrow> b = Add_lock\<close>
      by (auto simp: two_Cons_iff Query_lock_def qstate_def Add_lock_def)
  next
    case 5
    then show ?thesis using lock_step.announce [of "two a b" 1 "[WUnlock]" ?m]
      by (auto simp: two_Cons_iff Add_lock_def qstate_def)
  next
    case 6
    then show ?thesis using lock_step.wlock [of "two a b" 1 "[WUnlock]" ?m]
      by (auto simp: two_Cons_iff Add_lock_def qstate_def)
  qed
  then show ?case unfolding stuck_def p [symmetric] prod.collapse by blast
qed

text \<open>
  C33. Listing all containers while another goroutine adds or deletes one can deadlock: there is an
  interleaving after which neither goroutine can ever go on, \<open>All\<close> waiting for its second read lock
  behind the writer, and the writer for the first one to be given up. \<open>Query\<close> alone, which takes the
  lock once, never gets stuck there.
\<close>

theorem All_can_deadlock:
  "(\<exists>s. lock_step\<^sup>*\<^sup>* (free_mutex, two All_lock Add_lock) s \<and> stuck s)
   \<and> \<not> (\<exists>s. lock_step\<^sup>*\<^sup>* (free_mutex, two Query_lock Add_lock) s \<and> stuck s)"
proof
  let ?m1 = "free_mutex\<lparr>rw_readers := 1\<rparr>" and ?p1 = "two [RLock, RUnlock, RUnlock] Add_lock"
  let ?m2 = "?m1\<lparr>rw_waiting := {1}\<rparr>"
  have "lock_step (free_mutex, two All_lock Add_lock) (?m1, ?p1)"
    using lock_step.rlock [of "two All_lock Add_lock" 0 "[RLock, RUnlock, RUnlock]" free_mutex]
    by (simp add: two_Cons_iff All_lock_def Query_lock_def free_mutex_def)
  moreover have "lock_step (?m1, ?p1) (?m2, ?p1)"
    using lock_step.announce [of ?p1 1 "[WUnlock]" ?m1] by (simp add: two_Cons_iff Add_lock_def free_mutex_def)
  ultimately have "lock_step\<^sup>*\<^sup>* (free_mutex, two All_lock Add_lock) (?m2, ?p1)" by auto
  moreover have "\<not> finished (?m2, ?p1)" by (auto simp: finished_def two_def intro!: exI [of _ 0])
  then have "stuck (?m2, ?p1)"
    by (auto simp: stuck_def two_Cons_iff Add_lock_def free_mutex_def elim!: lock_stepE)
  ultimately show "\<exists>s. lock_step\<^sup>*\<^sup>* (free_mutex, two All_lock Add_lock) s \<and> stuck s" by blast
next
  have "free_mutex = fst (qstate Query_lock Add_lock False)"
    by (simp add: qstate_def free_mutex_def Query_lock_def Add_lock_def)
  then have start: "(free_mutex, two Query_lock Add_lock) \<in> query_states"
    using query_states.intros [of Query_lock Add_lock False] by (simp add: qstate_def Add_lock_def)
  have "s \<in> query_states" if "lock_step\<^sup>*\<^sup>* (free_mutex, two Query_lock Add_lock) s" for s
    using that by induction (auto intro: start query_states_step)
  then show "\<not> (\<exists>s. lock_step\<^sup>*\<^sup>* (free_mutex, two Query_lock Add_lock) s \<and> stuck s)"
    using query_states_not_stuck by blast
qed

end
