(* ===== verification/Backend.thy ===== *)
theory Backend
  imports Repository Resource_Pool
begin

text \<open>
  The backend (\<open>linux_backend/linux_backend.go\<close>): the operations of the Garden API, on the resource
  pool, the container provider and the container repository. The containers are Go objects that the
  repository points to; here the repository holds their state, and a method of a container works on
  that state together with the port pool and the world, which are the resource pool's. The snapshot
  files are kept as the values written to them.
\<close>

section \<open>State\<close>

record backend_config =
  bc_pool :: pool_config
  bc_provider :: provider
  bc_snapshotsPath :: string
  bc_maxContainers :: int

record backend =
  b_repo :: repository
  b_pool :: rp_state
  b_snapshots :: "(string \<times> snapshot_json) list"

definition on_pool :: "(rp_state \<Rightarrow> 'a res \<times> rp_state) \<Rightarrow> backend \<Rightarrow> 'a res \<times> backend" where
  "on_pool f b = (case f (b_pool b) of (r, p) \<Rightarrow> (r, b\<lparr>b_pool := p\<rparr>))"

definition in_backend :: "(world \<Rightarrow> 'a res \<times> world) \<Rightarrow> backend \<Rightarrow> 'a res \<times> backend" where
  "in_backend f = on_pool (on_world f)"

definition in_container :: "(cstate \<Rightarrow> 'a res \<times> cstate) \<Rightarrow> container \<Rightarrow> backend \<Rightarrow> 'a res \<times> container \<times> backend" where
  "in_container f c b =
     (case f (c, rp_ports (b_pool b), rp_world (b_pool b)) of
        (r, c, pp, w) \<Rightarrow> (r, c, b\<lparr>b_pool := (b_pool b)\<lparr>rp_ports := pp, rp_world := w\<rparr>\<rparr>))"

section \<open>Creating and destroying\<close>

definition ApplyLimits :: "outside \<Rightarrow> spec_limits \<Rightarrow> cstate \<Rightarrow> unit res \<times> cstate" where
  "ApplyLimits out lim s =
     then_do (if sl_CPU lim \<noteq> zero_cpu_limits then LimitCPU out (sl_CPU lim) s else (Ok (), s)) (\<lambda>_ s.
     then_do (if sl_Disk lim \<noteq> zero_disk_limits then LimitDisk out (sl_Disk lim) s else (Ok (), s)) (\<lambda>_ s.
     then_do (if sl_Bandwidth lim \<noteq> zero_bandwidth_limits then LimitBandwidth out (sl_Bandwidth lim) s else (Ok (), s)) (\<lambda>_ s.
     if sl_Memory lim \<noteq> zero_memory_limits then LimitMemory out (sl_Memory lim) s else (Ok (), s))))"

text \<open>
  The two guards of \<open>Create\<close>. The specification that is released when starting or limiting fails
  shares its resources with the container.
\<close>

definition create_guard :: "backend_config \<Rightarrow> garden_spec \<Rightarrow> backend \<Rightarrow> error option" where
  "create_guard cfg spec b =
     (if gs_Handle spec \<noteq> '''' \<and> is_ok (FindByHandle (gs_Handle spec) (b_repo b))
      then Some (HandleExistsError (gs_Handle spec))
      else if bc_maxContainers cfg > 0 \<and> int (length (Repo_All (\<lambda>r. r) (b_repo b))) \<ge> bc_maxContainers cfg
      then Some (MaxContainersReachedError (bc_maxContainers cfg))
      else None)"

definition start_limited :: "outside \<Rightarrow> spec_limits \<Rightarrow> cstate \<Rightarrow> unit res \<times> cstate" where
  "start_limited out lim s = then_do (Container_Start out s) (\<lambda>_. ApplyLimits out lim)"

definition Backend_Create ::
  "outside \<Rightarrow> backend_config \<Rightarrow> filter_schedule \<Rightarrow> alloc_order \<Rightarrow> garden_spec \<Rightarrow> backend \<Rightarrow> container res \<times> backend" where
  "Backend_Create out cfg sched rng spec b =
     (case create_guard cfg spec b of
        Some e \<Rightarrow> (Err e, b)
      | None \<Rightarrow>
          then_do (on_pool (Pool_Acquire out (bc_pool cfg) sched rng spec) b) (\<lambda>sp b.
          case in_container (start_limited out (gs_Limits spec)) (ProvideContainer (bc_provider cfg) sp) b of
            (Panic m, c, b) \<Rightarrow> (Panic m, b)
          | (Err e, c, b) \<Rightarrow>
              (Err e, snd (on_pool (Pool_Release out (bc_pool cfg) (sp\<lparr>cs_Resources := cs_Resources (c_spec c)\<rparr>)) b))
          | (Ok _, c, b) \<Rightarrow> (Ok c, b\<lparr>b_repo := Repo_Add c (b_repo b)\<rparr>)))"

definition Backend_Destroy :: "outside \<Rightarrow> backend_config \<Rightarrow> string \<Rightarrow> backend \<Rightarrow> unit res \<times> backend" where
  "Backend_Destroy out cfg handle b =
     (case FindByHandle handle (b_repo b) of
        Panic m \<Rightarrow> (Panic m, b)
      | Err e \<Rightarrow> (Err e, b)
      | Ok c \<Rightarrow>
          let b = b\<lparr>b_repo := Repo_Delete c (b_repo b)\<rparr> in
          (case in_container (Container_Cleanup out) c b of
             (Panic m, c, b) \<Rightarrow> (Panic m, b)
           | (Err e, c, b) \<Rightarrow> (Err e, b)
           | (Ok _, c, b) \<Rightarrow> on_pool (Pool_Release out (bc_pool cfg) (ResourceSpec c)) b))"

section \<open>Queries\<close>

definition withProperties :: "properties \<Rightarrow> container \<Rightarrow> bool" where
  "withProperties props c = HasProperties props c"

definition withHandles :: "string list \<Rightarrow> container \<Rightarrow> bool" where
  "withHandles hs c \<longleftrightarrow> Handle c \<in> set hs"

definition Backend_Containers :: "repo_order \<Rightarrow> properties \<Rightarrow> backend \<Rightarrow> container list" where
  "Backend_Containers rng props b = Repo_Query (withProperties props) rng (b_repo b)"

definition handles :: "container list \<Rightarrow> string list" where
  "handles cs = map Handle cs"

definition Backend_Lookup :: "string \<Rightarrow> backend \<Rightarrow> container res" where
  "Backend_Lookup handle b = FindByHandle handle (b_repo b)"

definition Backend_GraceTime :: "container \<Rightarrow> int" where
  "Backend_GraceTime c = GraceTime c"

fun bulk_infos :: "container list \<Rightarrow> (string \<times> container_info res) list \<Rightarrow> (string \<times> container_info res) list res" where
  "bulk_infos [] infos = Ok infos"
| "bulk_infos (c # cs) infos =
     (case Container_Info c of
        Panic m \<Rightarrow> Panic m
      | info \<Rightarrow> bulk_infos cs (AList.update (Handle c) info infos))"

definition BulkInfo :: "repo_order \<Rightarrow> string list \<Rightarrow> backend \<Rightarrow> (string \<times> container_info res) list res" where
  "BulkInfo rng hs b = bulk_infos (Repo_Query (withHandles hs) rng (b_repo b)) []"

text \<open>\<open>Metrics\<close> may open the cgroup file, so it changes the container.\<close>

fun bulk_metrics ::
  "outside \<Rightarrow> container list \<Rightarrow> (string \<times> metrics res) list \<Rightarrow> backend \<Rightarrow> (string \<times> metrics res) list res \<times> backend" where
  "bulk_metrics out [] ms b = (Ok ms, b)"
| "bulk_metrics out (c # cs) ms b =
     (case in_container (Container_Metrics out) c b of
        (Panic m, c, b) \<Rightarrow> (Panic m, b)
      | (r, c, b) \<Rightarrow> bulk_metrics out cs (AList.update (Handle c) r ms) (b\<lparr>b_repo := Repo_Add c (b_repo b)\<rparr>))"

definition BulkMetrics ::
  "outside \<Rightarrow> repo_order \<Rightarrow> string list \<Rightarrow> backend \<Rightarrow> (string \<times> metrics res) list res \<times> backend" where
  "BulkMetrics out rng hs b = bulk_metrics out (Repo_Query (withHandles hs) rng (b_repo b)) [] b"

section \<open>Capacity\<close>

record capacity =
  cap_MemoryInBytes :: uint64
  cap_DiskInBytes :: uint64
  cap_MaxContainers :: uint64

text \<open>The total memory and disk are what \<open>systemInfo\<close> reports, the health what the checker says.\<close>

definition Backend_Capacity :: "backend_config \<Rightarrow> uint64 res \<Rightarrow> uint64 res \<Rightarrow> backend \<Rightarrow> capacity res" where
  "Backend_Capacity cfg totalMemory totalDisk b =
     res_bind totalMemory (\<lambda>memory. res_bind totalDisk (\<lambda>disk.
       let maxContainers = int (MaxContainers (b_pool b));
           maxContainers = (if bc_maxContainers cfg > 0 \<and> maxContainers > bc_maxContainers cfg
                            then bc_maxContainers cfg else maxContainers) in
       Ok \<lparr>cap_MemoryInBytes = memory, cap_DiskInBytes = disk, cap_MaxContainers = of_int maxContainers\<rparr>))"

definition Backend_Ping :: "error option \<Rightarrow> unit res" where
  "Backend_Ping health = (case health of Some e \<Rightarrow> Err (UnrecoverableError e) | None \<Rightarrow> Ok ())"

definition Backend_Setup :: "outside \<Rightarrow> backend_config \<Rightarrow> backend \<Rightarrow> unit res \<times> backend" where
  "Backend_Setup out cfg = on_pool (Pool_Setup out (bc_pool cfg))"

section \<open>Snapshots\<close>

definition saveSnapshot :: "outside \<Rightarrow> backend_config \<Rightarrow> container \<Rightarrow> backend \<Rightarrow> unit res \<times> backend" where
  "saveSnapshot out cfg c b =
     (if bc_snapshotsPath cfg = '''' then (Ok (), b)
      else let snapshotPath = path_Join [bc_snapshotsPath cfg, Container_ID c] in
        case in_backend (write_kernel out (CreateFile snapshotPath)) b of
          (Err e, b) \<Rightarrow> (Err (FailedToSnapshotError e), b)
        | (Panic m, b) \<Rightarrow> (Panic m, b)
        | (Ok _, b) \<Rightarrow>
            let b = b\<lparr>b_snapshots := AList.delete snapshotPath (b_snapshots b)\<rparr> in
            (case Container_Snapshot c of
               Panic m \<Rightarrow> (Panic m, b)
             | Err e \<Rightarrow> (Err (FailedToSnapshotError e), b)
             | Ok sn \<Rightarrow>
                 (case in_backend (write_kernel out (AppendFile snapshotPath ''snapshot'')) b of
                    (Err e, b) \<Rightarrow> (Err (FailedToSnapshotError e), b)
                  | (Panic m, b) \<Rightarrow> (Panic m, b)
                  | (Ok _, b) \<Rightarrow>
                      in_backend (write_kernel out (CloseFile snapshotPath))
                        (b\<lparr>b_snapshots := AList.update snapshotPath (encode_snapshot sn) (b_snapshots b)\<rparr>))))"

text \<open>\<open>Stop\<close>: an error of saving a snapshot is only logged.\<close>

definition stop_one :: "outside \<Rightarrow> backend_config \<Rightarrow> container \<Rightarrow> backend \<Rightarrow> unit res \<times> backend" where
  "stop_one out cfg c b =
     (case in_container (Container_Cleanup out) c b of
        (Panic m, c, b) \<Rightarrow> (Panic m, b)
      | (_, c, b) \<Rightarrow>
          (case saveSnapshot out cfg c (b\<lparr>b_repo := Repo_Add c (b_repo b)\<rparr>) of
             (Panic m, b) \<Rightarrow> (Panic m, b)
           | (_, b) \<Rightarrow> (Ok (), b)))"

definition Backend_Stop :: "outside \<Rightarrow> backend_config \<Rightarrow> repo_order \<Rightarrow> backend \<Rightarrow> unit res \<times> backend" where
  "Backend_Stop out cfg rng b = do_all (stop_one out cfg) (Repo_All rng (b_repo b)) b"

text \<open>\<open>restore\<close> ignores the error of the container's own \<open>Restore\<close>.\<close>

definition Backend_restore :: "outside \<Rightarrow> backend_config \<Rightarrow> snapshot_json \<Rightarrow> backend \<Rightarrow> container res \<times> backend" where
  "Backend_restore out cfg j b =
     then_do (on_pool (Pool_Restore out (bc_pool cfg) j) b) (\<lambda>sp b.
     case in_container (Container_Restore out sp) (ProvideContainer (bc_provider cfg) sp) b of
       (Panic m, c, b) \<Rightarrow> (Panic m, b)
     | (_, c, b) \<Rightarrow> (Ok c, b\<lparr>b_repo := Repo_Add c (b_repo b)\<rparr>))"

text \<open>
  One entry of the snapshots directory: a file that cannot be opened or decoded is skipped, as is one
  that cannot be restored.
\<close>

definition restore_entry :: "outside \<Rightarrow> backend_config \<Rightarrow> string \<Rightarrow> backend \<Rightarrow> unit res \<times> backend" where
  "restore_entry out cfg name b =
     (let snapshot = path_Join [bc_snapshotsPath cfg, name] in
      case in_backend (write_kernel out (OpenFile snapshot)) b of
        (Ok _, b) \<Rightarrow>
          (case map_of (b_snapshots b) snapshot of
             None \<Rightarrow> (Ok (), b)
           | Some j \<Rightarrow>
               (case Backend_restore out cfg j b of
                  (Panic m, b) \<Rightarrow> (Panic m, b)
                | (_, b) \<Rightarrow> (Ok (), b)))
      | (_, b) \<Rightarrow> (Ok (), b))"

definition restoreSnapshots :: "outside \<Rightarrow> backend_config \<Rightarrow> backend \<Rightarrow> unit res \<times> backend" where
  "restoreSnapshots out cfg b =
     (let entries = o_dir out (trace (rp_world (b_pool b))) (bc_snapshotsPath cfg) in
      case in_backend (write_kernel out (ReadDir (bc_snapshotsPath cfg))) b of
        (Ok _, b) \<Rightarrow> do_all (restore_entry out cfg) entries b
      | (_, b) \<Rightarrow> (Ok (), b))"

definition mountSysFs :: "unit res" where
  "mountSysFs = Ok ()"

text \<open>The files of the snapshots are gone when the directory could be removed.\<close>

definition load_snapshots :: "outside \<Rightarrow> backend_config \<Rightarrow> backend \<Rightarrow> unit res \<times> backend" where
  "load_snapshots out cfg b =
     (case in_backend (write_kernel out (StatFile (bc_snapshotsPath cfg))) b of
        (Ok _, b) \<Rightarrow>
          then_do (restoreSnapshots out cfg b) (\<lambda>_ b.
          case in_backend (perform out (RemoveAll (bc_snapshotsPath cfg))) b of
            (Ok _, b) \<Rightarrow> (Ok (), b\<lparr>b_snapshots := []\<rparr>)
          | (_, b) \<Rightarrow> (Ok (), b))
      | (_, b) \<Rightarrow> (Ok (), b))"

definition Backend_Start :: "outside \<Rightarrow> backend_config \<Rightarrow> repo_order \<Rightarrow> backend \<Rightarrow> unit res \<times> backend" where
  "Backend_Start out cfg rng b =
     then_do (if bc_snapshotsPath cfg \<noteq> '''' then
                then_do (load_snapshots out cfg b) (\<lambda>_. in_backend (perform out (MkdirAll (bc_snapshotsPath cfg))))
              else (Ok (), b)) (\<lambda>_ b.
     let keep = map Container_ID (Repo_All rng (b_repo b)) in
     then_do (mountSysFs, b) (\<lambda>_. on_pool (Pool_Prune out (bc_pool cfg) keep)))"

end
