(* ===== verification/Backend_Props.thy ===== *)
theory Backend_Props
  imports Backend Resource_Pool_Props
begin

text \<open>
  Properties of the backend: it refines a table from handles to container identifiers, keeps its
  repository well formed and within the limit, creates, finds and destroys when nothing fails, and
  loses track of a container whose resources could not be released.
\<close>

section \<open>What the containers' methods keep\<close>

lemma keeps_LimitCPU [keeps_intros]: "keeps s (snd (LimitCPU out lim s))"
  unfolding LimitCPU_def by (intro keeps_intros)

lemma keeps_LimitDisk [keeps_intros]: "keeps s (snd (LimitDisk out lim s))"
  unfolding LimitDisk_def by (intro keeps_intros)

lemma keeps_LimitBandwidth [keeps_intros]: "keeps s (snd (LimitBandwidth out lim s))"
  unfolding LimitBandwidth_def by (intro keeps_intros)

lemma keeps_ApplyLimits [keeps_intros]: "keeps s (snd (ApplyLimits out lim s))"
  unfolding ApplyLimits_def by (intro keeps_intros) (auto intro: keeps_intros)

lemma keeps_start_limited [keeps_intros]: "keeps s (snd (start_limited out lim s))"
  unfolding start_limited_def by (intro keeps_intros)

lemma in_container_keeps:
  assumes "\<And>s. keeps s (snd (f s))" and "in_container f c b = (r, c', b')"
  shows "Handle c' = Handle c \<and> Container_ID c' = Container_ID c
    \<and> res_Network (cs_Resources (c_spec c')) = res_Network (cs_Resources (c_spec c))
    \<and> b_repo b' = b_repo b \<and> b_snapshots b' = b_snapshots b \<and> rp_subnets (b_pool b') = rp_subnets (b_pool b)
    \<and> rp_bridges (b_pool b') = rp_bridges (b_pool b)"
proof -
  obtain r0 c0 pp w where f: "f (c, rp_ports (b_pool b), rp_world (b_pool b)) = (r0, c0, pp, w)" by (metis surj_pair)
  with assms(1) [of "(c, rp_ports (b_pool b), rp_world (b_pool b))"] have "identity c0 = identity c" by (simp add: keeps_def)
  then show ?thesis using assms(2) f by (auto simp: in_container_def identity_def Handle_def Container_ID_def)
qed

lemma on_pool_frame: "on_pool f b = (r, b') \<Longrightarrow> b_repo b' = b_repo b \<and> b_snapshots b' = b_snapshots b"
  by (auto simp: on_pool_def split: prod.splits)

section \<open>The table of containers\<close>

text \<open>The abstract backend: the identifier of the container of each handle.\<close>

definition table :: "backend \<Rightarrow> string \<rightharpoonup> string" where
  "table b h = map_option Container_ID (repo.view (b_repo b) h)"

inductive table_step :: "(string \<rightharpoonup> string) \<Rightarrow> (string \<rightharpoonup> string) \<Rightarrow> bool" where
  enter: "h \<notin> dom t \<Longrightarrow> table_step t (t(h \<mapsto> i))"
| remove: "h \<in> dom t \<Longrightarrow> table_step t (t(h := None))"

text \<open>
  The operations of a running backend. A method called on a container that was looked up changes that
  container: \<open>f\<close> is the method's effect on the state. A container without a handle gets its identifier
  as handle, which no other has.
\<close>

inductive backend_step :: "outside \<Rightarrow> backend_config \<Rightarrow> backend \<Rightarrow> backend \<Rightarrow> bool" for out cfg where
  create: "(gs_Handle spec = '''' \<Longrightarrow> \<not> is_ok (FindByHandle (fst (next_containerID (b_pool b))) (b_repo b))) \<Longrightarrow>
    Backend_Create out cfg sched rng spec b = (r, b') \<Longrightarrow> backend_step out cfg b b'"
| destroy: "Backend_Destroy out cfg h b = (r, b') \<Longrightarrow> backend_step out cfg b b'"
| call: "Backend_Lookup h b = Ok c \<Longrightarrow> (\<And>s. keeps s (f s)) \<Longrightarrow> in_container (\<lambda>s. (Ok (), f s)) c b = (r, c', b') \<Longrightarrow>
    backend_step out cfg b (b'\<lparr>b_repo := Repo_Add c' (b_repo b')\<rparr>)"
| stop: "Backend_Stop out cfg ord b = (r, b') \<Longrightarrow> repo_order_ok ord \<Longrightarrow> backend_step out cfg b b'"

lemma Pool_Acquire_handle:
  "Pool_Acquire out cfg sched rng spec s = (Ok sp, s') \<Longrightarrow>
   gs_Handle (cs_Spec sp) = getHandle (gs_Handle spec) (fst (next_containerID s)) \<and> cs_ID sp = fst (next_containerID s)"
  by (simp add: Pool_Acquire_def Let_def split: prod.splits res.splits option.splits) (auto split: res.splits)

lemma ProvideContainer_spec [simp]:
  "Handle (ProvideContainer p sp) = gs_Handle (cs_Spec sp)" "Container_ID (ProvideContainer p sp) = cs_ID sp"
  "c_spec (ProvideContainer p sp) = sp"
  by (simp_all add: Handle_def Container_ID_def ProvideContainer_def NewLinuxContainer_def)

lemma Backend_Create_Ok:
  assumes "Backend_Create out cfg sched rng spec b = (Ok c, b')"
  shows "create_guard cfg spec b = None \<and> b_repo b' = Repo_Add c (b_repo b)
    \<and> Handle c = getHandle (gs_Handle spec) (fst (next_containerID (b_pool b)))
    \<and> Container_ID c = fst (next_containerID (b_pool b))"
proof -
  from assms have g: "create_guard cfg spec b = None" by (auto simp: Backend_Create_def split: option.splits)
  with assms obtain sp b1 where a: "on_pool (Pool_Acquire out (bc_pool cfg) sched rng spec) b = (Ok sp, b1)"
    by (auto simp: Backend_Create_def then_do_Ok_iff)
  obtain r c1 b2 where s: "in_container (start_limited out (gs_Limits spec)) (ProvideContainer (bc_provider cfg) sp) b1 = (r, c1, b2)"
    by (metis surj_pair)
  from assms a s g have "c = c1" "b' = b2\<lparr>b_repo := Repo_Add c1 (b_repo b2)\<rparr>"
    by (cases r; simp add: Backend_Create_def)+
  moreover from a have "Pool_Acquire out (bc_pool cfg) sched rng spec (b_pool b) = (Ok sp, b_pool b1)"
    by (auto simp: on_pool_def split: prod.splits)
  ultimately show ?thesis
    using g on_pool_frame [OF a] in_container_keeps [OF keeps_start_limited s] Pool_Acquire_handle by auto
qed

lemma Backend_Create_Err:
  assumes "Backend_Create out cfg sched rng spec b = (r, b')" and "\<not> is_ok r"
  shows "b_repo b' = b_repo b \<and> b_snapshots b' = b_snapshots b"
proof (cases "create_guard cfg spec b")
  case None
  obtain a b1 where a: "on_pool (Pool_Acquire out (bc_pool cfg) sched rng spec) b = (a, b1)" by fastforce
  show ?thesis
  proof (cases a)
    case (Ok sp)
    obtain t c1 b2 where s: "in_container (start_limited out (gs_Limits spec)) (ProvideContainer (bc_provider cfg) sp) b1 = (t, c1, b2)"
      by (metis surj_pair)
    obtain q b3 where q: "on_pool (Pool_Release out (bc_pool cfg) (sp\<lparr>cs_Resources := cs_Resources (c_spec c1)\<rparr>)) b2 = (q, b3)" by fastforce
    from assms a Ok s q None have "b' = b2 \<or> b' = b3" by (cases t) (auto simp: Backend_Create_def)
    then show ?thesis
      using on_pool_frame [OF a] on_pool_frame [OF q] in_container_keeps [OF keeps_start_limited s] by auto
  qed (use assms a None on_pool_frame [OF a] in \<open>auto simp: Backend_Create_def\<close>)
qed (use assms in \<open>simp add: Backend_Create_def\<close>)

lemma Backend_Destroy_repo:
  assumes "Backend_Destroy out cfg h b = (r, b')"
  shows "(\<exists>c. FindByHandle h (b_repo b) = Ok c \<and> b_repo b' = Repo_Delete c (b_repo b)) \<or> b_repo b' = b_repo b"
proof (cases "FindByHandle h (b_repo b)")
  case (Ok c)
  let ?b = "b\<lparr>b_repo := Repo_Delete c (b_repo b)\<rparr>"
  obtain q c1 b1 where q: "in_container (Container_Cleanup out) c ?b = (q, c1, b1)" by (metis surj_pair)
  obtain p b2 where p: "on_pool (Pool_Release out (bc_pool cfg) (ResourceSpec c1)) b1 = (p, b2)" by fastforce
  have "b' = b1 \<or> b' = b2" using assms Ok q p by (cases q) (auto simp: Backend_Destroy_def)
  then show ?thesis
    using Ok in_container_keeps [OF keeps_Cleanup q] on_pool_frame [OF p] by auto
qed (use assms in \<open>auto simp: Backend_Destroy_def\<close>)

lemma saveSnapshot_repo: "b_repo (snd (saveSnapshot out cfg c b)) = b_repo b"
proof (cases "bc_snapshotsPath cfg = ''''")
  case False
  let ?p = "path_Join [bc_snapshotsPath cfg, Container_ID c]"
  have w: "b_repo b' = b_repo b" if "in_backend f b = (r, b')" for f :: "world \<Rightarrow> unit res \<times> world" and r b b'
    using that on_pool_frame unfolding in_backend_def by blast
  obtain r1 b1 where 1: "in_backend (write_kernel out (CreateFile ?p)) b = (r1, b1)" by fastforce
  let ?b = "b1\<lparr>b_snapshots := AList.delete ?p (b_snapshots b1)\<rparr>"
  obtain r2 b2 where 2: "in_backend (write_kernel out (AppendFile ?p ''snapshot'')) ?b = (r2, b2)" by fastforce
  have s: "b_repo b1 = b_repo b" "b_repo b2 = b_repo b" using w [OF 1] w [OF 2] by simp_all
  have "b_repo (snd (in_backend (write_kernel out (CloseFile ?p)) (b2\<lparr>b_snapshots := x\<rparr>))) = b_repo b" for x
    using s w by (metis backend.select_convs(1) backend.surjective backend.update_convs(3) prod.collapse)
  then show ?thesis using False s
    by (cases r1; cases "Container_Snapshot c"; cases r2) (simp_all add: saveSnapshot_def 1 2 Let_def)
qed (simp add: saveSnapshot_def)

subsection \<open>The table after each operation\<close>

lemma table_same: "b_repo b' = b_repo b \<Longrightarrow> table b' = table b"
  by (simp add: table_def fun_eq_iff)

lemma table_Add:
  "repo_wf (b_repo b) \<Longrightarrow> b_repo b' = Repo_Add c (b_repo b) \<Longrightarrow> table b' = (table b)(Handle c \<mapsto> Container_ID c)"
  by (simp add: table_def fun_eq_iff repo.view_add)

lemma table_Delete:
  "repo_wf (b_repo b) \<Longrightarrow> b_repo b' = Repo_Delete c (b_repo b) \<Longrightarrow> table b' = (table b)(Handle c := None)"
  by (simp add: table_def fun_eq_iff repo.view_del)

lemma table_find: "table b h = (case FindByHandle h (b_repo b) of Ok c \<Rightarrow> Some (Container_ID c) | _ \<Rightarrow> None)"
  by (simp add: table_def repo.view_def split: res.splits)

text \<open>A container that is stored again under the handle and identifier it has is no change of the table.\<close>

lemma table_readd:
  assumes "repo_wf (b_repo b)" and "FindByHandle (Handle c) (b_repo b) = Ok c0" and "Container_ID c = Container_ID c0"
    and "b_repo b' = Repo_Add c (b_repo b)"
  shows "table b' = table b" and "repo_wf (b_repo b')"
proof -
  have "table b (Handle c) = Some (Container_ID c)" by (simp add: table_find assms(2,3))
  then show "table b' = table b" unfolding table_Add [OF assms(1,4)] by (rule fun_upd_idem)
  show "repo_wf (b_repo b')" unfolding assms(4) by (rule repo.wf_add [OF assms(1)])
qed

lemma stop_one_table:
  assumes "stop_one out cfg c b = (r, b')" and "repo_wf (b_repo b)" and "table b (Handle c) = Some (Container_ID c)"
  shows "repo_wf (b_repo b') \<and> table b' = table b"
proof -
  obtain q c1 b1 where q: "in_container (Container_Cleanup out) c b = (q, c1, b1)" by (metis surj_pair)
  let ?b = "b1\<lparr>b_repo := Repo_Add c1 (b_repo b1)\<rparr>"
  obtain p b2 where p: "saveSnapshot out cfg c1 ?b = (p, b2)" by fastforce
  note k = in_container_keeps [OF keeps_Cleanup q]
  have "b_repo b2 = Repo_Add c1 (b_repo b)" using saveSnapshot_repo [of out cfg c1 ?b] p k by simp
  moreover from assms(3) obtain c0 where "FindByHandle (Handle c1) (b_repo b) = Ok c0" "Container_ID c0 = Container_ID c1"
    using k by (auto simp: table_find split: res.splits)
  ultimately have "repo_wf (b_repo b2) \<and> table b2 = table b" using table_readd [OF assms(2)] by metis
  moreover have "b' = b1 \<or> b' = b2" using assms(1) q p by (cases q; cases p) (auto simp: stop_one_def)
  ultimately show ?thesis using k table_same [of b1 b] assms(2) by auto
qed

lemma stop_all_table:
  assumes "do_all (stop_one out cfg) cs b = (r, b')" and "repo_wf (b_repo b)"
    and "\<forall>c\<in>set cs. table b (Handle c) = Some (Container_ID c)"
  shows "repo_wf (b_repo b') \<and> table b' = table b"
  using assms
proof (induction cs arbitrary: b)
  case (Cons c cs)
  obtain p b1 where p: "stop_one out cfg c b = (p, b1)" by fastforce
  from stop_one_table [OF p Cons.prems(2)] Cons.prems(3) have "repo_wf (b_repo b1) \<and> table b1 = table b" by simp
  with Cons.IH [of b1] Cons.prems p show ?case by (cases p) auto
qed simp

lemma Backend_Stop_table:
  assumes "Backend_Stop out cfg ord b = (r, b')" and "repo_wf (b_repo b)" and "repo_order_ok ord"
  shows "repo_wf (b_repo b') \<and> table b' = table b"
proof -
  have "set (Repo_All ord (b_repo b)) = ran (repo.view (b_repo b))"
    using repo.query_view(1) [OF assms(2,3), of "\<lambda>_. True"] by (simp add: Repo_All_def)
  moreover have "FindByHandle (Handle c) (b_repo b) = Ok c" if "c \<in> ran (repo.view (b_repo b))" for c
    using that repo.find_handle [OF assms(2)] by (auto simp: ran_def repo.find_Ok_iff)
  ultimately have "\<forall>c\<in>set (Repo_All ord (b_repo b)). table b (Handle c) = Some (Container_ID c)"
    by (simp add: table_find)
  then show ?thesis using stop_all_table [OF _ assms(2)] assms(1) unfolding Backend_Stop_def by blast
qed

lemma Backend_Destroy_table:
  assumes "Backend_Destroy out cfg h b = (r, b')" and "repo_wf (b_repo b)"
  shows "repo_wf (b_repo b') \<and> (table b' = table b \<or> h \<in> dom (table b) \<and> table b' = (table b)(h := None))"
  using Backend_Destroy_repo [OF assms(1)]
proof (elim disjE exE conjE)
  fix c assume f: "FindByHandle h (b_repo b) = Ok c" and d: "b_repo b' = Repo_Delete c (b_repo b)"
  from repo.find_handle [OF assms(2) f] show ?thesis
    using table_Delete [OF assms(2) d] repo.wf_del [OF assms(2)] d f by (simp add: dom_def table_find)
qed (use assms(2) table_same [of b' b] in simp)

lemma Backend_Create_table:
  assumes "Backend_Create out cfg sched rng spec b = (Ok c, b')" and "repo_wf (b_repo b)"
    and "gs_Handle spec = '''' \<Longrightarrow> \<not> is_ok (FindByHandle (fst (next_containerID (b_pool b))) (b_repo b))"
  shows "repo_wf (b_repo b') \<and> Handle c \<notin> dom (table b) \<and> table b' = (table b)(Handle c \<mapsto> Container_ID c)
    \<and> (bc_maxContainers cfg > 0 \<longrightarrow> int (card (dom (table b))) < bc_maxContainers cfg)"
proof -
  note ok = Backend_Create_Ok [OF assms(1)]
  have "\<not> is_ok (FindByHandle (Handle c) (b_repo b))"
    using ok assms(3) by (auto simp: create_guard_def getHandle_def split: if_splits)
  then have "Handle c \<notin> dom (table b)" by (auto simp: table_find split: res.splits)
  moreover have "dom (table b) = dom (repo.view (b_repo b))" by (auto simp: table_def)
  then have "card (dom (table b)) = length (Repo_All (\<lambda>r. r) (b_repo b))"
    using repo.query_view(2) [OF assms(2), of "\<lambda>r. r"] by (simp add: Repo_All_def repo_order_ok_def)
  then have "bc_maxContainers cfg > 0 \<longrightarrow> int (card (dom (table b))) < bc_maxContainers cfg"
    using ok by (auto simp: create_guard_def split: if_splits)
  ultimately show ?thesis
    using ok table_Add [OF assms(2), of b' c] repo.wf_add [OF assms(2)] by simp
qed

text \<open>Every step keeps the repository well formed, and does to the table what a step of the table does.\<close>

lemma backend_step_table:
  assumes "backend_step out cfg b b'" and "repo_wf (b_repo b)"
  shows "repo_wf (b_repo b')" and "table b' = table b \<or> table_step (table b) (table b')"
    and "bc_maxContainers cfg > 0 \<Longrightarrow> dom (table b') \<subseteq> dom (table b)
      \<or> (\<exists>h. dom (table b') = insert h (dom (table b)) \<and> int (card (dom (table b))) < bc_maxContainers cfg)"
proof -
  have "repo_wf (b_repo b') \<and> (table b' = table b \<or> table_step (table b) (table b'))
    \<and> (bc_maxContainers cfg > 0 \<longrightarrow> dom (table b') \<subseteq> dom (table b)
      \<or> (\<exists>h. dom (table b') = insert h (dom (table b)) \<and> int (card (dom (table b))) < bc_maxContainers cfg))"
    using assms
  proof (cases rule: backend_step.cases)
    case (create spec sched rng r)
    show ?thesis
    proof (cases "is_ok r")
      case True
      then obtain c where r: "r = Ok c" by (auto simp: is_ok_iff)
      note t = Backend_Create_table [OF create(2) [unfolded r] assms(2) create(1)]
      then have "table_step (table b) (table b')" using table_step.enter by metis
      moreover have "dom (table b') = insert (Handle c) (dom (table b))" using t by auto
      ultimately show ?thesis using t by auto
    qed (use Backend_Create_Err [OF create(2)] table_same [of b' b] assms(2) in simp)
  next
    case (destroy h r)
    have d: "dom ((table b)(h := None)) \<subseteq> dom (table b)" by auto
    from Backend_Destroy_table [OF destroy assms(2)] show ?thesis
    proof (elim conjE disjE)
      assume "h \<in> dom (table b)" and t: "table b' = (table b)(h := None)" and "repo_wf (b_repo b')"
      with table_step.remove [of h "table b"] d show ?thesis unfolding t by blast
    qed auto
  next
    case (call h c f r c' b1)
    have "keeps s (snd (Ok (), f s))" for s using call(3) by simp
    note k = in_container_keeps [OF this call(4)]
    have f: "FindByHandle (Handle c') (b_repo b) = Ok c"
      using call(2) k repo.find_handle [OF assms(2)] by (auto simp: Backend_Lookup_def)
    have "b_repo b' = Repo_Add c' (b_repo b)" using call(1) k by simp
    from table_readd [OF assms(2) f _ this] show ?thesis using k by simp
  next
    case (stop ord r)
    from Backend_Stop_table [OF this(1) assms(2) this(2)] show ?thesis by simp
  qed
  then show "repo_wf (b_repo b')" "table b' = table b \<or> table_step (table b) (table b')"
    "bc_maxContainers cfg > 0 \<Longrightarrow> dom (table b') \<subseteq> dom (table b)
      \<or> (\<exists>h. dom (table b') = insert h (dom (table b)) \<and> int (card (dom (table b))) < bc_maxContainers cfg)"
    by auto
qed

section \<open>When nothing fails\<close>

lemma is_ok_in_world [succeeds]: "(\<And>w. is_ok (fst (f w))) \<Longrightarrow> is_ok (fst (in_world f s))"
  by (simp add: in_world_def split: prod.splits) (metis fst_conv)

lemma is_ok_ContainerSetup [succeeds]:
  assumes "all_ok out"
  shows "is_ok (fst (ContainerSetup out chs i br ip nw w))"
proof -
  have "is_ok (fst (run_retry out c w))" for c w
  proof -
    obtain u w' where "run_cmd out c w = (Ok u, w')" using is_ok_external(2) [OF assms] by (metis is_ok_iff prod.collapse)
    then show ?thesis by (simp add: run_retry_def)
  qed
  then have one: "is_ok (fst (MgrChain_Setup out c i br ip nw w))" for c w
    using assms by (cases c) (auto intro!: succeeds)
  have "is_ok (fst (setup_loop out up chs i br ip nw w))" for up w
  proof (induction chs arbitrary: up w)
    case (Cons c chs)
    obtain r w' where r: "MgrChain_Setup out c i br ip nw w = (r, w')" by fastforce
    with one [of c w] obtain u where "r = Ok u" by (auto simp: is_ok_iff)
    with r Cons show ?case by simp
  qed simp
  then show ?thesis using assms unfolding ContainerSetup_def by (intro succeeds)
qed

lemma Container_Start_succeeds:
  assumes "all_ok out" and "res_Network (cs_Resources (c_spec (fst s))) = Some n"
  shows "is_ok (fst (Container_Start out s))"
  using assms unfolding Container_Start_def setup_iptables_def by (auto intro!: succeeds)

lemma ApplyLimits_zero [simp]: "ApplyLimits out zero_spec_limits s = (Ok (), s)"
  by (simp add: ApplyLimits_def zero_spec_limits_def)

lemma Container_Start_active: "Container_Start out s = (Ok u, s') \<Longrightarrow> State (fst s') = StateActive"
  by (auto simp: Container_Start_def then_do_Ok_iff setState_def upd_spec_def State_def split: prod.splits)

lemma Backend_Create_succeeds:
  assumes "all_ok out" and "create_guard cfg spec b = None" and "gs_Limits spec = zero_spec_limits"
    and "is_ok (parseNetworkSpec (gs_Network spec))"
    and "SubnetPool_Acquire (network_request rng spec) (rp_subnets (b_pool b)) = (Ok n, p)"
    and "o_url_ok out (gs_RootFSPath spec) = None" and "\<And>t i rs. is_ok (NewEnv (snd (o_rootfs out t i rs)))"
    and "is_ok (NewEnv (gs_Env spec))"
  shows "\<exists>c b1. Backend_Create out cfg sched rng spec b = (Ok c, b1) \<and> State c = StateActive"
proof -
  from Pool_Acquire_succeeds [OF assms(1,4-8)]
  obtain sp s1 where a: "Pool_Acquire out (bc_pool cfg) sched rng spec (b_pool b) = (Ok sp, s1)" by blast
  let ?s = "(ProvideContainer (bc_provider cfg) sp, rp_ports s1, rp_world s1)"
  from Pool_Acquire_Ok [OF a] obtain n where "res_Network (cs_Resources (c_spec (fst ?s))) = Some n" by auto
  from Container_Start_succeeds [OF assms(1) this]
  obtain c1 pp w where s: "Container_Start out ?s = (Ok (), c1, pp, w)"
    by (metis is_ok_iff old.unit.exhaust prod.collapse)
  with Container_Start_active [OF s] show ?thesis
    by (simp add: Backend_Create_def assms(2,3) on_pool_def a in_container_def start_limited_def)
qed

lemma Backend_Destroy_succeeds:
  assumes "all_ok out" and "repo_wf (b_repo b)" and "FindByHandle h (b_repo b) = Ok c"
  shows "\<exists>b'. Backend_Destroy out cfg h b = (Ok (), b') \<and> FindByHandle h (b_repo b') = Err (ContainerNotFoundError h)"
proof -
  let ?b = "b\<lparr>b_repo := Repo_Delete c (b_repo b)\<rparr>"
  obtain q c1 b1 where q: "in_container (Container_Cleanup out) c ?b = (q, c1, b1)" by (metis surj_pair)
  then have ok: "q = Ok ()" by (simp add: in_container_def Container_Cleanup_def split: prod.splits)
  from Pool_Release_succeeds [OF assms(1), of "bc_pool cfg" "ResourceSpec c1" "b_pool b1"]
  obtain s where r: "Pool_Release out (bc_pool cfg) (ResourceSpec c1) (b_pool b1) = (Ok (), s)"
    by (metis is_ok_iff old.unit.exhaust prod.collapse)
  have "b_repo b1 = Repo_Delete c (b_repo b)" using in_container_keeps [OF keeps_Cleanup q] by simp
  then have "FindByHandle h (b_repo b1) = Err (ContainerNotFoundError h)"
    using repo.find_handle [OF assms(2,3)] repo.find_del [OF assms(2)] by simp
  then show ?thesis using assms(3) q ok r by (simp add: Backend_Destroy_def on_pool_def)
qed

lemma Backend_Destroy_Err:
  assumes "Backend_Destroy out cfg h b = (Err e, b')" and "FindByHandle h (b_repo b) = Ok c"
  shows "b_repo b' = Repo_Delete c (b_repo b) \<and> rp_subnets (b_pool b') = rp_subnets (b_pool b)
    \<and> rp_ports (b_pool b') = rp_ports (b_pool b)"
proof -
  let ?b = "b\<lparr>b_repo := Repo_Delete c (b_repo b)\<rparr>"
  obtain q c1 b1 where q: "in_container (Container_Cleanup out) c ?b = (q, c1, b1)" by (metis surj_pair)
  then have ok: "q = Ok ()" by (simp add: in_container_def Container_Cleanup_def split: prod.splits)
  have ports: "rp_ports (b_pool b1) = rp_ports (b_pool b)"
    using q by (auto simp: in_container_def Container_Cleanup_def Oom_Unwatch_def split: prod.splits option.splits)
  obtain r s where r: "Pool_Release out (bc_pool cfg) (ResourceSpec c1) (b_pool b1) = (r, s)" by fastforce
  with assms q ok have "r = Err e" "b' = b1\<lparr>b_pool := s\<rparr>" by (auto simp: Backend_Destroy_def on_pool_def)
  with Pool_Release_Err r ports in_container_keeps [OF keeps_Cleanup q] show ?thesis by (auto simp: same_pools_def)
qed

section \<open>Properties\<close>

definition example_backend_config :: backend_config where
  "example_backend_config =
     \<lparr>bc_pool = example_pool_config, bc_provider = example_provider, bc_snapshotsPath = '''', bc_maxContainers = 1\<rparr>"

definition example_backend :: backend where
  "example_backend = \<lparr>b_repo = Repo_New, b_pool = example_pool, b_snapshots = []\<rparr>"

lemma example_backend_acquire:
  "SubnetPool_Acquire (network_request (\<lambda>m. m) zero_garden_spec) (rp_subnets (b_pool example_backend)) =
     (Ok \<lparr>Subnet = example_net 0, IP = [10, 254, 0, 2]\<rparr>,
      \<lparr>allocated = [(''10.254.0.0/30'', [[10, 254, 0, 2]])], dynamicRange = example_range\<rparr>)"
  using example_acquire by (simp add: example_backend_def)

lemma example_Create:
  "\<exists>c b1. Backend_Create quiet example_backend_config sched (\<lambda>m. m) zero_garden_spec example_backend = (Ok c, b1)"
proof -
  have "\<exists>c b1. Backend_Create quiet example_backend_config sched (\<lambda>m. m) zero_garden_spec example_backend = (Ok c, b1)
      \<and> State c = StateActive"
    by (rule Backend_Create_succeeds [OF quiet_all_ok _ _ _ example_backend_acquire])
      (simp_all add: quiet_def NewEnv_def zero_garden_spec_def parseNetworkSpec_def create_guard_def example_backend_def
        example_backend_config_def Repo_All_def Repo_Query_def Repo_New_def)
  then show ?thesis by blast
qed

lemma example_step:
  assumes "Backend_Create quiet example_backend_config sched (\<lambda>m. m) zero_garden_spec example_backend = (Ok c, b1)"
  shows "(backend_step quiet example_backend_config)\<^sup>*\<^sup>* example_backend b1"
  by (rule r_into_rtranclp, rule backend_step.create [OF _ assms])
    (simp add: example_backend_def Repo_New_def FindByHandle_def)





text \<open>
  C35. When no external call fails, a creation request that passes the guards, finds a free network and
  has no limits is served: the container is started and found under its handle, and destroying it
  succeeds, after which the handle is free again.
\<close>

theorem Create_serves:
  assumes "all_ok out" and "repo_wf (b_repo b)" and "create_guard cfg spec b = None" and "gs_Limits spec = zero_spec_limits"
    and "is_ok (parseNetworkSpec (gs_Network spec))"
    and "SubnetPool_Acquire (network_request rng spec) (rp_subnets (b_pool b)) = (Ok n, p)"
    and "o_url_ok out (gs_RootFSPath spec) = None" and "\<And>t i rs. is_ok (NewEnv (snd (o_rootfs out t i rs)))"
    and "is_ok (NewEnv (gs_Env spec))"
  shows "\<exists>c b1 b2. Backend_Create out cfg sched rng spec b = (Ok c, b1)
    \<and> State c = StateActive \<and> Backend_Lookup (Handle c) b1 = Ok c
    \<and> Backend_Destroy out cfg (Handle c) b1 = (Ok (), b2)
    \<and> Backend_Lookup (Handle c) b2 = Err (ContainerNotFoundError (Handle c))"
proof -
  from Backend_Create_succeeds [OF assms(1,3-9)]
  obtain c b1 where c: "Backend_Create out cfg sched rng spec b = (Ok c, b1)" "State c = StateActive" by blast
  have r: "b_repo b1 = Repo_Add c (b_repo b)" using Backend_Create_Ok [OF c(1)] by simp
  have wf: "repo_wf (b_repo b1)" unfolding r by (rule repo.wf_add [OF assms(2)])
  have f: "FindByHandle (Handle c) (b_repo b1) = Ok c" unfolding r by (simp add: repo.find_add [OF assms(2)])
  from Backend_Destroy_succeeds [OF assms(1) wf f] c f show ?thesis by (auto simp: Backend_Lookup_def)
qed

theorem Create_serves_witness:
  "\<exists>c b1 b2. Backend_Create quiet example_backend_config FilterFirst (\<lambda>m. m) zero_garden_spec example_backend = (Ok c, b1)
     \<and> Backend_Lookup (Handle c) b1 = Ok c
     \<and> Backend_Destroy quiet example_backend_config (Handle c) b1 = (Ok (), b2)
     \<and> Backend_Lookup (Handle c) b2 = Err (ContainerNotFoundError (Handle c))"
proof -
  from Create_serves [OF quiet_all_ok _ _ _ _ example_backend_acquire, of example_backend_config FilterFirst]
  show ?thesis
    by (auto simp: quiet_def NewEnv_def zero_garden_spec_def parseNetworkSpec_def create_guard_def example_backend_def
        example_backend_config_def Repo_All_def Repo_Query_def Repo_New_def repo_wf_def)
qed

text \<open>
  C36. A container that could not be released is lost. When destroying fails after the container was
  found, the container is gone from the repository although its network and its ports are still taken:
  destroying it again only reports that there is no such container.
\<close>

theorem Destroy_loses_container:
  assumes "repo_wf (b_repo b)" and "Backend_Lookup h b = Ok c" and "Backend_Destroy out cfg h b = (Err e, b')"
  shows "Backend_Lookup h b' = Err (ContainerNotFoundError h)
    \<and> rp_subnets (b_pool b') = rp_subnets (b_pool b) \<and> rp_ports (b_pool b') = rp_ports (b_pool b)
    \<and> Backend_Destroy out' cfg h b' = (Err (ContainerNotFoundError h), b')"
proof -
  have f: "FindByHandle h (b_repo b) = Ok c" using assms(2) by (simp add: Backend_Lookup_def)
  note d = Backend_Destroy_Err [OF assms(3) f]
  then have "FindByHandle h (b_repo b') = Err (ContainerNotFoundError h)"
    using repo.find_handle [OF assms(1) f] repo.find_del [OF assms(1)] by simp
  then show ?thesis using d by (simp add: Backend_Lookup_def Backend_Destroy_def)
qed

text \<open>A backend that holds one container, and an outside on which every command fails.\<close>

definition example_held :: backend where
  "example_held =
     example_backend\<lparr>b_repo := [(''h'', ProvideContainer example_provider
       (example_spec\<lparr>cs_Spec := zero_garden_spec\<lparr>gs_Handle := ''h''\<rparr>\<rparr>))]\<rparr>"

definition failing :: outside where
  "failing = quiet\<lparr>o_err := \<lambda>_ _. Some (External ''failed'')\<rparr>"

lemma example_Destroy: "\<exists>e b'. Backend_Destroy failing example_backend_config ''h'' example_held = (Err e, b')"
proof -
  have "case fst (Backend_Destroy failing example_backend_config ''h'' example_held) of Err _ \<Rightarrow> True | _ \<Rightarrow> False"
    by code_simp
  then show ?thesis
    by (cases "Backend_Destroy failing example_backend_config ''h'' example_held") (auto split: res.splits)
qed

theorem Destroy_loses_container_witness:
  "\<exists>e b'. Backend_Destroy failing example_backend_config ''h'' example_held = (Err e, b')
     \<and> Backend_Lookup ''h'' b' = Err (ContainerNotFoundError ''h'')
     \<and> Backend_Destroy quiet example_backend_config ''h'' b' = (Err (ContainerNotFoundError ''h''), b')"
proof -
  obtain e b' where d: "Backend_Destroy failing example_backend_config ''h'' example_held = (Err e, b')"
    using example_Destroy by blast
  have "repo_wf (b_repo example_held)" by (simp add: example_held_def repo_wf_def)
  moreover have "is_ok (Backend_Lookup ''h'' example_held)" by (simp add: example_held_def Backend_Lookup_def FindByHandle_def)
  then obtain c where "Backend_Lookup ''h'' example_held = Ok c" by (auto simp: is_ok_iff)
  ultimately show ?thesis using Destroy_loses_container [of example_held "''h''" c, OF _ _ d] d by blast
qed

end
