(* ===== verification/Rlimits.thy ===== *)
theory Rlimits
  imports Container_Props
begin

text \<open>
  Resource limits on their way to a process: the variables that the container sets for \<open>wsh\<close>
  (\<open>linux_container/running.go\<close>), what \<open>wsh\<close> reads from its environment
  (\<open>container_daemon/wsh/main.go\<close>), and the manager that encodes them on a command line, decodes and
  applies them (\<open>container_daemon/rlimits_manager.go\<close>).
\<close>

section \<open>Scanning a number\<close>

text \<open>
  The \<open>%d\<close> verb of \<open>fmt.Sscanf\<close> into an unsigned variable of the given width: blanks are skipped and
  the longest run of digits is read; no sign is accepted, and the number must fit.
\<close>

definition sscanf_uint :: "nat \<Rightarrow> string \<Rightarrow> nat option" where
  "sscanf_uint bits s =
     (case parse_uint 64 (takeWhile is_digit (dropWhile (\<lambda>c. is_space c \<and> c \<noteq> CHR 0x0A) s)) of
        Some n \<Rightarrow> if n < 2 ^ bits then Some n else None
      | None \<Rightarrow> None)"

lemma sscanf_uint_show_nat:
  assumes "n < 2 ^ bits" and "n < 2 ^ 64"
  shows "sscanf_uint bits (show_nat n) = Some n"
proof -
  have d: "dropWhile (\<lambda>c. is_space c \<and> c \<noteq> CHR 0x0A) (show_nat n) = show_nat n"
    using show_nat_digits [of n] not_space_digit by (intro dropWhile_none) blast
  have t: "takeWhile is_digit (show_nat n) = show_nat n" using show_nat_digits [of n] by (simp add: takeWhile_eq_all_conv)
  show ?thesis using assms by (simp add: sscanf_uint_def d t)
qed

lemma sscanf_uint_show_word: "sscanf_uint 64 (show_word (v :: uint64)) = Some (unat v)"
proof -
  have "unat v < 2 ^ LENGTH(64)" by (rule unsigned_less)
  then show ?thesis by (simp add: show_word_def sscanf_uint_show_nat)
qed

section \<open>Encoding and decoding\<close>

fun encode_limit :: "string \<times> uint64 option \<Rightarrow> string list" where
  "encode_limit (name, None) = []"
| "encode_limit (name, Some v) = [name @ ''='' @ show_word v]"

definition limit_fields :: "resource_limits \<Rightarrow> (string \<times> uint64 option) list" where
  "limit_fields r =
     [(''RLIMIT_AS'', rl_As r), (''RLIMIT_CORE'', rl_Core r), (''RLIMIT_CPU'', rl_Cpu r), (''RLIMIT_DATA'', rl_Data r),
      (''RLIMIT_FSIZE'', rl_Fsize r), (''RLIMIT_LOCKS'', rl_Locks r), (''RLIMIT_MEMLOCK'', rl_Memlock r),
      (''RLIMIT_MSGQUEUE'', rl_Msgqueue r), (''RLIMIT_NICE'', rl_Nice r), (''RLIMIT_NOFILE'', rl_Nofile r),
      (''RLIMIT_NPROC'', rl_Nproc r), (''RLIMIT_RSS'', rl_Rss r), (''RLIMIT_RTPRIO'', rl_Rtprio r),
      (''RLIMIT_SIGPENDING'', rl_Sigpending r), (''RLIMIT_STACK'', rl_Stack r)]"

definition EncodeLimits :: "resource_limits \<Rightarrow> string" where
  "EncodeLimits r = join '','' (concat (map encode_limit (limit_fields r)))"

definition decode_one :: "string \<Rightarrow> (string \<rightharpoonup> uint64) \<Rightarrow> (string \<rightharpoonup> uint64)" where
  "decode_one str env =
     (case split_n2 CHR ''='' str of
        [k, v] \<Rightarrow> (case sscanf_uint 64 v of Some n \<Rightarrow> env(k \<mapsto> of_nat n) | None \<Rightarrow> env)
      | _ \<Rightarrow> env)"

definition decode :: "string \<Rightarrow> (string \<rightharpoonup> uint64)" where
  "decode encodedLimits = fold decode_one (split_on CHR '','' encodedLimits) (\<lambda>_. None)"

definition limits_of :: "(string \<Rightarrow> uint64 option) \<Rightarrow> resource_limits" where
  "limits_of f =
     \<lparr>rl_As = f ''RLIMIT_AS'', rl_Core = f ''RLIMIT_CORE'', rl_Cpu = f ''RLIMIT_CPU'', rl_Data = f ''RLIMIT_DATA'',
      rl_Fsize = f ''RLIMIT_FSIZE'', rl_Locks = f ''RLIMIT_LOCKS'', rl_Memlock = f ''RLIMIT_MEMLOCK'',
      rl_Msgqueue = f ''RLIMIT_MSGQUEUE'', rl_Nice = f ''RLIMIT_NICE'', rl_Nofile = f ''RLIMIT_NOFILE'',
      rl_Nproc = f ''RLIMIT_NPROC'', rl_Rss = f ''RLIMIT_RSS'', rl_Rtprio = f ''RLIMIT_RTPRIO'',
      rl_Sigpending = f ''RLIMIT_SIGPENDING'', rl_Stack = f ''RLIMIT_STACK''\<rparr>"

definition DecodeLimits :: "string \<Rightarrow> resource_limits" where
  "DecodeLimits encodedLimits = limits_of (decode encodedLimits)"

text \<open>
  \<open>wsh\<close>: \<open>os.Getenv\<close> returns the first value of a variable, and the empty string for one that is not
  set. A value that is not a number counts as zero.
\<close>

fun env_lookup :: "string list \<Rightarrow> string \<Rightarrow> string" where
  "env_lookup [] k = ''''"
| "env_lookup (e # es) k =
     (case split_n2 CHR ''='' e of [k', v] \<Rightarrow> if k' = k then v else env_lookup es k | _ \<Rightarrow> env_lookup es k)"

definition getRLimitFromEnv :: "string list \<Rightarrow> string \<Rightarrow> uint64 option" where
  "getRLimitFromEnv env envVar =
     (let strVal = env_lookup env envVar in
      if strVal = '''' then None
      else Some (case sscanf_uint 64 strVal of Some n \<Rightarrow> of_nat n | None \<Rightarrow> 0))"

definition getRlimits :: "string list \<Rightarrow> resource_limits" where
  "getRlimits env = limits_of (getRLimitFromEnv env)"

section \<open>Applying\<close>

definition RLIMIT_INFINITY :: uint64 where
  "RLIMIT_INFINITY = - 1"

definition MaxNoFile :: "outside \<Rightarrow> world \<Rightarrow> uint64 res \<times> world" where
  "MaxNoFile out w =
     then_do (wrap_error ''container_daemon: failed to read /proc/sys/fs/nr_open: ''
                (read_kernel out (ReadFile ''/proc/sys/fs/nr_open'') ''/proc/sys/fs/nr_open'' w)) (\<lambda>contents w.
     wrap_error ''container_daemon: failed to convert contents of /proc/sys/fs/nr_open: ''
       (parse_uint64 (trim_space contents), w))"

text \<open>The soft limit stays what it was.\<close>

definition setHardRLimit :: "outside \<Rightarrow> string \<times> nat \<times> uint64 \<Rightarrow> world \<Rightarrow> unit res \<times> world" where
  "setHardRLimit out = (\<lambda>(label, rLimitId, rLimitMax) w.
     let cur = fst (o_rlimit out (trace w) rLimitId) in
     then_do (wrap_error (''container_daemon: getting system limit '' @ label @ '': '') (sys out (Getrlimit rLimitId) w)) (\<lambda>_ w.
     wrap_error (''container_daemon: setting hard system limit '' @ label @ '': '')
       (sys out (Setrlimit rLimitId cur rLimitMax) w)))"

definition rLimitsMap :: "uint64 \<Rightarrow> (string \<times> nat \<times> uint64) list" where
  "rLimitsMap maxNoFile =
     [(''cpu'', 0, RLIMIT_INFINITY), (''fsize'', 1, RLIMIT_INFINITY), (''data'', 2, RLIMIT_INFINITY),
      (''stack'', 3, RLIMIT_INFINITY), (''core'', 4, RLIMIT_INFINITY), (''rss'', 5, RLIMIT_INFINITY),
      (''nproc'', 6, RLIMIT_INFINITY), (''nofile'', 7, maxNoFile), (''memlock'', 8, RLIMIT_INFINITY),
      (''as'', 9, RLIMIT_INFINITY), (''locks'', 10, RLIMIT_INFINITY), (''sigpending'', 11, RLIMIT_INFINITY),
      (''msgqueue'', 12, RLIMIT_INFINITY), (''nice'', 13, RLIMIT_INFINITY), (''rtprio'', 14, RLIMIT_INFINITY)]"

text \<open>The order in which a map is traversed is a parameter.\<close>

definition Rlimits_Init ::
  "outside \<Rightarrow> ((string \<times> nat \<times> uint64) list \<Rightarrow> (string \<times> nat \<times> uint64) list) \<Rightarrow> world \<Rightarrow> unit res \<times> world" where
  "Rlimits_Init out rng w =
     then_do (MaxNoFile out w) (\<lambda>maxNoFile. do_all (setHardRLimit out) (rng (rLimitsMap maxNoFile)))"

fun given :: "nat \<times> uint64 option \<Rightarrow> (nat \<times> uint64) list" where
  "given (i, None) = []"
| "given (i, Some v) = [(i, v)]"

definition getSystemRlimitFlags :: "resource_limits \<Rightarrow> (nat \<times> uint64) list" where
  "getSystemRlimitFlags r =
     concat (map given
       [(0, rl_Cpu r), (1, rl_Fsize r), (2, rl_Data r), (3, rl_Stack r), (4, rl_Core r), (5, rl_Rss r), (6, rl_Nproc r),
        (7, rl_Nofile r), (8, rl_Memlock r), (9, rl_As r), (10, rl_Locks r), (11, rl_Sigpending r), (12, rl_Msgqueue r),
        (13, rl_Nice r), (14, rl_Rtprio r)])"

definition Rlimits_Apply ::
  "outside \<Rightarrow> ((nat \<times> uint64) list \<Rightarrow> (nat \<times> uint64) list) \<Rightarrow> resource_limits \<Rightarrow> world \<Rightarrow> unit res \<times> world" where
  "Rlimits_Apply out rng r w =
     do_all (\<lambda>(which, v) w. wrap_error ''container_daemon: setting rlimit: '' (sys out (Setrlimit which v v) w))
       (rng (getSystemRlimitFlags r)) w"

section \<open>Lists of limits\<close>

lemma show_word_no_comma: "CHR '','' \<notin> set (show_word w)" "CHR ''='' \<notin> set (show_word w)"
  by (simp_all add: show_word_def show_nat_no_char is_digit_cases)

definition plain_keys :: "(string \<times> uint64 option) list \<Rightarrow> bool" where
  "plain_keys kvs \<longleftrightarrow> distinct (map fst kvs) \<and> (\<forall>k\<in>fst ` set kvs. CHR ''='' \<notin> set k \<and> CHR '','' \<notin> set k)"

lemma decode_one_entry: "CHR ''='' \<notin> set k \<Longrightarrow> decode_one (k @ CHR ''='' # show_word v) m = m(k \<mapsto> v)"
  by (simp add: decode_one_def split_n2_key_value sscanf_uint_show_word)

lemma decode_one_empty: "decode_one '''' m = m"
  by (simp add: decode_one_def split_n2_def)

lemma decode_entries:
  assumes "plain_keys kvs"
  shows "fold decode_one (concat (map encode_limit kvs)) m k =
    (case map_of kvs k of Some (Some v) \<Rightarrow> Some v | _ \<Rightarrow> m k)"
  using assms
proof (induction kvs arbitrary: m)
  case (Cons kv kvs)
  obtain k' o' where kv: "kv = (k', o')" by fastforce
  from Cons.prems have p: "plain_keys kvs" "k' \<notin> fst ` set kvs" "CHR ''='' \<notin> set k'"
    by (auto simp: plain_keys_def kv)
  from p(2) have "map_of kvs k' = None" by (simp add: map_of_eq_None_iff)
  then show ?case using Cons.IH [OF p(1)] p(3)
    by (cases o') (auto simp: kv decode_one_entry fun_upd_other split: option.splits)
qed simp

lemma entries_no_comma: "plain_keys kvs \<Longrightarrow> \<forall>e\<in>set (concat (map encode_limit kvs)). CHR '','' \<notin> set e"
proof (induction kvs)
  case (Cons kv kvs)
  obtain k o' where kv: "kv = (k, o')" by fastforce
  from Cons show ?case by (cases o') (auto simp: kv plain_keys_def show_word_no_comma)
qed simp

lemma split_entries:
  assumes "plain_keys kvs"
  shows "split_on CHR '','' (join '','' (concat (map encode_limit kvs))) =
    (if concat (map encode_limit kvs) = [] then [''''] else concat (map encode_limit kvs))"
proof (cases "concat (map encode_limit kvs) = []")
  case False
  with split_on_join [OF False entries_no_comma [OF assms]] show ?thesis by (simp only: if_False)
next
  case True
  show ?thesis unfolding True by simp
qed

lemma decode_join:
  assumes "plain_keys kvs"
  shows "decode (join '','' (concat (map encode_limit kvs))) k = (case map_of kvs k of Some (Some v) \<Rightarrow> Some v | _ \<Rightarrow> None)"
proof (cases "concat (map encode_limit kvs) = []")
  case True
  with decode_entries [OF assms, of "\<lambda>_. None" k] show ?thesis
    unfolding decode_def split_entries [OF assms] by (simp add: decode_one_empty)
next
  case False
  with decode_entries [OF assms, of "\<lambda>_. None" k] show ?thesis
    unfolding decode_def split_entries [OF assms] by (simp only: if_False)
qed

lemma env_lookup_entries:
  assumes "plain_keys kvs"
  shows "getRLimitFromEnv (concat (map encode_limit kvs)) k = (case map_of kvs k of Some (Some v) \<Rightarrow> Some v | _ \<Rightarrow> None)"
proof -
  have "env_lookup (concat (map encode_limit kvs)) k = (case map_of kvs k of Some (Some v) \<Rightarrow> show_word v | _ \<Rightarrow> '''')"
    using assms
  proof (induction kvs)
    case (Cons kv kvs)
    obtain k' o' where kv: "kv = (k', o')" by fastforce
    from Cons.prems have p: "plain_keys kvs" "k' \<notin> fst ` set kvs" "CHR ''='' \<notin> set k'"
      by (auto simp: plain_keys_def kv)
    from p(2) have "map_of kvs k' = None" by (simp add: map_of_eq_None_iff)
    then show ?case using Cons.IH [OF p(1)] p(3) by (cases o') (auto simp: kv split_n2_key_value)
  qed simp
  moreover have "show_word v \<noteq> ''''" for v :: uint64 by (simp add: show_word_def)
  ultimately show ?thesis
    by (cases "map_of kvs k"; cases "the (map_of kvs k)")
      (simp_all add: getRLimitFromEnv_def sscanf_uint_show_word)
qed

lemma limit_fields_plain: "plain_keys (limit_fields r)"
  by (simp add: plain_keys_def limit_fields_def)

lemma limits_of_fields: "limits_of (\<lambda>k. case map_of (limit_fields r) k of Some (Some v) \<Rightarrow> Some v | _ \<Rightarrow> None) = r"
proof -
  have "(case Some x of Some (Some v) \<Rightarrow> Some v | _ \<Rightarrow> None) = x" for x :: "uint64 option" by (cases x) simp_all
  then show ?thesis by (simp add: limits_of_def limit_fields_def)
qed

lemma setRLimitsEnv_entries: "cmd_env (setRLimitsEnv r c) = cmd_env c @ concat (map encode_limit (limit_fields r))"
proof -
  have "rlimit_var (n, v) = encode_limit (''RLIMIT_'' @ n, v)" for n v by (cases v) simp_all
  then show ?thesis by (simp add: setRLimitsEnv_def limit_fields_def)
qed

lemma DecodeLimits_EncodeLimits: "DecodeLimits (EncodeLimits r) = r"
proof -
  have "decode (EncodeLimits r) = (\<lambda>k. case map_of (limit_fields r) k of Some (Some v) \<Rightarrow> Some v | _ \<Rightarrow> None)"
    by (rule ext) (simp add: EncodeLimits_def decode_join [OF limit_fields_plain])
  then show ?thesis by (simp add: DecodeLimits_def limits_of_fields)
qed

section \<open>Properties\<close>

text \<open>
  C16. Encoding limits for the command line and decoding them gives the limits back, whichever of the
  fifteen are set and whatever their values.
\<close>

theorem limits_roundtrip: "DecodeLimits (EncodeLimits r) = r"
  by (rule DecodeLimits_EncodeLimits)

text \<open>
  C37. The two encoders agree: the variables that the container adds to the environment of \<open>wsh\<close> are
  the pieces of the string that the limits manager writes, and so \<open>wsh\<close>, reading its environment
  variable by variable, and the manager, decoding its string, find the same limits.
\<close>

theorem limit_encoders_agree:
  assumes "cmd_env c = []"
  shows "cmd_env (setRLimitsEnv r c) = filter (\<lambda>e. e \<noteq> '''') (split_on CHR '','' (EncodeLimits r))
    \<and> getRlimits (cmd_env (setRLimitsEnv r c)) = DecodeLimits (EncodeLimits r)"
proof -
  let ?es = "concat (map encode_limit (limit_fields r))"
  have ne: "\<forall>e\<in>set (concat (map encode_limit kvs)). e \<noteq> ''''" for kvs
  proof (induction kvs)
    case (Cons kv kvs)
    obtain k o' where kv: "kv = (k, o')" by fastforce
    from Cons show ?case by (cases o') (auto simp: kv)
  qed simp
  have env: "cmd_env (setRLimitsEnv r c) = ?es" by (simp add: setRLimitsEnv_entries assms)
  have "filter (\<lambda>e. e \<noteq> '''') (split_on CHR '','' (EncodeLimits r)) = ?es"
    using ne [of "limit_fields r"] by (simp add: EncodeLimits_def split_entries [OF limit_fields_plain] filter_id_conv)
  moreover have "getRLimitFromEnv ?es = decode (EncodeLimits r)"
    by (rule ext) (simp add: EncodeLimits_def decode_join [OF limit_fields_plain] env_lookup_entries [OF limit_fields_plain])
  ultimately show ?thesis unfolding env getRlimits_def DecodeLimits_def by simp
qed

theorem limit_encoders_agree_witness:
  "getRlimits (cmd_env (setRLimitsEnv (limits_of ((\<lambda>_. None)(''RLIMIT_NOFILE'' \<mapsto> 1024))) (exec_Command ''wsh'' [])))
     = DecodeLimits ''RLIMIT_NOFILE=1024''"
proof -
  have "EncodeLimits (limits_of ((\<lambda>_. None)(''RLIMIT_NOFILE'' \<mapsto> 1024))) = ''RLIMIT_NOFILE=1024''" by code_simp
  moreover have "cmd_env (exec_Command ''wsh'' []) = []" by (simp add: exec_Command_def)
  ultimately show ?thesis
    using limit_encoders_agree [of "exec_Command ''wsh'' []" "limits_of ((\<lambda>_. None)(''RLIMIT_NOFILE'' \<mapsto> 1024))"] by metis
qed

end
