(* ===== verification/Go_Flag.thy ===== *)
theory Go_Flag
  imports Go_Strings
begin

text \<open>
  Go's \<open>flag\<close> package, as the programs of the container daemon use it: the rules by which
  \<open>flag.Parse\<close> takes flags off an argument list, and the parsers of boolean and integer flags.
\<close>

section \<open>Parsing an argument list\<close>

datatype flag_kind = BoolFlag | ValueFlag

text \<open>
  The first argument that is not a flag ends the flags, \<open>--\<close> ends them and is dropped. A boolean flag
  never takes the next argument as its value. \<open>None\<close> is a usage error, at which the program exits.
\<close>

fun parse_flags :: "(string \<Rightarrow> flag_kind option) \<Rightarrow> string list \<Rightarrow> ((string \<times> string) list \<times> string list) option" where
  "parse_flags known [] = Some ([], [])"
| "parse_flags known (s # args) =
     (if length s < 2 \<or> hd s \<noteq> CHR ''-'' then Some ([], s # args)
      else if s = ''--'' then Some ([], args)
      else
        let body = (if s ! 1 = CHR ''-'' then drop 2 s else tl s) in
        if body = '''' \<or> hd body \<in> {CHR ''-'', CHR ''=''} then None
        else
          let name = takeWhile (\<lambda>c. c \<noteq> CHR ''='') body; val = tl (dropWhile (\<lambda>c. c \<noteq> CHR ''='') body) in
          (case known name of
             None \<Rightarrow> None
           | Some BoolFlag \<Rightarrow>
               map_option (apfst (Cons (name, if CHR ''='' \<in> set body then val else ''true''))) (parse_flags known args)
           | Some ValueFlag \<Rightarrow>
               if CHR ''='' \<in> set body then map_option (apfst (Cons (name, val))) (parse_flags known args)
               else (case args of
                       [] \<Rightarrow> None
                     | v # args \<Rightarrow> map_option (apfst (Cons (name, v))) (parse_flags known args))))"

text \<open>Setting a flag again replaces its value; a flag that collects its values gets them in order.\<close>

definition flag_value :: "(string \<times> string) list \<Rightarrow> string \<Rightarrow> string option" where
  "flag_value fs name = map_of (rev fs) name"

definition flag_values :: "(string \<times> string) list \<Rightarrow> string \<Rightarrow> string list" where
  "flag_values fs name = map snd (filter (\<lambda>f. fst f = name) fs)"

section \<open>Values\<close>

text \<open>\<open>strconv.ParseBool\<close>.\<close>

definition parse_bool :: "string \<Rightarrow> bool option" where
  "parse_bool s =
     (if s \<in> {''1'', ''t'', ''T'', ''true'', ''TRUE'', ''True''} then Some True
      else if s \<in> {''0'', ''f'', ''F'', ''false'', ''FALSE'', ''False''} then Some False
      else None)"

text \<open>\<open>fmt.Sprintf("%t", b)\<close>.\<close>

definition show_bool :: "bool \<Rightarrow> string" where
  "show_bool b = (if b then ''true'' else ''false'')"

text \<open>\<open>strconv.ParseInt(s, 0, 64)\<close>: a prefix selects the base.\<close>

definition lower_digit :: "char \<Rightarrow> char" where
  "lower_digit c = (case index_of (\<lambda>x. x = c) ''ABCDEF'' of Some i \<Rightarrow> ''abcdef'' ! i | None \<Rightarrow> c)"

definition parse_magnitude :: "string \<Rightarrow> nat option" where
  "parse_magnitude s =
     (if has_prefix s ''0x'' \<or> has_prefix s ''0X''
      then (if length s = 2 then None else digits_val 16 0 (map lower_digit (drop 2 s)))
      else if has_prefix s ''0'' \<and> length s > 1 then digits_val 8 0 (tl s)
      else if s = '''' then None
      else digits_val 10 0 s)"

definition parse_int0 :: "string \<Rightarrow> int option" where
  "parse_int0 s =
     (let neg = (s \<noteq> '''' \<and> hd s = CHR ''-'');
          s = (if s \<noteq> '''' \<and> hd s \<in> {CHR ''-'', CHR ''+''} then tl s else s) in
      case parse_magnitude s of
        None \<Rightarrow> None
      | Some n \<Rightarrow>
          let i = (if neg then - int n else int n) in
          if - (2 ^ 63) \<le> i \<and> i < 2 ^ 63 then Some i else None)"

section \<open>Facts\<close>

lemma parse_bool_show [simp]: "parse_bool (show_bool b) = Some b"
  by (simp add: parse_bool_def show_bool_def)

text \<open>A decimal number has no leading zero, so it is read in base ten.\<close>

lemma show_nat_hd: "n > 0 \<Longrightarrow> hd (show_nat n) \<noteq> CHR ''0''"
proof (induction n rule: show_nat.induct)
  case (1 n)
  show ?case
  proof (cases "n < 10")
    case True
    with 1(2) show ?thesis
      by (subst show_nat.simps) (simp add: digit_char_inject [of n 0, unfolded digit_char_def digits_def, simplified]
        digit_char_def digits_def nth_Cons')
  next
    case False
    then have "hd (show_nat n) = hd (show_nat (n div 10))" by (subst show_nat.simps) simp
    then show ?thesis using 1(1) [OF False] False by simp
  qed
qed

lemma parse_magnitude_show_nat: "parse_magnitude (show_nat n) = Some n"
proof (cases "n = 0")
  case True
  have z: "show_nat 0 = ''0''" by (subst show_nat.simps) (simp add: digit_char_def digits_def)
  show ?thesis unfolding True z by (simp add: parse_magnitude_def has_prefix_def digit_val_def digits_def)
next
  case False
  obtain c cs where s: "show_nat n = c # cs" by (cases "show_nat n") auto
  with show_nat_hd [of n] False have "c \<noteq> CHR ''0''" by simp
  then have "\<not> has_prefix (show_nat n) ''0x''" "\<not> has_prefix (show_nat n) ''0X''" "\<not> has_prefix (show_nat n) ''0''"
    by (simp_all add: has_prefix_def s)
  then show ?thesis using digits_val_show_nat [of n] by (simp add: parse_magnitude_def)
qed

lemma parse_int0_show_nat: "n < 2 ^ 63 \<Longrightarrow> parse_int0 (show_nat n) = Some (int n)"
proof -
  assume n: "n < 2 ^ 63"
  obtain c cs where s: "show_nat n = c # cs" by (cases "show_nat n") auto
  then have "is_digit c" using show_nat_digits [of n] by simp
  then have "c \<noteq> CHR ''-''" "c \<noteq> CHR ''+''" by (auto simp: is_digit_cases)
  then show ?thesis using n parse_magnitude_show_nat [of n] by (simp add: parse_int0_def s)
qed

text \<open>One flag in the form \<open>-name=value\<close>, and one in the form \<open>--name value\<close>.\<close>

definition plain_flag :: "string \<Rightarrow> bool" where
  "plain_flag name \<longleftrightarrow> name \<noteq> '''' \<and> hd name \<noteq> CHR ''-'' \<and> CHR ''='' \<notin> set name"

lemma takeWhile_key: "sep \<notin> set k \<Longrightarrow> takeWhile (\<lambda>c. c \<noteq> sep) (k @ sep # v) = k"
  by (induction k) auto

lemma dropWhile_key: "sep \<notin> set k \<Longrightarrow> dropWhile (\<lambda>c. c \<noteq> sep) (k @ sep # v) = sep # v"
  by (induction k) auto

lemma parse_flag_eq:
  assumes "plain_flag name" and "known name \<noteq> None"
  shows "parse_flags known ((CHR ''-'' # name @ CHR ''='' # v) # args) =
    map_option (apfst (Cons (name, v))) (parse_flags known args)"
proof -
  obtain c cs where n: "name = c # cs" using assms(1) by (cases name) (auto simp: plain_flag_def)
  have c: "c \<noteq> CHR ''-''" "c \<noteq> CHR ''=''" "CHR ''='' \<notin> set cs" using assms(1) by (auto simp: plain_flag_def n)
  show ?thesis using assms(2) c takeWhile_key [of "CHR ''=''" "c # cs" v] dropWhile_key [of "CHR ''=''" "c # cs" v]
    by (auto simp: n Let_def split: option.splits flag_kind.splits)
qed

lemma parse_flag_next:
  assumes "plain_flag name" and "known name = Some ValueFlag"
  shows "parse_flags known ((CHR ''-'' # CHR ''-'' # name) # v # args) =
    map_option (apfst (Cons (name, v))) (parse_flags known args)"
proof -
  obtain c cs where n: "name = c # cs" using assms(1) by (cases name) (auto simp: plain_flag_def)
  have c: "c \<noteq> CHR ''-''" "c \<noteq> CHR ''=''" "CHR ''='' \<notin> set cs" using assms(1) by (auto simp: plain_flag_def n)
  have t: "takeWhile (\<lambda>c. c \<noteq> CHR ''='') cs = cs" using c(3) by (induction cs) auto
  show ?thesis using assms(2) c by (simp add: n t Let_def)
qed

lemma parse_flag_bool:
  assumes "plain_flag name" and "known name = Some BoolFlag"
  shows "parse_flags known ((CHR ''-'' # CHR ''-'' # name) # args) =
    map_option (apfst (Cons (name, ''true''))) (parse_flags known args)"
proof -
  obtain c cs where n: "name = c # cs" using assms(1) by (cases name) (auto simp: plain_flag_def)
  have c: "c \<noteq> CHR ''-''" "c \<noteq> CHR ''=''" "CHR ''='' \<notin> set cs" using assms(1) by (auto simp: plain_flag_def n)
  have t: "takeWhile (\<lambda>c. c \<noteq> CHR ''='') cs = cs" using c(3) by (induction cs) auto
  show ?thesis using assms(2) c by (simp add: n t Let_def)
qed

lemma parse_flag_end: "parse_flags known (''--'' # args) = Some ([], args)"
  by simp

lemma parse_flag_stop: "s = '''' \<or> hd s \<noteq> CHR ''-'' \<Longrightarrow> parse_flags known (s # args) = Some ([], s # args)"
  by auto

declare parse_flags.simps(2) [simp del]

end
