(* ===== verification/User_Exec.thy ===== *)
theory User_Exec
  imports Resource_Pool_Props
begin

text \<open>
  The package \<open>system\<close>: creating directories with an owner (\<open>mkdirchown.go\<close>), limiting the
  capabilities of a process (\<open>capabilities_linux.go\<close>) and executing a program as a user
  (\<open>user_execer_linux.go\<close>).
\<close>

section \<open>Creating directories\<close>

text \<open>
  \<open>MkdirChown\<close> goes up the path until a directory exists. Nothing else ends it, so not returning is a
  possible outcome: \<open>None\<close>.
\<close>

partial_function (option) System_MkdirChown ::
  "outside \<Rightarrow> string \<Rightarrow> int \<Rightarrow> int \<Rightarrow> nat \<Rightarrow> world \<Rightarrow> (unit res \<times> world) option" where
  "System_MkdirChown out path uid gid mode w =
     (let (found, w1) = sys out (Stat path) w in
      if is_ok found then Some (Ok (), w1)
      else Option.bind (System_MkdirChown out (filepath_Dir path) uid gid mode w1) (\<lambda>r.
        Some (then_do r (\<lambda>_ w. then_do (sys out (Mkdir path mode) w) (\<lambda>_ w. sys out (Chown path uid gid) w)))))"

section \<open>Capabilities\<close>

text \<open>The kernel's numbers of the capabilities that are kept.\<close>

definition cap_whitelist :: "nat list" where
  "cap_whitelist = [0, 1, 4, 3, 27, 13, 6, 7, 31, 8, 10, 18, 5, 29]"

definition CAP_SYS_ADMIN :: nat where
  "CAP_SYS_ADMIN = 21"

definition Caps_Limit :: "outside \<Rightarrow> int \<Rightarrow> bool \<Rightarrow> world \<Rightarrow> unit res \<times> world" where
  "Caps_Limit out pid extendedWhitelist w =
     then_do (wrap_error ''system: getting capabilities: '' (sys out (CapLoad pid) w)) (\<lambda>_ w.
     wrap_error ''system: applying capabilities: ''
       (sys out (CapApply pid (cap_whitelist @ (if extendedWhitelist then [CAP_SYS_ADMIN] else []))) w))"

section \<open>Executing as a user\<close>

text \<open>
  When \<open>syscall.Exec\<close> succeeds the program is replaced, and there is no return; that is \<open>Ok\<close> here. The
  mode of the directory is octal 755.
\<close>

definition ExecAsUser :: "outside \<Rightarrow> int \<Rightarrow> int \<Rightarrow> string \<Rightarrow> string \<Rightarrow> string list \<Rightarrow> world \<Rightarrow> unit res \<times> world" where
  "ExecAsUser out uid gid workDir programName args w =
     then_do (wrap_error ''system: setgid: '' (sys out (Setgid gid) w)) (\<lambda>_ w.
     then_do (wrap_error ''system: setuid: '' (sys out (Setuid uid) w)) (\<lambda>_ w.
     if workDir = '''' then (Err (ErrorNew ''system: working directory is not provided.''), w)
     else
       then_do (wrap_error ''system: '' (sys out (Mkdir workDir 493) w)) (\<lambda>_ w.
       then_do (case sys out (Chdir workDir) w of
                  (Err e, w) \<Rightarrow> (Err (ErrorNew (''system: invalid working directory: '' @ workDir)), w)
                | r \<Rightarrow> r) (\<lambda>_ w.
       let programPath = o_lookpath out (trace w) programName in
       then_do (wrap_error (''system: program '' @ [CHR 0x27] @ programName @ [CHR 0x27] @ '' was not found in $PATH: '')
                  (sys out (LookPath programName) w)) (\<lambda>_ w.
       wrap_error (''system: exec of '' @ programName @ '': '')
         (sys out (Exec programPath (programName # args)) w))))))"

section \<open>Going up a path\<close>

text \<open>The length of a path in terms of its elements, each counted with the slash before it.\<close>

abbreviation spread :: "string list \<Rightarrow> nat" where
  "spread cs \<equiv> (\<Sum>c\<leftarrow>cs. length c + 1)"

lemma spread_split: "spread (split_on sep p) = length p + 1"
proof (induction p)
  case (Cons c p)
  then show ?case by (cases "split_on sep p") auto
qed simp

lemma spread_join: "cs \<noteq> [] \<Longrightarrow> length (join [sep] cs) + 1 = spread cs"
  by (induction "[sep]" cs rule: join.induct) auto

lemma spread_filter: "spread (filter (\<lambda>c. c \<noteq> '''') cs) + length (filter (\<lambda>c. c = '''') cs) = spread cs"
  by (induction cs) auto

lemma spread_clean: "spread (clean_elems r acc cs) \<le> spread acc + spread (filter (\<lambda>c. c \<noteq> '''') cs)"
proof (induction r acc cs rule: clean_elems.induct)
  case (1 r acc)
  have "spread (rev acc) = spread acc" by (simp add: rev_map [symmetric] sum_list_rev)
  then show ?case by simp
next
  case (2 r acc c cs)
  then show ?case by (cases acc) (auto simp: le_add1 trans_le_add1)
qed

text \<open>Cleaning does not make a path longer, and each empty element makes it shorter.\<close>

lemma length_clean:
  assumes "p \<noteq> ''''" and "path_Clean p \<noteq> ''.''" and "path_Clean p \<noteq> ''/''"
  shows "length (path_Clean p) + length (filter (\<lambda>c. c = '''') (split_on slash p)) \<le> length p + (if hd p = slash then 1 else 0)"
proof -
  define cs where "cs = clean_elems (hd p = slash) [] (split_on slash p)"
  have "cs \<noteq> []"
    using assms by (auto simp: path_Clean_def cs_def Let_def split: if_splits)
  then have "path_Clean p = (if hd p = slash then slash # join [slash] cs else join [slash] cs)"
    using assms(1) by (cases "hd p = slash") (simp_all add: path_Clean_def cs_def)
  with \<open>cs \<noteq> []\<close> have "length (path_Clean p) = spread cs - (if hd p = slash then 0 else 1)" "spread cs > 0"
    using spread_join [of cs slash] by auto
  moreover have "spread cs + length (filter (\<lambda>c. c = '''') (split_on slash p)) \<le> length p + 1"
    using spread_clean [of "hd p = slash" "[]" "split_on slash p"] spread_filter [of "split_on slash p"] spread_split [of slash p]
    by (simp add: cs_def)
  ultimately show ?thesis by auto
qed

lemma up_to_slash: "rev (dropWhile (\<lambda>c. c \<noteq> slash) (rev p)) = '''' \<or> (\<exists>q. rev (dropWhile (\<lambda>c. c \<noteq> slash) (rev p)) = q @ [slash])"
proof (cases "dropWhile (\<lambda>c. c \<noteq> slash) (rev p)")
  case (Cons c cs)
  then have "c = slash" using hd_dropWhile [of "\<lambda>c. c \<noteq> slash" "rev p"] by simp
  with Cons show ?thesis by simp
qed simp

text \<open>The directory of a path is shorter than the path, or it is one of the two that end the way up.\<close>

lemma Dir_shorter: "filepath_Dir p = ''.'' \<or> filepath_Dir p = ''/'' \<or> length (filepath_Dir p) < length p"
proof -
  define d where "d = rev (dropWhile (\<lambda>c. c \<noteq> slash) (rev p))"
  have dir: "filepath_Dir p = path_Clean d" by (simp add: filepath_Dir_def d_def)
  have le: "length d \<le> length p" using length_dropWhile_le [of "\<lambda>c. c \<noteq> slash" "rev p"] by (simp add: d_def)
  from up_to_slash [of p] consider "d = ''''" | q where "d = q @ [slash]" by (auto simp: d_def)
  then show ?thesis
  proof cases
    case 1
    then show ?thesis by (simp add: dir path_Clean_def)
  next
    case (2 q)
    have split: "split_on slash d = split_on slash q @ [[]]" using split_on_append [of slash q "[]"] by (simp add: 2)
    show ?thesis
    proof (cases "path_Clean d = ''.'' \<or> path_Clean d = ''/''")
      case False
      have "length (path_Clean d) + length (filter (\<lambda>c. c = '''') (split_on slash q)) + 1 \<le> length d + (if hd d = slash then 1 else 0)"
        using length_clean [of d] False split by (simp add: 2 add.assoc split: if_splits)
      moreover have "1 \<le> length (filter (\<lambda>c. c = '''') (split_on slash q))" if "hd d = slash"
        using that by (cases q) (auto simp: 2)
      ultimately have "length (path_Clean d) < length d" by (cases "hd d = slash") (fastforce simp del: length_greater_0_conv)+
      with le show ?thesis by (simp add: dir)
    qed (auto simp: dir)
  qed
qed

section \<open>Properties\<close>

text \<open>The paths that are created: the \<open>n\<close> lowest directories of the path, the topmost first.\<close>

definition going_up :: "string \<Rightarrow> nat \<Rightarrow> string list" where
  "going_up path n = map (\<lambda>i. (filepath_Dir ^^ i) path) [0..<n]"

lemma going_up_Suc: "going_up path (Suc n) = path # going_up (filepath_Dir path) n"
  by (simp add: going_up_def map_upt_Suc funpow_swap1 del: upt_Suc)


text \<open>An outside on which only the root, the working directory and \<open>/srv\<close> exist.\<close>

definition few_dirs :: outside where
  "few_dirs = quiet\<lparr>o_err := \<lambda>_ e. if e \<in> {Sys (Stat ''/srv/a''), Sys (Stat ''/srv/a/b'')} then Some not_exist else None\<rparr>"

lemma few_dirs_run:
  "System_MkdirChown few_dirs ''/srv/a/b'' 10 20 493 empty_world =
     Some (Ok (), \<lparr>trace = [Sys (Stat ''/srv/a/b''), Sys (Stat ''/srv/a''), Sys (Stat ''/srv''),
        Sys (Mkdir ''/srv/a'' 493), Sys (Chown ''/srv/a'' 10 20),
        Sys (Mkdir ''/srv/a/b'' 493), Sys (Chown ''/srv/a/b'' 10 20)], files = []\<rparr>)"
proof -
  have "filepath_Dir ''/srv/a/b'' = ''/srv/a''" "filepath_Dir ''/srv/a'' = ''/srv''" by code_simp+
  then show ?thesis
    by (simp add: System_MkdirChown.simps few_dirs_def quiet_def empty_world_def sys_def write_kernel_def)
qed


end
