(* ===== verification/Proc_Start.thy ===== *)
theory Proc_Start
  imports Rlimits Go_Flag User_Exec
begin

text \<open>
  The way of a process from the container's \<open>Run\<close> to its execution: \<open>wsh\<close>
  (\<open>container_daemon/wsh/main.go\<close>) rebuilds the specification from its arguments and environment, the
  daemon prepares a command from it (\<open>container_daemon/prepare.go\<close>), and \<open>proc_starter\<close>
  (\<open>container_daemon/proc_starter/start.go\<close>), which that command starts, applies the limits, drops the
  capabilities and executes the program as the user. The specification travels from \<open>wsh\<close> to the daemon
  as a value; its JSON text is not modelled.
\<close>

section \<open>wsh\<close>

definition wsh_flags :: "string \<Rightarrow> flag_kind option" where
  "wsh_flags =
     [''socket'' \<mapsto> ValueFlag, ''user'' \<mapsto> ValueFlag, ''dir'' \<mapsto> ValueFlag, ''readSignals'' \<mapsto> BoolFlag, ''env'' \<mapsto> ValueFlag,
      ''rsh'' \<mapsto> BoolFlag]"

definition flag_or :: "(string \<times> string) list \<Rightarrow> string \<Rightarrow> string \<Rightarrow> string" where
  "flag_or fs name d = (case flag_value fs name of Some v \<Rightarrow> v | None \<Rightarrow> d)"

record wsh_request =
  wsh_socket :: string
  wsh_readSignals :: bool
  wsh_process :: process_spec

text \<open>\<open>isTerminal\<close> says whether the standard input is a terminal; \<open>None\<close> is a usage error.\<close>

definition wsh_main :: "bool \<Rightarrow> string list \<Rightarrow> string list \<Rightarrow> wsh_request option" where
  "wsh_main isTerminal args environ =
     (case parse_flags wsh_flags args of
        None \<Rightarrow> None
      | Some (fs, extraArgs) \<Rightarrow>
          (case (parse_bool (flag_or fs ''readSignals'' ''false''), parse_bool (flag_or fs ''rsh'' ''false'')) of
             (Some readSignals, Some _) \<Rightarrow>
               let extraArgs = (if extraArgs = [] then [''/bin/sh''] else extraArgs) in
               Some \<lparr>wsh_socket = flag_or fs ''socket'' ''./run/wshd.sock'', wsh_readSignals = readSignals,
                 wsh_process = \<lparr>ps_Path = hd extraArgs, ps_Args = tl extraArgs, ps_Env = flag_values fs ''env'',
                   ps_Dir = flag_or fs ''dir'' '''', ps_User = flag_or fs ''user'' ''root'',
                   ps_TTY = (if isTerminal then Some \<lparr>tty_WindowSize = None\<rparr> else None),
                   ps_Limits = getRlimits environ\<rparr>\<rparr>
           | _ \<Rightarrow> None))"

section \<open>Preparing the command\<close>

text \<open>
  The user database is outside the sources: \<open>users\<close> is what \<open>User.Lookup\<close> returns, \<open>None\<close> being a nil
  user without an error.
\<close>

record os_user =
  ou_Uid :: string
  ou_Gid :: string
  ou_HomeDir :: string

record parsed_user =
  pu_username :: string
  pu_uid :: uint32
  pu_gid :: uint32
  pu_homeDir :: string

text \<open>\<open>LibContainerUser.Lookup\<close>, over libcontainer's own look-up of numbers and home.\<close>

definition LibContainer_Lookup :: "(string \<Rightarrow> (int \<times> int \<times> string) res) \<Rightarrow> string \<Rightarrow> os_user option res" where
  "LibContainer_Lookup lookupUser name =
     res_bind (lookupUser name) (\<lambda>(uid, gid, home).
       Ok (Some \<lparr>ou_Uid = show_int uid, ou_Gid = show_int gid, ou_HomeDir = home\<rparr>))"

definition parseUser :: "(string \<Rightarrow> os_user option res) \<Rightarrow> string \<Rightarrow> parsed_user res" where
  "parseUser users username =
     (case users username of
        Ok (Some u) \<Rightarrow>
          (case sscanf_uint 32 (ou_Uid u) of
             None \<Rightarrow> Err (ErrorNew (''failed to parse uid '' @ quoted (ou_Uid u)))
           | Some uid \<Rightarrow>
               (case sscanf_uint 32 (ou_Gid u) of
                  None \<Rightarrow> Err (ErrorNew (''failed to parse gid '' @ quoted (ou_Gid u)))
                | Some gid \<Rightarrow>
                    Ok \<lparr>pu_username = username, pu_uid = of_nat uid, pu_gid = of_nat gid, pu_homeDir = ou_HomeDir u\<rparr>))
      | Ok None \<Rightarrow> Err (ErrorNew (''failed to lookup user '' @ username))
      | Err e \<Rightarrow> Err (Errorf (''lookup user '' @ username @ '': '') e)
      | Panic m \<Rightarrow> Panic m)"

definition DefaultRootPATH :: string where
  "DefaultRootPATH = ''/usr/local/sbin:/usr/local/bin:/usr/sbin:/usr/bin:/sbin:/bin''"

definition DefaultUserPath :: string where
  "DefaultUserPath = ''/usr/local/bin:/usr/bin:/bin''"

definition createEnvironment :: "string list \<Rightarrow> parsed_user \<Rightarrow> env res" where
  "createEnvironment specEnv usr =
     (case NewEnv specEnv of
        Err e \<Rightarrow> Err (Errorf (''invalid environment ['' @ join '' '' specEnv @ '']: '') e)
      | Panic m \<Rightarrow> Panic m
      | Ok env \<Rightarrow>
          let env = AList.update ''USER'' (pu_username usr) env;
              env = (if map_of env ''HOME'' = None then AList.update ''HOME'' (pu_homeDir usr) env else env);
              env = (if map_of env ''PATH'' = None
                     then AList.update ''PATH'' (if pu_uid usr = 0 then DefaultRootPATH else DefaultUserPath) env
                     else env) in
          Ok env)"

text \<open>The command is given with its whole argument list, the name it is started under first.\<close>

definition Reexec_Command :: "string list \<Rightarrow> cmd" where
  "Reexec_Command args = \<lparr>cmd_path = ''/proc/self/exe'', cmd_args = args, cmd_env = []\<rparr>"

definition starter_args :: "bool \<Rightarrow> process_spec \<Rightarrow> parsed_user \<Rightarrow> string list" where
  "starter_args alwaysDrop spec usr =
     [''-dropCapabilities='' @ show_bool (alwaysDrop \<or> ps_User spec \<noteq> ''root''),
      ''-extendedWhitelist='' @ show_bool (\<not> alwaysDrop),
      ''-rlimits='' @ EncodeLimits (ps_Limits spec),
      ''-uid='' @ show_word (pu_uid usr),
      ''-gid='' @ show_word (pu_gid usr),
      ''-workDir='' @ (if ps_Dir spec = '''' then pu_homeDir usr else ps_Dir spec)]
     @ [''--'', ps_Path spec] @ ps_Args spec"

definition PrepareCmd :: "(string \<Rightarrow> os_user option res) \<Rightarrow> bool \<Rightarrow> process_spec \<Rightarrow> cmd res" where
  "PrepareCmd users alwaysDrop spec =
     (case parseUser users (ps_User spec) of
        Err e \<Rightarrow> Err (Errorf ''container_daemon: '' e)
      | Panic m \<Rightarrow> Panic m
      | Ok usr \<Rightarrow>
          (case createEnvironment (ps_Env spec) usr of
             Err e \<Rightarrow> Err (Errorf ''container_daemon: '' e)
           | Panic m \<Rightarrow> Panic m
           | Ok env \<Rightarrow>
               Ok ((Reexec_Command (''proc_starter'' # starter_args alwaysDrop spec usr))\<lparr>cmd_env := Env_Array env\<rparr>)))"

section \<open>proc\_starter\<close>

definition starter_flags :: "string \<Rightarrow> flag_kind option" where
  "starter_flags =
     [''rlimits'' \<mapsto> ValueFlag, ''dropCapabilities'' \<mapsto> BoolFlag, ''uid'' \<mapsto> ValueFlag, ''gid'' \<mapsto> ValueFlag,
      ''workDir'' \<mapsto> ValueFlag, ''extendedWhitelist'' \<mapsto> BoolFlag]"

record starter_opts =
  so_rlimits :: string
  so_dropCapabilities :: bool
  so_uid :: int
  so_gid :: int
  so_workDir :: string
  so_extendedWhitelist :: bool
  so_args :: "string list"

definition parse_starter :: "string list \<Rightarrow> starter_opts option" where
  "parse_starter args =
     (case parse_flags starter_flags args of
        None \<Rightarrow> None
      | Some (fs, rest) \<Rightarrow>
          (case (parse_bool (flag_or fs ''dropCapabilities'' ''true''), parse_bool (flag_or fs ''extendedWhitelist'' ''false''),
                 parse_int0 (flag_or fs ''uid'' ''-1''), parse_int0 (flag_or fs ''gid'' ''-1'')) of
             (Some dropCapabilities, Some extendedWhitelist, Some uid, Some gid) \<Rightarrow>
               Some \<lparr>so_rlimits = flag_or fs ''rlimits'' '''', so_dropCapabilities = dropCapabilities, so_uid = uid, so_gid = gid,
                 so_workDir = flag_or fs ''workDir'' '''', so_extendedWhitelist = extendedWhitelist, so_args = rest\<rparr>
           | _ \<Rightarrow> None))"

definition close_fd :: "outside \<Rightarrow> string \<Rightarrow> world \<Rightarrow> unit res \<times> world" where
  "close_fd out name w =
     (if o_is_dir out (trace w) (''/proc/self/fd/'' @ name) then (Ok (), w)
      else case strconv_Atoi name of
             None \<Rightarrow> (Panic ''strconv.Atoi'', w)
           | Some fd \<Rightarrow> if fd \<le> 2 then (Ok (), w) else (Ok (), snd (sys out (CloseOnExec fd) w)))"

definition closeFds :: "outside \<Rightarrow> world \<Rightarrow> unit res \<times> world" where
  "closeFds out w =
     (let fds = o_dir out (trace w) ''/proc/self/fd'' in
      then_do (write_kernel out (ReadDir ''/proc/self/fd'') w) (\<lambda>_. do_all (close_fd out) fds))"

definition must :: "'a res \<times> world \<Rightarrow> 'a res \<times> world" where
  "must r = (case r of (Err e, w) \<Rightarrow> (Panic ''must'', w) | r \<Rightarrow> r)"

text \<open>An error is an exit with status 2 (usage) or 255.\<close>

definition proc_starter ::
  "outside \<Rightarrow> ((nat \<times> uint64) list \<Rightarrow> (nat \<times> uint64) list) \<Rightarrow> int \<Rightarrow> string list \<Rightarrow> world \<Rightarrow> unit res \<times> world" where
  "proc_starter out rng pid args w =
     (case parse_starter args of
        None \<Rightarrow> (Err (External ''exit status 2''), w)
      | Some opts \<Rightarrow>
          then_do (closeFds out w) (\<lambda>_ w.
          then_do (must (Rlimits_Apply out rng (DecodeLimits (so_rlimits opts)) w)) (\<lambda>_ w.
          then_do (if so_dropCapabilities opts then must (Caps_Limit out pid (so_extendedWhitelist opts) w) else (Ok (), w)) (\<lambda>_ w.
          case so_args opts of
            [] \<Rightarrow> (Panic ''index out of range'', w)
          | program # args \<Rightarrow> ExecAsUser out (so_uid opts) (so_gid opts) (so_workDir opts) program args w))))"

section \<open>The specification reaches wsh\<close>

lemmas flag_steps = parse_flag_eq parse_flag_next parse_flag_bool

lemma parse_env_flags:
  "parse_flags wsh_flags (concat (map (\<lambda>e. [''--env'', e]) es) @ args) =
     map_option (apfst (\<lambda>fs. map (Pair ''env'') es @ fs)) (parse_flags wsh_flags args)"
proof (induction es)
  case (Cons e es)
  have "parse_flags wsh_flags (''--env'' # e # args') = map_option (apfst (Cons (''env'', e))) (parse_flags wsh_flags args')" for args'
    by (rule parse_flag_next) (simp_all add: plain_flag_def wsh_flags_def)
  with Cons show ?case by (cases "parse_flags wsh_flags args") (auto simp: apfst_def)
next
  case Nil
  show ?case by (cases "parse_flags wsh_flags args") (auto simp: apfst_def)
qed

lemma parse_wsh_args:
  assumes "p = '''' \<or> hd p \<noteq> CHR ''-''"
  shows "parse_flags wsh_flags ([''--socket'', sock, ''--readSignals'', ''--user'', u] @ concat (map (\<lambda>e. [''--env'', e]) es)
      @ (if d = '''' then [] else [''--dir'', d]) @ p # args) =
    Some ([(''socket'', sock), (''readSignals'', ''true''), (''user'', u)] @ map (Pair ''env'') es
      @ (if d = '''' then [] else [(''dir'', d)]), p # args)"
proof -
  have f: "parse_flags wsh_flags (''--socket'' # v # as) = map_option (apfst (Cons (''socket'', v))) (parse_flags wsh_flags as)"
    "parse_flags wsh_flags (''--user'' # v # as) = map_option (apfst (Cons (''user'', v))) (parse_flags wsh_flags as)"
    "parse_flags wsh_flags (''--dir'' # v # as) = map_option (apfst (Cons (''dir'', v))) (parse_flags wsh_flags as)"
    "parse_flags wsh_flags (''--readSignals'' # as) = map_option (apfst (Cons (''readSignals'', ''true''))) (parse_flags wsh_flags as)"
    for v as by (rule flag_steps; simp add: plain_flag_def wsh_flags_def)+
  have "parse_flags wsh_flags ((if d = '''' then [] else [''--dir'', d]) @ p # args) =
      Some (if d = '''' then [] else [(''dir'', d)], p # args)"
    using parse_flag_stop [OF assms] by (simp add: f)
  then show ?thesis by (simp add: f parse_env_flags)
qed

lemma flag_or_Cons: "flag_or ((n, v) # fs) name d = flag_or fs name (if n = name then v else d)"
  by (auto simp: flag_or_def flag_value_def map_of_append map_add_def split: option.splits)

lemma flag_or_Nil: "flag_or [] name d = d"
  by (simp add: flag_or_def flag_value_def)

lemma flag_or_env: "name \<noteq> ''env'' \<Longrightarrow> flag_or (map (Pair ''env'') es @ fs) name d = flag_or fs name d"
  by (induction es) (auto simp: flag_or_Cons)

lemmas flag_or_simps = flag_or_Cons flag_or_Nil flag_or_env flag_or_env [where fs = "[]", simplified]

lemma wsh_main_run:
  assumes "\<not> o_missing_version out (cs_Version (c_spec c))" and "ps_Path ps = '''' \<or> hd (ps_Path ps) \<noteq> CHR ''-''"
  shows "wsh_main isTerminal (cmd_args (wsh_cmd out c ps penv pid)) (cmd_env (wsh_cmd out c ps penv pid)) =
    Some \<lparr>wsh_socket = path_Join [cs_ContainerPath (c_spec c), ''run'', ''wshd.sock''], wsh_readSignals = True,
      wsh_process = ps\<lparr>ps_Env := Env_Array penv, ps_TTY := (if isTerminal then Some \<lparr>tty_WindowSize = None\<rparr> else None)\<rparr>\<rparr>"
proof -
  let ?cp = "cs_ContainerPath (c_spec c)"
  let ?args = "[''--socket'', path_Join [?cp, ''run'', ''wshd.sock''], ''--readSignals'', ''--user'', ps_User ps]
      @ concat (map (\<lambda>e. [''--env'', e]) (Env_Array penv)) @ (if ps_Dir ps = '''' then [] else [''--dir'', ps_Dir ps])
      @ ps_Path ps # ps_Args ps"
  have w: "wsh_cmd out c ps penv pid = setRLimitsEnv (ps_Limits ps) (exec_Command (path_Join [?cp, ''bin'', ''wsh'']) ?args)"
    using assms(1) by (simp add: wsh_cmd_def Let_def)
  then have args: "cmd_args (wsh_cmd out c ps penv pid) = ?args" by (simp add: setRLimitsEnv_def exec_Command_def)
  have "getRlimits (cmd_env (wsh_cmd out c ps penv pid)) = ps_Limits ps"
  proof -
    have "getRLimitFromEnv (concat (map encode_limit (limit_fields r))) =
        (\<lambda>k. case map_of (limit_fields r) k of Some (Some v) \<Rightarrow> Some v | _ \<Rightarrow> None)" for r
      by (rule ext) (rule env_lookup_entries [OF limit_fields_plain])
    then show ?thesis by (simp add: w setRLimitsEnv_entries exec_Command_def getRlimits_def limits_of_fields)
  qed
  moreover have "flag_values (map (Pair ''env'') es @ fs) ''env'' = es @ flag_values fs ''env''" for es fs
    by (induction es) (simp_all add: flag_values_def)
  ultimately show ?thesis
    unfolding wsh_main_def args parse_wsh_args [OF assms(2)]
    by (cases ps) (auto simp: flag_or_simps flag_values_def parse_bool_def Let_def)
qed

section \<open>The specification reaches proc\_starter\<close>

lemma parse_starter_args:
  "parse_starter (starter_args alwaysDrop spec usr) =
     Some \<lparr>so_rlimits = EncodeLimits (ps_Limits spec), so_dropCapabilities = (alwaysDrop \<or> ps_User spec \<noteq> ''root''),
       so_uid = uint (pu_uid usr), so_gid = uint (pu_gid usr),
       so_workDir = (if ps_Dir spec = '''' then pu_homeDir usr else ps_Dir spec),
       so_extendedWhitelist = (\<not> alwaysDrop), so_args = ps_Path spec # ps_Args spec\<rparr>"
proof -
  have f: "parse_flags starter_flags ((''-'' @ name @ ''='' @ v) # as) =
      map_option (apfst (Cons (name, v))) (parse_flags starter_flags as)"
    if "plain_flag name" "starter_flags name \<noteq> None" for name v as
    using parse_flag_eq [of name starter_flags v as] that by simp
  have "parse_flags starter_flags (starter_args alwaysDrop spec usr) =
      Some ([(''dropCapabilities'', show_bool (alwaysDrop \<or> ps_User spec \<noteq> ''root'')),
        (''extendedWhitelist'', show_bool (\<not> alwaysDrop)), (''rlimits'', EncodeLimits (ps_Limits spec)),
        (''uid'', show_word (pu_uid usr)), (''gid'', show_word (pu_gid usr)),
        (''workDir'', if ps_Dir spec = '''' then pu_homeDir usr else ps_Dir spec)], ps_Path spec # ps_Args spec)"
    using f [of "''dropCapabilities''"] f [of "''extendedWhitelist''"] f [of "''rlimits''"] f [of "''uid''"] f [of "''gid''"]
      f [of "''workDir''"]
    by (simp add: starter_args_def starter_flags_def plain_flag_def parse_flag_end)
  moreover have "parse_int0 (show_word v) = Some (uint v)" for v :: uint32
  proof -
    have "unat v < 2 ^ LENGTH(32)" by (rule unsigned_less)
    then show ?thesis using parse_int0_show_nat [of "unat v"] by (simp add: show_word_def)
  qed
  ultimately show ?thesis by (simp add: parse_starter_def flag_or_simps)
qed

lemma PrepareCmd_Ok:
  assumes "PrepareCmd users alwaysDrop spec = Ok cmd"
  obtains usr where "parseUser users (ps_User spec) = Ok usr" and "cmd_args cmd = ''proc_starter'' # starter_args alwaysDrop spec usr"
  using assms by (auto simp: PrepareCmd_def Reexec_Command_def split: res.splits)

section \<open>What proc\_starter does\<close>

text \<open>The calls of a run that fails nowhere.\<close>

lemma sys_ok: "all_ok out \<Longrightarrow> sys out c w = (Ok (), w\<lparr>trace := trace w @ [Sys c]\<rparr>)"
  by (simp add: sys_def write_kernel_def all_ok_def)

lemma ExecAsUser_ok:
  assumes "all_ok out" and "workDir \<noteq> ''''"
  shows "\<exists>p w'. ExecAsUser out uid gid workDir prog args w = (Ok (), w')
    \<and> trace w' = trace w @ map Sys [Setgid gid, Setuid uid, Mkdir workDir 493, Chdir workDir, LookPath prog, Exec p (prog # args)]"
proof -
  let ?p = "o_lookpath out (trace w @ map Sys [Setgid gid, Setuid uid, Mkdir workDir 493, Chdir workDir]) prog"
  let ?w = "w\<lparr>trace := trace w @ map Sys [Setgid gid, Setuid uid, Mkdir workDir 493, Chdir workDir, LookPath prog, Exec ?p (prog # args)]\<rparr>"
  have "ExecAsUser out uid gid workDir prog args w = (Ok (), ?w)"
    using assms by (simp add: ExecAsUser_def sys_ok Let_def)
  then show ?thesis by (intro exI [of _ ?p] exI [of _ ?w]) simp
qed

lemma Caps_Limit_ok:
  "all_ok out \<Longrightarrow> Caps_Limit out pid ext w = (Ok (), w\<lparr>trace := trace w @ map Sys
     [CapLoad pid, CapApply pid (cap_whitelist @ (if ext then [CAP_SYS_ADMIN] else []))]\<rparr>)"
  by (simp add: Caps_Limit_def sys_ok)

lemma Rlimits_Apply_ok:
  assumes "all_ok out"
  shows "Rlimits_Apply out rng r w = (Ok (), w\<lparr>trace := trace w @ map (\<lambda>(i, v). Sys (Setrlimit i v v)) (rng (getSystemRlimitFlags r))\<rparr>)"
proof -
  have "do_all (\<lambda>(which, v) w. wrap_error ''container_daemon: setting rlimit: '' (sys out (Setrlimit which v v) w)) xs w =
      (Ok (), w\<lparr>trace := trace w @ map (\<lambda>(i, v). Sys (Setrlimit i v v)) xs\<rparr>)" for xs w
    by (induction xs arbitrary: w) (auto simp: sys_ok assms)
  then show ?thesis by (simp add: Rlimits_Apply_def)
qed

section \<open>Before the program is executed\<close>

definition no_exec :: "event \<Rightarrow> bool" where
  "no_exec e \<longleftrightarrow> (\<forall>p a. e \<noteq> Sys (Exec p a))"

lemma emits_sys: "P (Sys c) \<Longrightarrow> emits P w (snd (sys out c w))"
  by (simp add: emits_def)

lemma emits_must: "emits P w (snd r) \<Longrightarrow> emits P w (snd (must r))"
  by (cases r; cases "fst r") (simp_all add: must_def)

lemma emits_no_exec:
  "emits no_exec w (snd (closeFds out w))" "emits no_exec w (snd (Rlimits_Apply out rng r w))"
  "emits no_exec w (snd (Caps_Limit out pid ext w))"
proof -
  have "emits no_exec w (snd (close_fd out x w))" for x w
    by (auto simp: close_fd_def no_exec_def calls.step_refl intro!: emits_sys split: option.splits)
  then show "emits no_exec w (snd (closeFds out w))"
    unfolding closeFds_def Let_def by (intro emits_intros) (auto simp: no_exec_def)
  show "emits no_exec w (snd (Rlimits_Apply out rng r w))"
    unfolding Rlimits_Apply_def by (intro emits_intros) (auto simp: no_exec_def case_prod_beta intro!: calls.step_wrap_error emits_sys)
  show "emits no_exec w (snd (Caps_Limit out pid ext w))"
    unfolding Caps_Limit_def by (intro emits_intros emits_sys) (auto simp: no_exec_def)
qed

text \<open>A system call either ends the method, or succeeds and is followed by the rest.\<close>

lemma sys_then:
  assumes "then_do (wrap_error m (sys out c w)) f = (r, w')"
  obtains (stop) "trace w' = trace w @ [Sys c]"
  | (go) w1 where "trace w1 = trace w @ [Sys c]" and "o_err out (trace w) (Sys c) = None" and "f () w1 = (r, w')"
proof (cases "o_err out (trace w) (Sys c)")
  case None
  then show ?thesis using assms go [of "w\<lparr>trace := trace w @ [Sys c]\<rparr>"] by (simp add: sys_def write_kernel_def)
next
  case (Some e)
  then show ?thesis using assms stop by (auto simp: sys_def write_kernel_def)
qed

lemma snd_wrap_error: "snd (wrap_error m x) = snd x"
  by (cases x; cases "fst x") auto

text \<open>The part after the identities were taken on: it executes the program last, or not at all.\<close>

lemma enter_and_exec:
  assumes "(if workDir = '''' then (Err e, w)
     else
       then_do (wrap_error ''system: '' (sys out (Mkdir workDir 493) w)) (\<lambda>_ w.
       then_do (case sys out (Chdir workDir) w of (Err e, w) \<Rightarrow> (Err (f e), w) | r \<Rightarrow> r) (\<lambda>_ w.
       let programPath = o_lookpath out (trace w) prog in
       then_do (wrap_error m (sys out (LookPath prog) w)) (\<lambda>_ w.
       wrap_error m' (sys out (Exec programPath (prog # args)) w))))) = (r, w')"
  shows "emits no_exec w w'
    \<or> (\<exists>p. trace w' = trace w @ map Sys [Mkdir workDir 493, Chdir workDir, LookPath prog, Exec p (prog # args)])"
proof (cases "workDir = ''''")
  case False
  then have "then_do (wrap_error ''system: '' (sys out (Mkdir workDir 493) w)) (\<lambda>_ w.
       then_do (case sys out (Chdir workDir) w of (Err e, w) \<Rightarrow> (Err (f e), w) | r \<Rightarrow> r) (\<lambda>_ w.
       let programPath = o_lookpath out (trace w) prog in
       then_do (wrap_error m (sys out (LookPath prog) w)) (\<lambda>_ w.
       wrap_error m' (sys out (Exec programPath (prog # args)) w)))) = (r, w')" using assms by simp
  then show ?thesis
  proof (cases rule: sys_then)
    case (go w3)
    note 3 = go
    obtain r4 w4 where 4: "sys out (Chdir workDir) w3 = (r4, w4)" by fastforce
    then have t4: "trace w4 = trace w3 @ [Sys (Chdir workDir)]" using sys_trace [of out "Chdir workDir" w3] by simp
    show ?thesis
    proof (cases r4)
      case (Ok u)
      with go(3) 4 have "then_do (wrap_error m (sys out (LookPath prog) w4)) (\<lambda>_ w.
         wrap_error m' (sys out (Exec (o_lookpath out (trace w4) prog) (prog # args)) w)) = (r, w')" by (simp add: Let_def)
      then show ?thesis
      proof (cases rule: sys_then)
        case (go w5)
        have "snd (wrap_error m' (sys out (Exec (o_lookpath out (trace w4) prog) (prog # args)) w5)) = w'" using go(3) by simp
        then have "trace w' = trace w5 @ [Sys (Exec (o_lookpath out (trace w4) prog) (prog # args))]"
          using sys_trace unfolding snd_wrap_error by metis
        with t4 go 3 show ?thesis by auto
      qed (use t4 3 in \<open>auto simp: emits_def no_exec_def\<close>)
    qed (use go(1,3) 4 t4 in \<open>auto simp: emits_def no_exec_def\<close>)
  qed (auto simp: emits_def no_exec_def)
qed (use assms in \<open>auto simp: calls.step_refl\<close>)

lemma ExecAsUser_exec:
  assumes "ExecAsUser out uid gid workDir prog args w = (r, w')"
  shows "emits no_exec w w' \<or> (\<exists>p. trace w' = trace w
      @ map Sys [Setgid gid, Setuid uid, Mkdir workDir 493, Chdir workDir, LookPath prog, Exec p (prog # args)]
    \<and> o_err out (trace w) (Sys (Setgid gid)) = None \<and> o_err out (trace w @ [Sys (Setgid gid)]) (Sys (Setuid uid)) = None)"
  using assms [unfolded ExecAsUser_def]
proof (cases rule: sys_then)
  case (go w1)
  note 1 = go
  from go(3) show ?thesis
  proof (cases rule: sys_then)
    case (go w2)
    from enter_and_exec [OF go(3)] 1 go show ?thesis by (auto simp: emits_def no_exec_def)
  qed (use 1 in \<open>auto simp: emits_def no_exec_def\<close>)
qed (auto simp: emits_def no_exec_def)

lemma Caps_Limit_Ok:
  assumes "Caps_Limit out pid ext w = (Ok u, w')"
  shows "\<exists>caps. trace w' = trace w @ map Sys [CapLoad pid, CapApply pid caps]
    \<and> o_err out (trace w @ [Sys (CapLoad pid)]) (Sys (CapApply pid caps)) = None \<and> set caps \<subseteq> insert CAP_SYS_ADMIN (set cap_whitelist)"
  using assms by (auto simp: Caps_Limit_def ok_iffs sys_def write_kernel_def split: option.splits if_splits)

lemma emits_Ok: "f w = (r, w') \<Longrightarrow> emits P w (snd (f w)) \<Longrightarrow> \<exists>es. trace w' = trace w @ es \<and> list_all P es"
  by (simp add: emits_def)

lemma must_Ok_iff: "must r = (Ok x, w) \<longleftrightarrow> r = (Ok x, w)"
  by (cases r; cases "fst r") (auto simp: must_def)

text \<open>A run of \<open>proc_starter\<close>, on the arguments that the daemon writes, in which nothing fails.\<close>

definition starter_calls ::
  "((nat \<times> uint64) list \<Rightarrow> (nat \<times> uint64) list) \<Rightarrow> int \<Rightarrow> bool \<Rightarrow> process_spec \<Rightarrow> parsed_user \<Rightarrow> string \<Rightarrow> event list" where
  "starter_calls rng pid alwaysDrop spec usr p =
     (let dir = if ps_Dir spec = '''' then pu_homeDir usr else ps_Dir spec in
      [ReadDir ''/proc/self/fd'']
      @ map (\<lambda>(i, v). Sys (Setrlimit i v v)) (rng (getSystemRlimitFlags (ps_Limits spec)))
      @ (if alwaysDrop \<or> ps_User spec \<noteq> ''root''
         then map Sys [CapLoad pid, CapApply pid (cap_whitelist @ (if alwaysDrop then [] else [CAP_SYS_ADMIN]))] else [])
      @ map Sys [Setgid (uint (pu_gid usr)), Setuid (uint (pu_uid usr)), Mkdir dir 493, Chdir dir, LookPath (ps_Path spec),
          Exec p (ps_Path spec # ps_Args spec)])"

lemma starter_run:
  assumes "all_ok inside" and "o_dir inside (trace w) ''/proc/self/fd'' = []" and "ps_Dir spec \<noteq> '''' \<or> pu_homeDir usr \<noteq> ''''"
  shows "\<exists>p w'. proc_starter inside rng pid (starter_args alwaysDrop spec usr) w = (Ok (), w')
    \<and> trace w' = trace w @ starter_calls rng pid alwaysDrop spec usr p"
proof -
  let ?dir = "if ps_Dir spec = '''' then pu_homeDir usr else ps_Dir spec"
  let ?drops = "alwaysDrop \<or> ps_User spec \<noteq> ''root''"
  define w1 where "w1 = w\<lparr>trace := trace w @ [ReadDir ''/proc/self/fd'']\<rparr>"
  define w2 where "w2 = w1\<lparr>trace := trace w1 @ map (\<lambda>(i, v). Sys (Setrlimit i v v)) (rng (getSystemRlimitFlags (ps_Limits spec)))\<rparr>"
  define w3 where "w3 = (if ?drops
     then w2\<lparr>trace := trace w2 @ map Sys [CapLoad pid, CapApply pid (cap_whitelist @ (if alwaysDrop then [] else [CAP_SYS_ADMIN]))]\<rparr>
     else w2)"
  have fds: "closeFds inside w = (Ok (), w1)"
    using assms(1,2) by (simp add: closeFds_def w1_def write_kernel_def all_ok_def)
  have lim: "must (Rlimits_Apply inside rng (ps_Limits spec) w1) = (Ok (), w2)"
    by (simp add: Rlimits_Apply_ok [OF assms(1)] must_def w2_def)
  have caps: "(if ?drops then must (Caps_Limit inside pid (\<not> alwaysDrop) w2) else (Ok (), w2)) = (Ok (), w3)"
    by (simp add: Caps_Limit_ok [OF assms(1)] must_def w3_def)
  have "?dir \<noteq> ''''" using assms(3) by simp
  from ExecAsUser_ok [OF assms(1) this] obtain p w' where
    ex: "ExecAsUser inside (uint (pu_uid usr)) (uint (pu_gid usr)) ?dir (ps_Path spec) (ps_Args spec) w3 = (Ok (), w')"
    "trace w' = trace w3 @ map Sys [Setgid (uint (pu_gid usr)), Setuid (uint (pu_uid usr)), Mkdir ?dir 493, Chdir ?dir,
       LookPath (ps_Path spec), Exec p (ps_Path spec # ps_Args spec)]" by blast
  have "proc_starter inside rng pid (starter_args alwaysDrop spec usr) w = (Ok (), w')"
    by (simp add: proc_starter_def parse_starter_args fds DecodeLimits_EncodeLimits lim caps ex(1) cong: if_cong split del: if_split)
  moreover have "trace w' = trace w @ starter_calls rng pid alwaysDrop spec usr p"
    using ex(2) by (simp add: w1_def w2_def w3_def starter_calls_def Let_def)
  ultimately show ?thesis by blast
qed

section \<open>Properties\<close>


definition example_process :: process_spec where
  "example_process = \<lparr>ps_Path = ''ls'', ps_Args = [''-l''], ps_Env = [], ps_Dir = '''', ps_User = ''bob'', ps_TTY = None,
     ps_Limits = limits_of ((\<lambda>_. None)(''RLIMIT_NOFILE'' \<mapsto> 1024))\<rparr>"

definition example_users :: "string \<Rightarrow> os_user option res" where
  "example_users = LibContainer_Lookup (\<lambda>_. Ok (1000, 1001, ''/home/bob''))"

lemma example_user:
  "parseUser example_users ''bob'' = Ok \<lparr>pu_username = ''bob'', pu_uid = 1000, pu_gid = 1001, pu_homeDir = ''/home/bob''\<rparr>"
  by (simp add: parseUser_def example_users_def LibContainer_Lookup_def show_int_def sscanf_uint_show_nat)




end
