(* ===== verification/Reaper.thy ===== *)
theory Reaper
  imports World
begin

text \<open>
  The process reaper of a container's first process (\<open>containerizer/system/process_reaper_linux.go\<close>).
  It starts processes, takes the exit status of every child from the kernel, and hands the status of
  the processes it started to whoever waits for them. A channel with room for one value is the list of
  the values in it.
\<close>

section \<open>State and operations\<close>

record reaper =
  waiting :: "int \<rightharpoonup> int list"
  monitoredPids :: "int set"

definition StartReaper :: reaper where
  "StartReaper = \<lparr>waiting = (\<lambda>_. None), monitoredPids = {}\<rparr>"

text \<open>\<open>Start\<close>, with the result of \<open>cmd.Start\<close>: the pid of the new process.\<close>

definition Reaper_Start :: "int res \<Rightarrow> reaper \<Rightarrow> unit res \<times> reaper" where
  "Reaper_Start started p =
     (case started of
        Ok pid \<Rightarrow> (Ok (), p\<lparr>waiting := (waiting p)(pid \<mapsto> []), monitoredPids := insert pid (monitoredPids p)\<rparr>)
      | Err e \<Rightarrow> (Err e, p)
      | Panic m \<Rightarrow> (Panic m, p))"

definition waitChan :: "int \<Rightarrow> reaper \<Rightarrow> int list option" where
  "waitChan pid p = waiting p pid"

definition unmonitorPid :: "int \<Rightarrow> reaper \<Rightarrow> reaper" where
  "unmonitorPid pid p = p\<lparr>monitoredPids := monitoredPids p - {pid}\<rparr>"

text \<open>\<open>Wait\<close> is \<open>None\<close> while the channel is empty: it blocks. The status is cut to a byte.\<close>

definition Reaper_Wait :: "int \<Rightarrow> reaper \<Rightarrow> (8 word res \<times> reaper) option" where
  "Reaper_Wait pid p =
     (case waitChan pid p of
        None \<Rightarrow> Some (Panic ''waited on a process that was never started'', p)
      | Some [] \<Rightarrow> None
      | Some (status # rest) \<Rightarrow> Some (Ok (of_int status), p\<lparr>waiting := (waiting p)(pid \<mapsto> rest)\<rparr>))"

text \<open>
  What \<open>wait4\<close> answers: a child with its exit status (\<open>-1\<close> for one that a signal ended), nothing, or
  an error.
\<close>

datatype wait4_answer = Reaped int int | NothingYet | NoChildProcesses | Wait4Error

text \<open>One answer of the kernel: sending into a full channel blocks, \<open>None\<close>.\<close>

definition reap_one :: "int \<Rightarrow> int \<Rightarrow> reaper \<Rightarrow> reaper option" where
  "reap_one wpid status p =
     (case waitChan wpid p of
        Some ch \<Rightarrow>
          if wpid \<in> monitoredPids p then
            (if ch = [] then Some (unmonitorPid wpid (p\<lparr>waiting := (waiting p)(wpid \<mapsto> ch @ [status])\<rparr>)) else None)
          else Some p
      | None \<Rightarrow> Some p)"

fun reap :: "wait4_answer list \<Rightarrow> reaper \<Rightarrow> reaper option" where
  "reap [] p = Some p"
| "reap (Reaped wpid status # answers) p = Option.bind (reap_one wpid status p) (reap answers)"
| "reap (_ # answers) p = Some p"

section \<open>Runs\<close>

text \<open>
  The kernel's side: the children that have not been reaped. A process gets a pid that no such child
  has. Processes that lost their parent become children too. Waiting and reaping happen in any order.
\<close>

inductive reaper_step :: "int set \<times> reaper \<Rightarrow> int set \<times> reaper \<Rightarrow> bool" where
  start: "pid \<notin> children \<Longrightarrow> Reaper_Start (Ok pid) p = (r, p') \<Longrightarrow> reaper_step (children, p) (insert pid children, p')"
| start_fails: "Reaper_Start (Err e) p = (r, p') \<Longrightarrow> reaper_step (children, p) (children, p')"
| adopt: "pid \<notin> children \<Longrightarrow> reaper_step (children, p) (insert pid children, p)"
| exits: "pid \<in> children \<Longrightarrow> reap [Reaped pid status] p = Some p' \<Longrightarrow> reaper_step (children, p) (children - {pid}, p')"
| waited: "Reaper_Wait pid p = Some (r, p') \<Longrightarrow> reaper_step (children, p) (children, p')"

text \<open>A process that is monitored is a child, and its channel is empty.\<close>

fun reaper_ok :: "int set \<times> reaper \<Rightarrow> bool" where
  "reaper_ok (children, p) = (\<forall>pid\<in>monitoredPids p. pid \<in> children \<and> waiting p pid = Some [])"

lemma reap_one_ok:
  assumes "reaper_ok (children, p)"
  shows "\<exists>p'. reap_one pid status p = Some p' \<and> reaper_ok (children - {pid}, p')"
  using assms by (auto simp: reap_one_def waitChan_def unmonitorPid_def split: option.splits)

lemma reaper_step_ok:
  assumes "reaper_step s s'" and "reaper_ok s"
  shows "reaper_ok s'"
  using assms
proof (cases rule: reaper_step.cases)
  case (exits pid children status p p')
  then show ?thesis using reap_one_ok [of children p pid status] assms(2) by (auto simp: Option.bind_eq_Some_conv)
next
  case (waited pid p r p' children)
  then show ?thesis using assms(2)
    by (auto simp: Reaper_Wait_def waitChan_def split: option.splits list.splits)
qed (auto simp: Reaper_Start_def)

lemma reaper_run_ok: "reaper_step\<^sup>*\<^sup>* ({}, StartReaper) s \<Longrightarrow> reaper_ok s"
  by (induction rule: rtranclp_induct) (simp add: StartReaper_def, rule reaper_step_ok)

section \<open>Properties\<close>



end
