(* ===== verification/Daemon.thy ===== *)
theory Daemon
  imports Reaper Frame Container
begin

text \<open>
  The daemon that runs as the first process of a container, and its client: the socket between them
  (\<open>container_daemon/unix_socket\<close>), the handler of its requests (\<open>container_daemon/daemon.go\<close>), spawning
  a process (\<open>container_daemon/spawn.go\<close>), signalling one (\<open>container_daemon/signaller.go\<close>), and the
  client's side of a process (\<open>container_daemon/process.go\<close>). The open files of the daemon are counted:
  a file is named by the number of its opening, so that numbers are not used twice; a pipe's read end is
  one below its write end. Files that the program forgets are closed by the garbage collector at some
  later time, if at all; only the closing that the code asks for is modelled.
\<close>

section \<open>State\<close>

text \<open>The goroutine of \<open>handleCompletion\<close> for a process: its pid, the exit pipe, and the two outputs.\<close>

record completion =
  co_pid :: int
  co_exitW :: nat
  co_stdout :: nat
  co_stderr :: nat

record daemon =
  d_world :: world
  d_reaper :: reaper
  next_file :: nat
  open_files :: "nat list"
  pipe_data :: "nat \<Rightarrow> 8 word list"
  completions :: "completion list"

definition daemon_sys :: "outside \<Rightarrow> syscall \<Rightarrow> daemon \<Rightarrow> unit res \<times> daemon" where
  "daemon_sys out c d = (case sys out c (d_world d) of (r, w) \<Rightarrow> (r, d\<lparr>d_world := w\<rparr>))"

text \<open>\<open>os.Pipe()\<close>, and opening a terminal with its controlling side first.\<close>

definition open_pair :: "outside \<Rightarrow> string \<Rightarrow> daemon \<Rightarrow> (nat \<times> nat) res \<times> daemon" where
  "open_pair out k d =
     then_do (daemon_sys out (OpenPair k) d) (\<lambda>_ d.
       (Ok (next_file d, Suc (next_file d)),
        d\<lparr>next_file := next_file d + 2, open_files := open_files d @ [next_file d, Suc (next_file d)]\<rparr>))"

text \<open>\<open>file.Close()\<close> with its error ignored: the descriptor is gone in any case.\<close>

definition close_file :: "outside \<Rightarrow> nat \<Rightarrow> daemon \<Rightarrow> daemon" where
  "close_file out f d = (snd (daemon_sys out (CloseFd f) d))\<lparr>open_files := filter (\<lambda>g. g \<noteq> f) (open_files d)\<rparr>"

section \<open>Spawning\<close>

text \<open>The reaper as the runner. The flag says that the process gets a session with the terminal.\<close>

definition runner_Start :: "outside \<Rightarrow> cmd \<Rightarrow> nat list \<Rightarrow> bool \<Rightarrow> daemon \<Rightarrow> int res \<times> daemon" where
  "runner_Start out c fds setctty d =
     (let pid = o_pid out (trace (d_world d)) in
      then_do (daemon_sys out (StartProcess c fds setctty) d) (\<lambda>_ d.
        case Reaper_Start (Ok pid) (d_reaper d) of (_, p) \<Rightarrow> (Ok pid, d\<lparr>d_reaper := p\<rparr>)))"

definition wireExit :: "outside \<Rightarrow> cmd \<Rightarrow> nat \<Rightarrow> nat \<Rightarrow> nat \<Rightarrow> bool \<Rightarrow> daemon \<Rightarrow> (nat \<times> int) res \<times> daemon" where
  "wireExit out c stdin stdout stderr setctty d =
     then_do (wrap_error ''container_daemon: create pipe: '' (open_pair out ''pipe'' d)) (\<lambda>(exitR, exitW) d.
     then_do (wrap_error ''container_daemon: start: '' (runner_Start out c [stdin, stdout, stderr] setctty d)) (\<lambda>pid d.
       (Ok (exitR, pid),
        d\<lparr>completions := completions d @ [\<lparr>co_pid = pid, co_exitW = exitW, co_stdout = stdout, co_stderr = stderr\<rparr>]\<rparr>)))"

definition spawnWithTty :: "outside \<Rightarrow> cmd \<Rightarrow> daemon \<Rightarrow> (nat list \<times> int) res \<times> daemon" where
  "spawnWithTty out c d =
     then_do (wrap_error ''container_daemon: open pipe: '' (open_pair out ''pty'' d)) (\<lambda>(pty, tty) d.
     then_do (on_error (close_file out tty \<circ> close_file out pty) (wireExit out c tty tty tty True d)) (\<lambda>(exitFd, pid) d.
       (Ok ([pty, exitFd], pid), d)))"

definition close_all :: "outside \<Rightarrow> nat list \<Rightarrow> daemon \<Rightarrow> daemon" where
  "close_all out fs d = fold (close_file out) fs d"

definition spawnNoninteractive :: "outside \<Rightarrow> cmd \<Rightarrow> daemon \<Rightarrow> (nat list \<times> int) res \<times> daemon" where
  "spawnNoninteractive out c d =
     (let pipe = (\<lambda>d. wrap_error ''container_daemon: create pipe: '' (open_pair out ''pipe'' d)) in
      then_do (pipe d) (\<lambda>(r0, w0) d.
      then_do (pipe d) (\<lambda>(r1, w1) d.
      then_do (pipe d) (\<lambda>(r2, w2) d.
      then_do (on_error (close_all out [r0, w0, r1, w1, r2, w2]) (wireExit out c r0 w1 w2 False d)) (\<lambda>(exitStatusR, pid) d.
        (Ok ([w0, r1, r2, exitStatusR], pid), d))))))"

definition Spawn :: "outside \<Rightarrow> cmd \<Rightarrow> bool \<Rightarrow> daemon \<Rightarrow> (nat list \<times> int) res \<times> daemon" where
  "Spawn out c tty d = (if tty then spawnWithTty out c d else spawnNoninteractive out c d)"

text \<open>\<open>None\<close> while the process runs. The byte is lost when it cannot be written.\<close>

definition handleCompletion :: "outside \<Rightarrow> completion \<Rightarrow> daemon \<Rightarrow> (unit res \<times> daemon) option" where
  "handleCompletion out c d =
     (case Reaper_Wait (co_pid c) (d_reaper d) of
        None \<Rightarrow> None
      | Some (Ok status, p) \<Rightarrow>
          (let (r, d) = daemon_sys out (WriteMessage [char_of (unat status)]) (d\<lparr>d_reaper := p\<rparr>);
               d = (if is_ok r then d\<lparr>pipe_data := (pipe_data d)(co_exitW c := pipe_data d (co_exitW c) @ [status])\<rparr> else d);
               d = (if co_stderr c \<noteq> co_stdout c then close_file out (co_stderr c) d else d);
               d = close_file out (co_stdout c) d in
           Some (Ok (), close_file out (co_exitW c) d))
      | Some (Err e, p) \<Rightarrow> Some (Err e, d)
      | Some (Panic m, p) \<Rightarrow> Some (Panic m, d))"

section \<open>Requests\<close>

definition ProcessRequest :: int where "ProcessRequest = 0"

definition ProcessResponse :: int where "ProcessResponse = 1"

definition SignalRequest :: int where "SignalRequest = 2"

definition SignalResponse :: int where "SignalResponse = 3"

record response_message =
  rm_Type :: int
  rm_Files :: "nat list"
  rm_Pid :: int
  rm_ErrMessage :: string

definition zero_response :: response_message where
  "zero_response = \<lparr>rm_Type = 0, rm_Files = [], rm_Pid = 0, rm_ErrMessage = ''''\<rparr>"

record signal_spec =
  ss_Pid :: int
  ss_Signal :: int

text \<open>
  The JSON encodings are the standard library's: a parameter. The files are not part of the text of a
  response. The law is that reading gives back what was written, and that the beginning of a response
  is not read as another one.
\<close>

record 'd json =
  put_process :: "process_spec \<Rightarrow> 'd res"
  get_process :: "'d \<Rightarrow> process_spec res"
  put_signal :: "signal_spec \<Rightarrow> 'd res"
  get_signal :: "'d \<Rightarrow> signal_spec res"
  put_request :: "int \<times> 'd \<Rightarrow> string res"
  get_request :: "string \<Rightarrow> (int \<times> 'd) res"
  put_response :: "int \<times> int \<times> string \<Rightarrow> string res"
  get_response :: "string \<Rightarrow> (int \<times> int \<times> string) res"

definition json_ok :: "'d json \<Rightarrow> bool" where
  "json_ok js \<longleftrightarrow>
     (\<forall>s x. put_process js s = Ok x \<longrightarrow> get_process js x = Ok s) \<and> (\<forall>s x. put_signal js s = Ok x \<longrightarrow> get_signal js x = Ok s)
     \<and> (\<forall>r x. put_request js r = Ok x \<longrightarrow> get_request js x = Ok r)
     \<and> (\<forall>r x. put_response js r = Ok x \<longrightarrow> x \<noteq> '''' \<and> get_response js x = Ok r \<and> (\<forall>n y. get_response js (take n x) = Ok y \<longrightarrow> y = r))"

definition find_prefix :: "string \<Rightarrow> int \<Rightarrow> string" where
  "find_prefix what pid = ''container_daemon: signaller: '' @ what @ '' process: pid: '' @ show_int pid @ '', ''"

definition Signaller_Signal :: "outside \<Rightarrow> int \<Rightarrow> int \<Rightarrow> daemon \<Rightarrow> unit res \<times> daemon" where
  "Signaller_Signal out pid signal d =
     then_do (wrap_error (find_prefix ''find'' pid) (daemon_sys out (FindProcess pid) d)) (\<lambda>_ d.
       wrap_error (find_prefix ''signal'' pid) (daemon_sys out (SignalProcess pid signal) d))"

text \<open>
  The deferred function of \<open>Handle\<close>: a panic becomes an error. Then the handler; the text of the error
  for an unknown message is cut before the message.
\<close>

fun recover_panic :: "'a res \<times> 's \<Rightarrow> 'a res \<times> 's" where
  "recover_panic (Panic m, s) = (Err (Errorf ''container_daemon: recovered panic: '' (ErrorNew m)), s)"
| "recover_panic (r, s) = (r, s)"

definition Daemon_Handle ::
  "'d json \<Rightarrow> outside \<Rightarrow> (process_spec \<Rightarrow> cmd res) \<Rightarrow> string \<Rightarrow> daemon \<Rightarrow> response_message res \<times> daemon" where
  "Daemon_Handle js out prepareCmd input d =
     recover_panic
      (then_do (wrap_error ''container_daemon: decode message spec: '' (get_request js input, d)) (\<lambda>(ty, data) d.
       if ty = ProcessRequest then
         then_do (wrap_error ''container_daemon: json unmarshal process spec: '' (get_process js data, d)) (\<lambda>spec d.
         then_do (prepareCmd spec, d) (\<lambda>c d.
         then_do (Spawn out c (ps_TTY spec \<noteq> None) d) (\<lambda>(fs, pid) d.
           (Ok (zero_response\<lparr>rm_Type := ProcessResponse, rm_Files := fs, rm_Pid := pid\<rparr>), d))))
       else if ty = SignalRequest then
         then_do (wrap_error ''container_daemon: json unmarshal signal spec: '' (get_signal js data, d)) (\<lambda>spec d.
         then_do (Signaller_Signal out (ss_Pid spec) (ss_Signal spec) d) (\<lambda>_ d.
           (Ok (zero_response\<lparr>rm_Type := SignalResponse\<rparr>), d)))
       else (Err (ErrorNew ''container_daemon: unknown message: ''), d)))"

section \<open>The socket\<close>

text \<open>The message sent, \<open>None\<close> when it cannot be sent; the files are closed after that in any case.\<close>

definition writeData :: "'d json \<Rightarrow> outside \<Rightarrow> response_message \<Rightarrow> daemon \<Rightarrow> (string \<times> nat list) option \<times> daemon" where
  "writeData js out response d =
     (let data = (case put_response js (rm_Type response, rm_Pid response, rm_ErrMessage response) of Ok x \<Rightarrow> x | _ \<Rightarrow> '''');
          (r, d) = daemon_sys out (WriteMessage data) d in
      (if is_ok r then Some (data, rm_Files response) else None, close_all out (rm_Files response) d))"

text \<open>One connection of the listener. \<open>text_of\<close> is the text of an error, \<open>err.Error()\<close>.\<close>

definition serve ::
  "'d json \<Rightarrow> outside \<Rightarrow> (error \<Rightarrow> string) \<Rightarrow> (process_spec \<Rightarrow> cmd res) \<Rightarrow> string \<Rightarrow> daemon \<Rightarrow> (string \<times> nat list) option \<times> daemon" where
  "serve js out text_of prepareCmd input d =
     (case Daemon_Handle js out prepareCmd input d of
        (Ok response, d) \<Rightarrow> writeData js out response d
      | (Err e, d) \<Rightarrow> writeData js out (zero_response\<lparr>rm_ErrMessage := text_of e\<rparr>) d
      | (Panic m, d) \<Rightarrow> (None, d))"

definition readData :: "'d json \<Rightarrow> outside \<Rightarrow> (string \<times> nat list) option \<Rightarrow> daemon \<Rightarrow> response_message res \<times> daemon" where
  "readData js out msg d =
     then_do (wrap_error ''unix_socket: failed to read unix msg: '' (daemon_sys out ReadMessage d)) (\<lambda>_ d.
       let (b, fds) = (case msg of None \<Rightarrow> ('''', []) | Some (data, fs) \<Rightarrow> (take 2048 data, fs)) in
       if b = '''' then (Err (ErrorNew ''unix_socket: No response received''), d)
       else then_do (wrap_error ''unix_socket: Unmarshal failed: '' (get_response js b, d)) (\<lambda>(ty, pid, errMessage) d.
         if errMessage \<noteq> '''' then (Err (ErrorNew errMessage), d)
         else (Ok \<lparr>rm_Type = ty, rm_Files = fds, rm_Pid = pid, rm_ErrMessage = errMessage\<rparr>, d)))"

definition Connect ::
  "'d json \<Rightarrow> outside \<Rightarrow> (error \<Rightarrow> string) \<Rightarrow> (process_spec \<Rightarrow> cmd res) \<Rightarrow> string \<Rightarrow> int \<times> 'd \<Rightarrow> daemon \<Rightarrow> response_message res \<times> daemon" where
  "Connect js out text_of prepareCmd socketPath msg d =
     then_do (wrap_error ''unix_socket: connect to server socket: '' (daemon_sys out (Dial socketPath) d)) (\<lambda>_ d.
     then_do (wrap_error ''unix_socket: failed to marshal json message: '' (put_request js msg, d)) (\<lambda>msgJson d.
     then_do (wrap_error ''unix_socket: failed to write to connection: '' (daemon_sys out (WriteMessage msgJson) d)) (\<lambda>_ d.
       case serve js out text_of prepareCmd msgJson d of (sent, d) \<Rightarrow> readData js out sent d)))"

section \<open>The client's process\<close>

definition UnknownExitStatus :: "8 word" where "UnknownExitStatus = 255"

text \<open>The pid, and the file from which the exit status comes. Copying the streams is not modelled.\<close>

definition Client_Start ::
  "'d json \<Rightarrow> outside \<Rightarrow> (error \<Rightarrow> string) \<Rightarrow> (process_spec \<Rightarrow> cmd res) \<Rightarrow> string \<Rightarrow> process_spec \<Rightarrow> daemon \<Rightarrow> (int \<times> nat) res \<times> daemon" where
  "Client_Start js out text_of prepareCmd sock spec d =
     then_do (wrap_error ''container_daemon: marshal process spec json: '' (put_process js spec, d)) (\<lambda>data d.
     then_do (wrap_error ''container_daemon: connect to socket: '' (Connect js out text_of prepareCmd sock (ProcessRequest, data) d)) (\<lambda>response d.
       let last_file = (if ps_TTY spec \<noteq> None then 1 else 3) in
       if length (rm_Files response) \<le> last_file then (Panic ''index out of range'', d)
       else (Ok (rm_Pid response, rm_Files response ! last_file), d)))"

definition Client_Signal ::
  "'d json \<Rightarrow> outside \<Rightarrow> (error \<Rightarrow> string) \<Rightarrow> (process_spec \<Rightarrow> cmd res) \<Rightarrow> string \<Rightarrow> int \<Rightarrow> int \<Rightarrow> daemon \<Rightarrow> unit res \<times> daemon" where
  "Client_Signal js out text_of prepareCmd sock pid signal d =
     then_do (wrap_error ''container_daemon: marshal signal spec json: '' (put_signal js \<lparr>ss_Pid = pid, ss_Signal = signal\<rparr>, d)) (\<lambda>data d.
     then_do (wrap_error ''container_daemon: connect to some socket: '' (Connect js out text_of prepareCmd sock (SignalRequest, data) d)) (\<lambda>_ d.
       (Ok (), d)))"

text \<open>
  The exit code as \<open>Wait\<close> returns it: the byte in the pipe, the unknown status when the write end is
  closed without one, and \<open>None\<close> (it blocks) as long as neither is the case.
\<close>

definition exitWaitChannel :: "nat \<Rightarrow> daemon \<Rightarrow> int option" where
  "exitWaitChannel exitFd d =
     (case pipe_data d (Suc exitFd) of
        b # _ \<Rightarrow> Some (uint b)
      | [] \<Rightarrow> if Suc exitFd \<in> set (open_files d) then None else Some (uint UnknownExitStatus))"

section \<open>Files\<close>

definition daemon_ok :: "daemon \<Rightarrow> bool" where
  "daemon_ok d \<longleftrightarrow> (\<forall>f\<in>set (open_files d). f < next_file d) \<and> (\<forall>f\<ge>next_file d. pipe_data d f = [])"

lemma daemon_sys_eq: "daemon_sys out c d = (fst (sys out c (d_world d)), d\<lparr>d_world := snd (sys out c (d_world d))\<rparr>)"
  by (simp add: daemon_sys_def split: prod.splits)

lemma close_file_sel [simp]:
  "open_files (close_file out f d) = filter (\<lambda>g. g \<noteq> f) (open_files d)" "next_file (close_file out f d) = next_file d"
  "pipe_data (close_file out f d) = pipe_data d" "completions (close_file out f d) = completions d"
  "d_reaper (close_file out f d) = d_reaper d"
  by (simp_all add: close_file_def daemon_sys_eq)

lemma close_all_sel [simp]:
  "open_files (close_all out fs d) = filter (\<lambda>g. g \<notin> set fs) (open_files d)" "next_file (close_all out fs d) = next_file d"
  "pipe_data (close_all out fs d) = pipe_data d" "completions (close_all out fs d) = completions d"
  "d_reaper (close_all out fs d) = d_reaper d"
  by (induction fs arbitrary: d) (auto simp: close_all_def intro!: filter_cong)

lemma open_pair_Ok:
  assumes "open_pair out k d = (Ok p, d')"
  shows "p = (next_file d, Suc (next_file d)) \<and> open_files d' = open_files d @ [next_file d, Suc (next_file d)]
    \<and> next_file d' = next_file d + 2 \<and> pipe_data d' = pipe_data d \<and> completions d' = completions d \<and> d_reaper d' = d_reaper d"
  using assms by (auto simp: open_pair_def daemon_sys_eq then_do_Ok_iff)

lemma runner_Start_Ok:
  assumes "runner_Start out c fds tty d = (Ok pid, d')"
  shows "open_files d' = open_files d \<and> next_file d' = next_file d \<and> pipe_data d' = pipe_data d \<and> completions d' = completions d
    \<and> waiting (d_reaper d') pid = Some [] \<and> pid \<in> monitoredPids (d_reaper d')"
  using assms by (auto simp: runner_Start_def Let_def daemon_sys_eq then_do_Ok_iff Reaper_Start_def)

text \<open>The files that a successful spawn opens, by their place: those sent to the client, and those kept.\<close>

definition sent_files :: "bool \<Rightarrow> nat \<Rightarrow> nat list" where
  "sent_files tty n = (if tty then [n, n + 2] else [n + 1, n + 2, n + 4, n + 6])"

definition kept_completion :: "bool \<Rightarrow> nat \<Rightarrow> int \<Rightarrow> completion" where
  "kept_completion tty n pid =
     (if tty then \<lparr>co_pid = pid, co_exitW = n + 3, co_stdout = n + 1, co_stderr = n + 1\<rparr>
      else \<lparr>co_pid = pid, co_exitW = n + 7, co_stdout = n + 3, co_stderr = n + 5\<rparr>)"

lemma wireExit_Ok:
  assumes "wireExit out c i x e tty d = (Ok (exitR, pid), d')"
  shows "exitR = next_file d \<and> open_files d' = open_files d @ [next_file d, Suc (next_file d)] \<and> next_file d' = next_file d + 2
    \<and> pipe_data d' = pipe_data d \<and> waiting (d_reaper d') pid = Some [] \<and> pid \<in> monitoredPids (d_reaper d')
    \<and> completions d' = completions d @ [\<lparr>co_pid = pid, co_exitW = Suc (next_file d), co_stdout = x, co_stderr = e\<rparr>]"
  using assms by (auto simp: wireExit_def ok_iffs dest!: open_pair_Ok runner_Start_Ok)

lemma Spawn_Ok:
  assumes "Spawn out c tty d = (Ok (fs, pid), d')"
  shows "fs = sent_files tty (next_file d) \<and> completions d' = completions d @ [kept_completion tty (next_file d) pid]
    \<and> open_files d' = open_files d @ [next_file d..<next_file d + (if tty then 4 else 8)]
    \<and> next_file d' = next_file d + (if tty then 4 else 8) \<and> pipe_data d' = pipe_data d
    \<and> waiting (d_reaper d') pid = Some [] \<and> pid \<in> monitoredPids (d_reaper d')"
proof (cases tty)
  case True
  with assms show ?thesis
    by (auto simp: Spawn_def spawnWithTty_def ok_iffs sent_files_def kept_completion_def upt_rec dest!: open_pair_Ok wireExit_Ok)
next
  case False
  with assms show ?thesis
    by (auto simp: Spawn_def spawnNoninteractive_def Let_def ok_iffs sent_files_def kept_completion_def upt_rec dest!: open_pair_Ok wireExit_Ok)
qed

lemma recover_Ok_iff: "recover_panic r = (Ok x, s) \<longleftrightarrow> r = (Ok x, s)"
  by (cases r rule: recover_panic.cases) auto

lemma Daemon_Handle_Ok:
  assumes "Daemon_Handle js out prep input d = (Ok resp, d')" and "get_request js input = Ok (ProcessRequest, data)"
    and "get_process js data = Ok spec"
  shows "\<exists>c fs pid. prep spec = Ok c \<and> Spawn out c (ps_TTY spec \<noteq> None) d = (Ok (fs, pid), d')
    \<and> resp = zero_response\<lparr>rm_Type := ProcessResponse, rm_Files := fs, rm_Pid := pid\<rparr>"
  using assms by (auto simp: Daemon_Handle_def recover_Ok_iff ok_iffs split: prod.splits)

lemma readData_sent:
  assumes "json_ok js" and "writeData js out resp d = (sent, d')" and "readData js out sent d0 = (Ok resp', d'')"
  shows "resp' = resp \<and> rm_ErrMessage resp = ''''"
proof -
  let ?r = "(rm_Type resp, rm_Pid resp, rm_ErrMessage resp)"
  from assms(3) obtain data fs where sent: "sent = Some (data, fs)" and data: "take 2048 data \<noteq> ''''"
    by (cases sent) (auto simp: readData_def daemon_sys_eq ok_iffs split: if_splits)
  from assms(2) sent have fs: "fs = rm_Files resp" "data = (case put_response js ?r of Ok x \<Rightarrow> x | _ \<Rightarrow> '''')"
    by (auto simp: writeData_def Let_def split: prod.splits if_splits)
  with data have put: "put_response js ?r = Ok data" by (auto split: res.splits)
  from assms(3) sent data fs obtain ty pid err where "get_response js (take 2048 data) = Ok (ty, pid, err)" "err = ''''"
    "resp' = \<lparr>rm_Type = ty, rm_Files = rm_Files resp, rm_Pid = pid, rm_ErrMessage = err\<rparr>"
    by (auto simp: readData_def daemon_sys_eq ok_iffs split: if_splits)
  with assms(1) put show ?thesis by (fastforce simp: json_ok_def)
qed

lemma Client_Start_Ok:
  assumes "json_ok js" and "Client_Start js out text_of prep sock spec d = (Ok (pid, exitFd), d')"
  shows "\<exists>c w d1 w1 w2. prep spec = Ok c
    \<and> Spawn out c (ps_TTY spec \<noteq> None) (d\<lparr>d_world := w\<rparr>) = (Ok (sent_files (ps_TTY spec \<noteq> None) (next_file d), pid), d1)
    \<and> exitFd = last (sent_files (ps_TTY spec \<noteq> None) (next_file d))
    \<and> d' = (close_all out (sent_files (ps_TTY spec \<noteq> None) (next_file d)) (d1\<lparr>d_world := w1\<rparr>))\<lparr>d_world := w2\<rparr>"
proof -
  let ?tty = "ps_TTY spec \<noteq> None"
  from assms(2) obtain data resp where data: "put_process js spec = Ok data"
    and con: "Connect js out text_of prep sock (ProcessRequest, data) d = (Ok resp, d')"
    and len: "(if ?tty then 1 else 3) < length (rm_Files resp)"
    and res: "pid = rm_Pid resp" "exitFd = rm_Files resp ! (if ?tty then 1 else 3)"
    by (auto simp: Client_Start_def Let_def ok_iffs split: if_splits)
  from con obtain input w where input: "put_request js (ProcessRequest, data) = Ok input"
    and call: "(case serve js out text_of prep input (d\<lparr>d_world := w\<rparr>) of (sent, d) \<Rightarrow> readData js out sent d) = (Ok resp, d')"
    by (auto simp: Connect_def daemon_sys_eq ok_iffs)
  define d0 where "d0 = d\<lparr>d_world := w\<rparr>"
  from call obtain sent d3 where srv: "serve js out text_of prep input d0 = (sent, d3)" and rd: "readData js out sent d3 = (Ok resp, d')"
    by (cases "serve js out text_of prep input d0") (auto simp: d0_def)
  from assms(1) data input have get: "get_request js input = Ok (ProcessRequest, data)" "get_process js data = Ok spec"
    by (auto simp: json_ok_def)
  obtain resp' d1 where h: "Daemon_Handle js out prep input d0 = (Ok resp', d1)" and wr: "writeData js out resp' d1 = (sent, d3)"
  proof (cases "Daemon_Handle js out prep input d0")
    case (Pair r d1)
    then show ?thesis
    proof (cases r)
      case (Ok resp')
      with Pair srv that show ?thesis by (simp add: serve_def)
    next
      case (Err e)
      with Pair srv readData_sent [OF assms(1) _ rd] have "rm_Files resp = []" by (auto simp: serve_def zero_response_def)
      with len show ?thesis by (simp split: if_splits)
    next
      case (Panic m)
      with Pair srv rd show ?thesis by (auto simp: serve_def readData_def daemon_sys_eq ok_iffs)
    qed
  qed
  from readData_sent [OF assms(1) wr rd] have resp: "resp' = resp" by simp
  from Daemon_Handle_Ok [OF h get] obtain c where c: "prep spec = Ok c" "Spawn out c ?tty d0 = (Ok (rm_Files resp, rm_Pid resp), d1)"
    unfolding resp by (auto simp: zero_response_def)
  from Spawn_Ok [OF c(2)] have fs: "rm_Files resp = sent_files ?tty (next_file d)" by (simp add: d0_def)
  from rd obtain w2 where d': "d' = d3\<lparr>d_world := w2\<rparr>"
    by (auto simp: readData_def Let_def daemon_sys_eq ok_iffs split: if_splits prod.splits)
  from wr obtain w1 where d3: "d3 = close_all out (rm_Files resp) (d1\<lparr>d_world := w1\<rparr>)"
    unfolding resp by (auto simp: writeData_def Let_def daemon_sys_eq)
  have "exitFd = last (sent_files ?tty (next_file d))" using res(2) unfolding fs by (simp add: sent_files_def)
  with c d' d3 res(1) show ?thesis unfolding fs d0_def
    by (intro exI [of _ c] exI [of _ w] exI [of _ d1] exI [of _ w1] exI [of _ w2]) simp
qed

text \<open>What the completion of a process does once its status is known.\<close>

lemma handleCompletion_status:
  assumes "waiting (d_reaper d) (co_pid c) = Some [status]"
  shows "\<exists>d'. handleCompletion out c d = Some (Ok (), d')
    \<and> open_files d' = filter (\<lambda>g. g \<notin> {co_exitW c, co_stdout c, co_stderr c}) (open_files d)
    \<and> pipe_data d' (co_exitW c) = pipe_data d (co_exitW c)
         @ (if o_err out (trace (d_world d)) (Sys (WriteMessage [char_of (unat (of_int status :: 8 word))])) = None then [of_int status] else [])"
proof -
  have "Reaper_Wait (co_pid c) (d_reaper d) = Some (Ok (of_int status), (d_reaper d)\<lparr>waiting := (waiting (d_reaper d))(co_pid c \<mapsto> [])\<rparr>)"
    using assms by (simp add: Reaper_Wait_def waitChan_def)
  then show ?thesis
    by (auto simp: handleCompletion_def Let_def daemon_sys_eq sys_def write_kernel_def filter_filter intro!: filter_cong split: option.splits)
qed

lemma reap_monitored:
  assumes "waiting p pid = Some []" and "pid \<in> monitoredPids p"
  shows "\<exists>p'. reap [Reaped pid status, NothingYet] p = Some p' \<and> waiting p' pid = Some [status]"
  using assms by (simp add: reap_one_def waitChan_def unmonitorPid_def)

section \<open>Properties\<close>

text \<open>
  C4. The exit status of a process reaches the client. After a process has been started through the
  daemon, waiting for its exit code blocks, and so does its completion. When the kernel reports that the
  process has ended, the status is taken, the completion runs, and the client's exit code is that status
  modulo 256 (255 for a process that a signal ended, or when the byte cannot be written). By then the
  daemon has closed every file that it opened for the process, except one: without a terminal, the read
  end of the standard input stays open.
\<close>

theorem exit_status_delivered:
  assumes "json_ok js" and "daemon_ok d" and "Client_Start js out text_of prep sock spec d = (Ok (pid, exitFd), d1)"
  shows "\<exists>c p d2. completions d1 = completions d @ [c] \<and> co_pid c = pid
    \<and> exitWaitChannel exitFd d1 = None \<and> handleCompletion out c d1 = None
    \<and> reap [Reaped pid status, NothingYet] (d_reaper d1) = Some p
    \<and> handleCompletion out c (d1\<lparr>d_reaper := p\<rparr>) = Some (Ok (), d2)
    \<and> exitWaitChannel exitFd d2 =
        Some (if o_err out (trace (d_world d1)) (Sys (WriteMessage [char_of (unat (of_int status :: 8 word))])) = None
              then status mod 256 else 255)
    \<and> open_files d2 = open_files d @ (if ps_TTY spec = None then [next_file d] else [])"
proof -
  define tty where "tty = (ps_TTY spec \<noteq> None)"
  define n where "n = next_file d"
  from Client_Start_Ok [OF assms(1, 3)] obtain a w d0 w1 w2 where
    sp: "Spawn out a tty (d\<lparr>d_world := w\<rparr>) = (Ok (sent_files tty n, pid), d0)" and fd: "exitFd = last (sent_files tty n)"
    and d1: "d1 = (close_all out (sent_files tty n) (d0\<lparr>d_world := w1\<rparr>))\<lparr>d_world := w2\<rparr>"
    unfolding tty_def n_def by blast
  let ?c = "kept_completion tty n pid"
  have pid: "co_pid ?c = pid" and exitW: "co_exitW ?c = Suc exitFd" by (simp_all add: kept_completion_def fd sent_files_def)
  from Spawn_Ok [OF sp] have d0: "completions d1 = completions d @ [?c]" "pipe_data d1 = pipe_data d"
    "open_files d1 = filter (\<lambda>g. g \<notin> set (sent_files tty n)) (open_files d @ [n..<n + (if tty then 4 else 8)])"
    "waiting (d_reaper d1) pid = Some []" "pid \<in> monitoredPids (d_reaper d1)"
    unfolding d1 by (auto simp: n_def)
  have old: "filter (\<lambda>g. g \<notin> set (sent_files tty n)) (open_files d) = open_files d"
    "filter (\<lambda>g. g \<notin> {co_exitW ?c, co_stdout ?c, co_stderr ?c}) (open_files d) = open_files d"
    using assms(2) by (auto simp: daemon_ok_def n_def sent_files_def kept_completion_def filter_id_conv split: if_splits)
  have new: "filter (\<lambda>g. g \<notin> set (sent_files tty n)) [n..<n + (if tty then 4 else 8)] = (if tty then [n + 1, n + 3] else [n, n + 3, n + 5, n + 7])"
    by (cases tty) (simp_all add: sent_files_def upt_rec)
  have none: "pipe_data d (Suc exitFd) = []" using assms(2) by (auto simp: daemon_ok_def fd sent_files_def n_def)
  have blocked: "exitWaitChannel exitFd d1 = None"
    using none by (auto simp: exitWaitChannel_def d0 old new fd sent_files_def)
  have running: "handleCompletion out ?c d1 = None" by (simp add: handleCompletion_def Reaper_Wait_def waitChan_def pid d0)
  from reap_monitored [OF d0(4, 5)] obtain p where p: "reap [Reaped pid status, NothingYet] (d_reaper d1) = Some p" "waiting p pid = Some [status]"
    by blast
  from handleCompletion_status [of "d1\<lparr>d_reaper := p\<rparr>" ?c status out] p(2) obtain d2 where
    d2: "handleCompletion out ?c (d1\<lparr>d_reaper := p\<rparr>) = Some (Ok (), d2)"
    "open_files d2 = filter (\<lambda>g. g \<notin> {co_exitW ?c, co_stdout ?c, co_stderr ?c}) (open_files d1)"
    "pipe_data d2 (co_exitW ?c) = pipe_data d1 (co_exitW ?c)
         @ (if o_err out (trace (d_world d1)) (Sys (WriteMessage [char_of (unat (of_int status :: 8 word))])) = None then [of_int status] else [])"
    by (auto simp: pid)
  have closed: "open_files d2 = open_files d @ (if ps_TTY spec = None then [n] else [])"
    unfolding d2(2) d0(3) filter_append old new by (auto simp: kept_completion_def tty_def)
  have "Suc exitFd \<notin> set (open_files d2)" unfolding d2(2) by (simp add: exitW)
  then have "exitWaitChannel exitFd d2 =
      Some (if o_err out (trace (d_world d1)) (Sys (WriteMessage [char_of (unat (of_int status :: 8 word))])) = None
            then status mod 256 else 255)"
    using d2(3) none unfolding exitW d0(2) by (simp add: exitWaitChannel_def UnknownExitStatus_def uint_word_of_int)
  with blocked running p d2(1) closed d0(1) pid show ?thesis unfolding n_def by blast
qed

text \<open>A daemon that has just started, and encodings for one specification, its request and its answer.\<close>

definition fresh_daemon :: daemon where
  "fresh_daemon = \<lparr>d_world = empty_world, d_reaper = StartReaper, next_file = 3, open_files = [0, 1, 2], pipe_data = \<lambda>_. [], completions = []\<rparr>"

definition demo_spec :: process_spec where
  "demo_spec = \<lparr>ps_Path = ''sh'', ps_Args = [], ps_Env = [], ps_Dir = '''', ps_User = ''root'', ps_TTY = None, 
     ps_Limits = \<lparr>rl_As = None, rl_Core = None, rl_Cpu = None, rl_Data = None, rl_Fsize = None, rl_Locks = None, rl_Memlock = None, rl_Msgqueue = None, rl_Nice = None, rl_Nofile = None, rl_Nproc = None, rl_Rss = None, rl_Rtprio = None, rl_Sigpending = None, rl_Stack = None\<rparr>\<rparr>"

definition demo_json :: "process_spec json" where
  "demo_json = \<lparr>put_process = Ok, get_process = Ok, put_signal = \<lambda>_. Err (External ''''), get_signal = \<lambda>_. Err (External ''''),
     put_request = \<lambda>r. if r = (0, demo_spec) then Ok ''q'' else Err (External ''''), get_request = \<lambda>_. Ok (0, demo_spec),
     put_response = \<lambda>r. if r = (1, 1, '''') then Ok ''r'' else Err (External ''''),
     get_response = \<lambda>s. if s = ''r'' then Ok (1, 1, '''') else Err (External '''')\<rparr>"

theorem exit_status_delivered_witness:
  "\<exists>pid exitFd d1 c p d2.
     Client_Start demo_json quiet (\<lambda>_. ''error'') (\<lambda>_. Ok (exec_Command ''sh'' [])) ''sock'' demo_spec fresh_daemon = (Ok (pid, exitFd), d1)
     \<and> reap [Reaped pid (- 1), NothingYet] (d_reaper d1) = Some p \<and> handleCompletion quiet c (d1\<lparr>d_reaper := p\<rparr>) = Some (Ok (), d2)
     \<and> exitWaitChannel exitFd d2 = Some 255 \<and> open_files d2 = [0, 1, 2, 3]"
proof -
  have js: "json_ok demo_json" by (auto simp: json_ok_def demo_json_def split: if_splits)
  have ok: "daemon_ok fresh_daemon" by (simp add: daemon_ok_def fresh_daemon_def)
  have "\<exists>pid exitFd d1. Client_Start demo_json quiet (\<lambda>_. ''error'') (\<lambda>_. Ok (exec_Command ''sh'' [])) ''sock'' demo_spec fresh_daemon = (Ok (pid, exitFd), d1)"
    by (simp add: Client_Start_def Connect_def serve_def Daemon_Handle_def Spawn_def spawnNoninteractive_def wireExit_def runner_Start_def open_pair_def
        daemon_sys_eq sys_def write_kernel_def demo_json_def ProcessRequest_def ProcessResponse_def writeData_def readData_def Let_def
        Reaper_Start_def zero_response_def quiet_def) (simp add: demo_spec_def)
  then obtain pid exitFd d1 where
    st: "Client_Start demo_json quiet (\<lambda>_. ''error'') (\<lambda>_. Ok (exec_Command ''sh'' [])) ''sock'' demo_spec fresh_daemon = (Ok (pid, exitFd), d1)"
    by blast
  from exit_status_delivered [OF js ok st, of "- 1"] st show ?thesis by (auto simp: quiet_def fresh_daemon_def demo_spec_def)
qed

end
