(* ===== verification/Net_Config.thy ===== *)
theory Net_Config
  imports Rlimits Go_Flag Resource_Pool_Props Sysconfig
begin

text \<open>
  The network of a container: the devices (\<open>network/devices\<close>), configuring the host's and the
  container's side (\<open>network/configure.go\<close>, \<open>network/errors.go\<close>), the configuration file that
  \<open>linux_backend/skeleton/setup.sh\<close> writes, and its two readers, the hook on the host
  (\<open>linux_backend/hooks.go\<close>) and \<open>initc\<close> in the container (\<open>containerizer/initc/main.go\<close>). A network
  interface is its name. The mutex around the netlink calls is not needed, as calls run one after the
  other.
\<close>

section \<open>Devices\<close>

text \<open>A call to the kernel that yields no value: an error, if any.\<close>

definition net_call :: "outside \<Rightarrow> syscall \<Rightarrow> world \<Rightarrow> error option \<times> world" where
  "net_call out c w = (o_err out (trace w) (Sys c), snd (sys out c w))"

definition errF :: "error option \<Rightarrow> error option" where
  "errF = map_option (Errorf ''devices: '')"

definition Link_AddIP :: "outside \<Rightarrow> string \<Rightarrow> ip \<Rightarrow> ipnet \<Rightarrow> world \<Rightarrow> error option \<times> world" where
  "Link_AddIP out intf p subnet w = apfst errF (net_call out (LinkAddIp intf p subnet) w)"

definition Link_AddDefaultGW :: "outside \<Rightarrow> string \<Rightarrow> ip \<Rightarrow> world \<Rightarrow> error option \<times> world" where
  "Link_AddDefaultGW out intf p w = apfst errF (net_call out (AddDefaultGw (IP_String p) intf) w)"

definition Link_SetUp :: "outside \<Rightarrow> string \<Rightarrow> world \<Rightarrow> error option \<times> world" where
  "Link_SetUp out intf w = apfst errF (net_call out (LinkUp intf) w)"

definition Link_SetMTU :: "outside \<Rightarrow> string \<Rightarrow> int \<Rightarrow> world \<Rightarrow> error option \<times> world" where
  "Link_SetMTU out intf mtu w = apfst errF (net_call out (LinkSetMTU intf mtu) w)"

definition Link_SetNs :: "outside \<Rightarrow> string \<Rightarrow> int \<Rightarrow> world \<Rightarrow> error option \<times> world" where
  "Link_SetNs out intf ns w = apfst errF (net_call out (LinkSetNsPid intf ns) w)"

text \<open>Whether the interface exists, or the error.\<close>

definition Link_InterfaceByName :: "outside \<Rightarrow> string \<Rightarrow> world \<Rightarrow> (error + bool) \<times> world" where
  "Link_InterfaceByName out name w =
     (let intfs = o_interfaces out (trace w) in
      case apfst errF (net_call out Interfaces w) of
        (Some e, w) \<Rightarrow> (Inl e, w)
      | (None, w) \<Rightarrow> (Inr (name \<in> set intfs), w))"

definition Link_List :: "outside \<Rightarrow> world \<Rightarrow> (error + string list) \<times> world" where
  "Link_List out w =
     (let intfs = o_interfaces out (trace w) in
      case net_call out Interfaces w of (Some e, w) \<Rightarrow> (Inl e, w) | (None, w) \<Rightarrow> (Inr intfs, w))"

definition Bridge_Add :: "outside \<Rightarrow> string \<Rightarrow> string \<Rightarrow> world \<Rightarrow> error option \<times> world" where
  "Bridge_Add out bridge slave w = net_call out (AddToBridge slave bridge) w"

text \<open>Creating a bridge tolerates that it, or its address, exists already.\<close>

definition file_exists :: "error option \<Rightarrow> bool" where
  "file_exists e \<longleftrightarrow> e = Some (External ''file exists'')"

definition Bridge_Create :: "outside \<Rightarrow> string \<Rightarrow> ip \<Rightarrow> ipnet \<Rightarrow> world \<Rightarrow> unit res \<times> world" where
  "Bridge_Create out name p subnet w =
     (case net_call out (LinkAdd name ''bridge'') w of (e1, w) \<Rightarrow>
      if e1 \<noteq> None \<and> \<not> file_exists e1 then (Err (Errorf ''devices: create bridge: '' (the e1)), w)
      else case net_call out (InterfaceByName name) w of
             (Some e, w) \<Rightarrow> (Err (Errorf ''devices: look up created bridge interface: '' e), w)
           | (None, w) \<Rightarrow>
               (case net_call out (LinkAddIp name p subnet) w of (e3, w) \<Rightarrow>
                if e3 \<noteq> None \<and> \<not> file_exists e3 then (Err (Errorf ''devices: add IP to bridge: '' (the e3)), w)
                else (Ok (), w)))"

definition Bridge_Destroy :: "outside \<Rightarrow> string \<Rightarrow> world \<Rightarrow> error option \<times> world" where
  "Bridge_Destroy out bridge w =
     (let intfs = o_interfaces out (trace w) in
      case net_call out Interfaces w of
        (Some e, w) \<Rightarrow> (Some e, w)
      | (None, w) \<Rightarrow> if bridge \<in> set intfs then net_call out (DeleteBridge bridge) w else (None, w))"

definition Veth_Create :: "outside \<Rightarrow> string \<Rightarrow> string \<Rightarrow> world \<Rightarrow> error option \<times> world" where
  "Veth_Create out hostIfcName containerIfcName w =
     (case net_call out (CreateVethPair hostIfcName containerIfcName) w of
        (Some e, w) \<Rightarrow> (Some (Errorf ''devices: create veth pair: '' e), w)
      | (None, w) \<Rightarrow>
          (case net_call out (InterfaceByName hostIfcName) w of
             (Some e, w) \<Rightarrow> (Some (Errorf ''devices: look up created host interface: '' e), w)
           | (None, w) \<Rightarrow>
               (case net_call out (InterfaceByName containerIfcName) w of
                  (Some e, w) \<Rightarrow> (Some (Errorf ''devices: look up created container interface: '' e), w)
                | (None, w) \<Rightarrow> (None, w))))"

section \<open>Errors\<close>

datatype network_error =
    VethPairCreationError error string string
  | MTUError error string int
  | SetNsFailedError error string int
  | BridgeDetectionError error string ip ipnet
  | AddToBridgeError error string string
  | LinkUpError error string string
  | FindLinkError "error option" string string
  | ConfigureLinkError error string string ip ipnet
  | ConfigureDefaultGWError error string ip
  | DeleteLinkError error string string
  | PlainError error

text \<open>
  The texts, over the text of the cause and the printed form of an interface. Two of them have an
  argument more than verbs, which the formatter appends in its own way.
\<close>

definition fmtErr :: "string \<Rightarrow> string" where
  "fmtErr msg = ''network: '' @ msg"

definition single_quoted :: "string \<Rightarrow> string" where
  "single_quoted s = CHR 0x27 # s @ [CHR 0x27]"

definition extra_arg :: "string \<Rightarrow> string" where
  "extra_arg a = ''%!(EXTRA *errors.errorString='' @ a @ '')''"

fun network_Error :: "(error \<Rightarrow> string) \<Rightarrow> (string \<Rightarrow> string) \<Rightarrow> network_error \<Rightarrow> string" where
  "network_Error txt intf (VethPairCreationError e h c) =
     fmtErr (''failed to create veth pair with host interface name '' @ single_quoted h @ '', container interface name '' @ single_quoted c @ '': '' @ txt e)"
| "network_Error txt intf (MTUError e i mtu) = fmtErr (''failed to set interface '' @ single_quoted (intf i) @ '' mtu to '' @ show_int mtu @ extra_arg (txt e))"
| "network_Error txt intf (SetNsFailedError e i pid) = fmtErr (''failed to move interface '' @ intf i @ '' in to pid namespace '' @ show_int pid @ '': '' @ txt e)"
| "network_Error txt intf (BridgeDetectionError e n p sn) =
     fmtErr (''failed to find bridge with name '' @ single_quoted n @ '', IP '' @ single_quoted (IP_String p) @ '', subnet '' @ single_quoted (IPNet_String sn) @ '': '' @ txt e)"
| "network_Error txt intf (AddToBridgeError e b s) = fmtErr (''failed to add slave '' @ s @ '' to bridge '' @ b @ '': '' @ txt e)"
| "network_Error txt intf (LinkUpError e l role) = fmtErr (''failed to bring '' @ role @ '' link '' @ l @ '' up: '' @ txt e)"
| "network_Error txt intf (FindLinkError e role n) = fmtErr (''failed to find '' @ role @ '' link with name '' @ n)"
| "network_Error txt intf (ConfigureLinkError e role i p sn) =
     fmtErr (''failed to configure '' @ role @ '' link ('' @ intf i @ '') to IP '' @ IP_String p @ '', subnet '' @ IPNet_String sn)"
| "network_Error txt intf (ConfigureDefaultGWError e i p) =
     fmtErr (''failed to set default gateway to IP '' @ IP_String p @ '' via device '' @ intf i @ extra_arg (txt e))"
| "network_Error txt intf (DeleteLinkError e role n) = fmtErr (''failed to delete '' @ role @ '' link named '' @ n @ '': '' @ txt e)"
| "network_Error txt intf (PlainError e) = txt e"

section \<open>Configuring\<close>

type_synonym net_result = "(network_error + unit) \<times> world"

text \<open>\<open>if err := f(); err != nil { return &SomeError{err, ...} }\<close>, and the rest.\<close>

fun net_step :: "error option \<times> world \<Rightarrow> (error \<Rightarrow> network_error) \<Rightarrow> (world \<Rightarrow> net_result) \<Rightarrow> net_result" where
  "net_step (None, w) wrap k = k w"
| "net_step (Some e, w) wrap k = (Inl (wrap e), w)"

record host_config =
  hc_HostIntf :: string
  hc_BridgeName :: string
  hc_BridgeIP :: ip
  hc_ContainerIntf :: string
  hc_ContainerPid :: int
  hc_Subnet :: ipnet
  hc_Mtu :: int

definition configureBridgeIntf :: "outside \<Rightarrow> string \<Rightarrow> ip \<Rightarrow> ipnet \<Rightarrow> world \<Rightarrow> net_result" where
  "configureBridgeIntf out name p subnet w =
     (case Link_InterfaceByName out name w of
        (Inr True, w) \<Rightarrow> net_step (Link_SetUp out name w) (\<lambda>e. LinkUpError e name ''bridge'') (\<lambda>w. (Inr (), w))
      | (_, w) \<Rightarrow> (Inl (BridgeDetectionError (ErrorNew ''look up existing bridge'') name p subnet), w))"

definition configureVethPair :: "outside \<Rightarrow> string \<Rightarrow> string \<Rightarrow> world \<Rightarrow> net_result" where
  "configureVethPair out hostName containerName w =
     net_step (Veth_Create out hostName containerName w) (\<lambda>e. VethPairCreationError e hostName containerName) (\<lambda>w. (Inr (), w))"

definition configureHostIntf :: "outside \<Rightarrow> string \<Rightarrow> string \<Rightarrow> int \<Rightarrow> world \<Rightarrow> net_result" where
  "configureHostIntf out intf bridge mtu w =
     net_step (Link_SetMTU out intf mtu w) (\<lambda>e. MTUError e intf mtu) (\<lambda>w.
     net_step (Bridge_Add out bridge intf w) (\<lambda>e. AddToBridgeError e bridge intf) (\<lambda>w.
     net_step (Link_SetUp out intf w) (\<lambda>e. LinkUpError e intf ''host'') (\<lambda>w. (Inr (), w))))"

fun net_then :: "net_result \<Rightarrow> (world \<Rightarrow> net_result) \<Rightarrow> net_result" where
  "net_then (Inr _, w) k = k w"
| "net_then (Inl e, w) k = (Inl e, w)"

definition ConfigureHost :: "outside \<Rightarrow> host_config \<Rightarrow> world \<Rightarrow> net_result" where
  "ConfigureHost out cfg w =
     net_then (configureBridgeIntf out (hc_BridgeName cfg) (hc_BridgeIP cfg) (hc_Subnet cfg) w) (\<lambda>w.
     net_then (configureVethPair out (hc_HostIntf cfg) (hc_ContainerIntf cfg) w) (\<lambda>w.
     net_then (configureHostIntf out (hc_HostIntf cfg) (hc_BridgeName cfg) (hc_Mtu cfg) w) (\<lambda>w.
     net_step (Link_SetNs out (hc_ContainerIntf cfg) (hc_ContainerPid cfg) w)
       (\<lambda>e. SetNsFailedError e (hc_ContainerIntf cfg) (hc_ContainerPid cfg)) (\<lambda>w. (Inr (), w)))))"

record container_config =
  cc_Hostname :: string
  cc_ContainerIntf :: string
  cc_ContainerIP :: ip
  cc_GatewayIP :: ip
  cc_Subnet :: ipnet
  cc_Mtu :: int

text \<open>Looking up an interface in the container: the error is the cause, if there is one.\<close>

definition find_link :: "outside \<Rightarrow> string \<Rightarrow> string \<Rightarrow> world \<Rightarrow> net_result" where
  "find_link out role name w =
     (case Link_InterfaceByName out name w of
        (Inr True, w) \<Rightarrow> (Inr (), w)
      | (Inr False, w) \<Rightarrow> (Inl (FindLinkError None role name), w)
      | (Inl e, w) \<Rightarrow> (Inl (FindLinkError (Some e) role name), w))"

definition loopback_ip :: ip where
  "loopback_ip = IP_To16 [127, 0, 0, 1]"

definition loopback_net :: ipnet where
  "loopback_net = \<lparr>net_IP = [127, 0, 0, 0], net_Mask = CIDRMask 8 32\<rparr>"

definition configureLoopbackIntf :: "outside \<Rightarrow> world \<Rightarrow> net_result" where
  "configureLoopbackIntf out w =
     net_then (find_link out ''loopback'' ''lo'' w) (\<lambda>w.
     net_step (Link_AddIP out ''lo'' loopback_ip loopback_net w) (\<lambda>e. ConfigureLinkError e ''loopback'' ''lo'' loopback_ip loopback_net) (\<lambda>w.
     net_step (Link_SetUp out ''lo'' w) (\<lambda>e. LinkUpError e ''lo'' ''loopback'') (\<lambda>w. (Inr (), w))))"

definition configureContainerIntf :: "outside \<Rightarrow> string \<Rightarrow> ip \<Rightarrow> ip \<Rightarrow> ipnet \<Rightarrow> int \<Rightarrow> world \<Rightarrow> net_result" where
  "configureContainerIntf out name p gatewayIP subnet mtu w =
     net_then (find_link out ''container'' name w) (\<lambda>w.
     net_step (Link_AddIP out name p subnet w) (\<lambda>e. ConfigureLinkError e ''container'' name p subnet) (\<lambda>w.
     net_step (Link_SetUp out name w) (\<lambda>e. LinkUpError e name ''container'') (\<lambda>w.
     net_step (Link_AddDefaultGW out name gatewayIP w) (\<lambda>e. ConfigureDefaultGWError e name gatewayIP) (\<lambda>w.
     net_step (Link_SetMTU out name mtu w) (\<lambda>e. MTUError e name mtu) (\<lambda>w. (Inr (), w))))))"

definition ConfigureContainer :: "outside \<Rightarrow> container_config \<Rightarrow> world \<Rightarrow> net_result" where
  "ConfigureContainer out cfg w =
     net_then (configureLoopbackIntf out w) (\<lambda>w.
     net_then (configureContainerIntf out (cc_ContainerIntf cfg) (cc_ContainerIP cfg) (cc_GatewayIP cfg) (cc_Subnet cfg) (cc_Mtu cfg) w) (\<lambda>w.
     net_step (net_call out (SetHostname (cc_Hostname cfg)) w) PlainError (\<lambda>w. (Inr (), w))))"

section \<open>The configuration file\<close>

text \<open>
  The variables that a script sees, from the entries of its command, and \<open>${k:-d}\<close>.
\<close>

definition script_env :: "cmd \<Rightarrow> (string \<rightharpoonup> string)" where
  "script_env c = map_of (map entry_of (cmd_env c))"

definition sh_default :: "(string \<rightharpoonup> string) \<Rightarrow> string \<Rightarrow> string \<Rightarrow> string" where
  "sh_default env k d = (case env k of None \<Rightarrow> d | Some v \<Rightarrow> if v = '''' then d else v)"

text \<open>
  \<open>tail -c n <<< id\<close> inside a command substitution: the last \<open>n\<close> bytes of the identifier and its final
  newline, without that newline. The prefix is shorter than fourteen characters: the server accepts
  tags of at most two.
\<close>

definition max_id_len :: "string \<Rightarrow> nat" where
  "max_id_len iface_name_prefix = 16 - length iface_name_prefix - 2"

definition iface_name :: "string \<Rightarrow> string \<Rightarrow> string" where
  "iface_name iface_name_prefix i =
     (let line = i @ [newline] in butlast (drop (length line - max_id_len iface_name_prefix) line))"

definition network_host_iface :: "string \<Rightarrow> string \<Rightarrow> string" where
  "network_host_iface prefix i = prefix @ iface_name prefix i @ ''-0''"

definition network_container_iface :: "string \<Rightarrow> string \<Rightarrow> string" where
  "network_container_iface prefix i = prefix @ iface_name prefix i @ ''-1''"

text \<open>The lines written; \<open>None\<close> when a variable without a default is not set. \<open>rootfs\<close> is the resolved path.\<close>

definition setup_config :: "(string \<rightharpoonup> string) \<Rightarrow> string \<Rightarrow> env option" where
  "setup_config env rootfs =
     (case (env ''GARDEN_NETWORK_INTERFACE_PREFIX'', env ''id'', env ''bridge_iface'', env ''external_ip'', env ''rootfs_path'') of
        (Some prefix, Some i, Some bridge, Some external, Some _) \<Rightarrow>
          Some [(''id'', sh_default env ''id'' ''test''),
            (''network_host_ip'', sh_default env ''network_host_ip'' ''10.0.0.1''),
            (''network_host_iface'', network_host_iface prefix i),
            (''network_container_ip'', sh_default env ''network_container_ip'' ''10.0.0.2''),
            (''network_container_iface'', network_container_iface prefix i),
            (''bridge_iface'', bridge),
            (''network_cidr_suffix'', sh_default env ''network_cidr_suffix'' ''30''),
            (''container_iface_mtu'', sh_default env ''container_iface_mtu'' ''1500''),
            (''network_cidr'', sh_default env ''network_cidr'' ''10.0.0.0/30''),
            (''root_uid'', sh_default env ''root_uid'' ''10000''),
            (''rootfs_path'', rootfs),
            (''external_ip'', external)]
      | _ \<Rightarrow> None)"

definition config_text :: "env \<Rightarrow> string" where
  "config_text conf = concat (map (\<lambda>kv. env_entry kv @ [newline]) conf)"

section \<open>Its readers\<close>

definition env_get :: "env \<Rightarrow> string \<Rightarrow> string" where
  "env_get env k = (case map_of env k of None \<Rightarrow> '''' | Some v \<Rightarrow> v)"

text \<open>
  The subnet and the size of packets, as both readers parse them; they differ in what they say about a
  subnet and a size that cannot be parsed.
\<close>

definition net_settings :: "(error \<Rightarrow> error) \<Rightarrow> (error \<Rightarrow> error) \<Rightarrow> env \<Rightarrow> (ipnet \<times> int) res" where
  "net_settings bad_cidr bad_mtu config =
     (case ParseCIDR (env_get config ''network_cidr'') of
        None \<Rightarrow> Err (bad_cidr (External ''invalid CIDR address''))
      | Some (_, ipNet) \<Rightarrow>
          (case parse_int0 (env_get config ''container_iface_mtu'') of
             None \<Rightarrow> Err (bad_mtu (External ''invalid syntax''))
           | Some mtu \<Rightarrow> Ok (ipNet, mtu)))"

definition host_config_of :: "env \<Rightarrow> string \<Rightarrow> host_config res" where
  "host_config_of config pid_var =
     res_bind (net_settings (\<lambda>e. e) (\<lambda>e. e) config) (\<lambda>(ipNet, mtu).
       case sscanf_int pid_var of
         None \<Rightarrow> Err (Errorf (''linux_backend: can'' @ [CHR 0x27] @ ''t parse PID string from ENV: '') (External ''expected integer''))
       | Some containerPid \<Rightarrow>
           Ok \<lparr>hc_HostIntf = env_get config ''network_host_iface'', hc_BridgeName = env_get config ''bridge_iface'',
             hc_BridgeIP = ParseIP (env_get config ''network_host_ip''), hc_ContainerIntf = env_get config ''network_container_iface'',
             hc_ContainerPid = containerPid, hc_Subnet = ipNet, hc_Mtu = mtu\<rparr>)"

definition container_config_of :: "env \<Rightarrow> container_config res" where
  "container_config_of env =
     res_bind (net_settings (Errorf ''initc: failed to parse network CIDR: '')
         (Errorf ''initc: failed to parse container interface MTU: '') env) (\<lambda>(ipNet, mtu).
       Ok \<lparr>cc_Hostname = env_get env ''id'', cc_ContainerIntf = env_get env ''network_container_iface'',
         cc_ContainerIP = ParseIP (env_get env ''network_container_ip''), cc_GatewayIP = ParseIP (env_get env ''network_host_ip''),
         cc_Subnet = ipNet, cc_Mtu = mtu\<rparr>)"

text \<open>The result of a configuration as an error value, by its text.\<close>

definition as_res :: "(network_error \<Rightarrow> string) \<Rightarrow> net_result \<Rightarrow> unit res \<times> world" where
  "as_res txt r = (case r of (Inl x, w) \<Rightarrow> (Err (ErrorNew (txt x)), w) | (Inr _, w) \<Rightarrow> (Ok (), w))"

definition configureHostNetwork :: "outside \<Rightarrow> (network_error \<Rightarrow> string) \<Rightarrow> env \<Rightarrow> string \<Rightarrow> world \<Rightarrow> unit res \<times> world" where
  "configureHostNetwork out txt config pid_var w =
     then_do (host_config_of config pid_var, w) (\<lambda>cfg w. as_res txt (ConfigureHost out cfg w))"

definition setupNetwork :: "outside \<Rightarrow> (network_error \<Rightarrow> string) \<Rightarrow> env \<Rightarrow> world \<Rightarrow> unit res \<times> world" where
  "setupNetwork out txt env w =
     then_do (container_config_of env, w) (\<lambda>cfg w.
       wrap_error ''initc: failed to configure container network: '' (as_res txt (ConfigureContainer out cfg w)))"

section \<open>Hooks\<close>

type_synonym hook_set = "(string \<times> (world \<Rightarrow> unit res \<times> world)) list"

definition Hook_Register :: "string \<Rightarrow> (world \<Rightarrow> unit res \<times> world) \<Rightarrow> hook_set \<Rightarrow> hook_set res" where
  "Hook_Register name fn h =
     (if map_of h name \<noteq> None then Panic (''hooks: already registered hook: '' @ name) else Ok ((name, fn) # h))"

definition Hook_Main :: "hook_set \<Rightarrow> string \<Rightarrow> world \<Rightarrow> unit res \<times> world" where
  "Hook_Main h phase w =
     (case map_of h phase of Some fn \<Rightarrow> fn w | None \<Rightarrow> (Panic (''hooks: no such hook: '' @ phase), w))"

fun must_hook :: "unit res \<times> world \<Rightarrow> unit res \<times> world" where
  "must_hook (Err e, w) = (Panic ''must'', w)"
| "must_hook r = r"

definition RegisterHooks :: "outside \<Rightarrow> (network_error \<Rightarrow> string) \<Rightarrow> env \<Rightarrow> string \<Rightarrow> hook_set \<Rightarrow> hook_set res" where
  "RegisterHooks out txt config pid_var hs =
     res_bind (Hook_Register ''parent-before-clone''
       (\<lambda>w. must_hook (run_cmd out (exec_Command ''./hook-parent-before-clone.sh'' []) w)) hs) (\<lambda>hs.
     Hook_Register ''parent-after-clone''
       (\<lambda>w. then_do (must_hook (run_cmd out (exec_Command ''./hook-parent-after-clone.sh'' []) w)) (\<lambda>_ w.
              must_hook (configureHostNetwork out txt config pid_var w))) hs)"

text \<open>The hook program, with its arguments and the value of \<open>PID\<close> in its environment.\<close>

definition hook_main :: "outside \<Rightarrow> (network_error \<Rightarrow> string) \<Rightarrow> string \<Rightarrow> string list \<Rightarrow> world \<Rightarrow> unit res \<times> world" where
  "hook_main out txt pid_var args w =
     (case EnvFromFile out ''../etc/config'' w of
        (Ok config, w) \<Rightarrow>
          then_do (RegisterHooks out txt config pid_var [], w) (\<lambda>hs w.
            case args of [] \<Rightarrow> (Panic ''index out of range'', w) | phase # _ \<Rightarrow> Hook_Main hs phase w)
      | (Err e, w) \<Rightarrow> (Panic ''error reading config file in hook'', w)
      | (Panic m, w) \<Rightarrow> (Panic m, w))"

section \<open>Configuring is running a plan\<close>

text \<open>
  A plan is a list of calls, each with the error that is returned when it fails. Both configurations
  run such a plan, up to its first failing call, when the interfaces that they look for exist.
\<close>

type_synonym plan = "(syscall \<times> (error \<Rightarrow> network_error)) list"

fun run_plan :: "outside \<Rightarrow> plan \<Rightarrow> world \<Rightarrow> net_result" where
  "run_plan out [] w = (Inr (), w)"
| "run_plan out ((c, wrap) # ps) w = net_step (net_call out c w) wrap (run_plan out ps)"

abbreviation device_error :: "(error \<Rightarrow> network_error) \<Rightarrow> error \<Rightarrow> network_error" where
  "device_error wrap e \<equiv> wrap (Errorf ''devices: '' e)"

definition host_plan :: "host_config \<Rightarrow> plan" where
  "host_plan cfg =
     (let h = hc_HostIntf cfg; c = hc_ContainerIntf cfg; b = hc_BridgeName cfg;
          veth = (\<lambda>what e. VethPairCreationError (Errorf (''devices: '' @ what) e) h c) in
      [(Interfaces, \<lambda>_. BridgeDetectionError (ErrorNew ''look up existing bridge'') b (hc_BridgeIP cfg) (hc_Subnet cfg)),
       (LinkUp b, device_error (\<lambda>e. LinkUpError e b ''bridge'')),
       (CreateVethPair h c, veth ''create veth pair: ''),
       (InterfaceByName h, veth ''look up created host interface: ''),
       (InterfaceByName c, veth ''look up created container interface: ''),
       (LinkSetMTU h (hc_Mtu cfg), device_error (\<lambda>e. MTUError e h (hc_Mtu cfg))),
       (AddToBridge h b, \<lambda>e. AddToBridgeError e b h),
       (LinkUp h, device_error (\<lambda>e. LinkUpError e h ''host'')),
       (LinkSetNsPid c (hc_ContainerPid cfg), device_error (\<lambda>e. SetNsFailedError e c (hc_ContainerPid cfg)))])"

definition container_plan :: "container_config \<Rightarrow> plan" where
  "container_plan cfg =
     (let c = cc_ContainerIntf cfg; p = cc_ContainerIP cfg; gw = cc_GatewayIP cfg; sn = cc_Subnet cfg in
      [(Interfaces, device_error (\<lambda>e. FindLinkError (Some e) ''loopback'' ''lo'')),
       (LinkAddIp ''lo'' loopback_ip loopback_net, device_error (\<lambda>e. ConfigureLinkError e ''loopback'' ''lo'' loopback_ip loopback_net)),
       (LinkUp ''lo'', device_error (\<lambda>e. LinkUpError e ''lo'' ''loopback'')),
       (Interfaces, device_error (\<lambda>e. FindLinkError (Some e) ''container'' c)),
       (LinkAddIp c p sn, device_error (\<lambda>e. ConfigureLinkError e ''container'' c p sn)),
       (LinkUp c, device_error (\<lambda>e. LinkUpError e c ''container'')),
       (AddDefaultGw (IP_String gw) c, device_error (\<lambda>e. ConfigureDefaultGWError e c gw)),
       (LinkSetMTU c (cc_Mtu cfg), device_error (\<lambda>e. MTUError e c (cc_Mtu cfg))),
       (SetHostname (cc_Hostname cfg), PlainError)])"

lemma run_plan_fun:
  "run_plan out [] = (\<lambda>w. (Inr (), w))"
  "run_plan out ((c, wrap) # ps) = (\<lambda>w. net_step (net_call out c w) wrap (run_plan out ps))"
  by (rule ext, simp)+

lemma net_step_errF: "net_step (apfst errF r) wrap k = net_step r (device_error wrap) k"
  by (cases r; cases "fst r") (auto simp: errF_def)

lemma net_then_step: "net_then (net_step r wrap k) k' = net_step r wrap (\<lambda>w. net_then (k w) k')"
  by (cases r; cases "fst r") auto

lemma net_then_assoc: "net_then (net_then r k) k' = net_then r (\<lambda>w. net_then (k w) k')"
  by (cases r; cases "fst r") auto

lemma configureBridgeIntf_found:
  assumes "name \<in> set (o_interfaces out (trace w))"
  shows "configureBridgeIntf out name p sn w =
    net_step (net_call out Interfaces w) (\<lambda>_. BridgeDetectionError (ErrorNew ''look up existing bridge'') name p sn) (\<lambda>w.
    net_step (Link_SetUp out name w) (\<lambda>e. LinkUpError e name ''bridge'') (\<lambda>w. (Inr (), w)))"
  using assms
  by (cases "net_call out Interfaces w"; cases "fst (net_call out Interfaces w)")
    (auto simp: configureBridgeIntf_def Link_InterfaceByName_def errF_def)

lemma find_link_found:
  assumes "name \<in> set (o_interfaces out (trace w))"
  shows "find_link out role name w =
    net_step (net_call out Interfaces w) (device_error (\<lambda>e. FindLinkError (Some e) role name)) (\<lambda>w. (Inr (), w))"
  using assms
  by (cases "net_call out Interfaces w"; cases "fst (net_call out Interfaces w)")
    (auto simp: find_link_def Link_InterfaceByName_def errF_def)

lemma Veth_Create_steps:
  "net_step (Veth_Create out h c w) wrap k =
     net_step (net_call out (CreateVethPair h c) w) (\<lambda>e. wrap (Errorf ''devices: create veth pair: '' e)) (\<lambda>w.
     net_step (net_call out (InterfaceByName h) w) (\<lambda>e. wrap (Errorf ''devices: look up created host interface: '' e)) (\<lambda>w.
     net_step (net_call out (InterfaceByName c) w) (\<lambda>e. wrap (Errorf ''devices: look up created container interface: '' e)) k))"
  by (auto simp: Veth_Create_def net_call_def split: option.splits)

lemmas configure_defs = configureVethPair_def configureHostIntf_def Link_SetUp_def Link_SetMTU_def Link_SetNs_def
  Link_AddIP_def Link_AddDefaultGW_def Bridge_Add_def configureLoopbackIntf_def configureContainerIntf_def

lemma ConfigureHost_plan:
  assumes "hc_BridgeName cfg \<in> set (o_interfaces out (trace w))"
  shows "ConfigureHost out cfg w = run_plan out (host_plan cfg) w"
  by (simp add: ConfigureHost_def configureBridgeIntf_found [OF assms] host_plan_def Let_def configure_defs
      net_then_step net_then_assoc net_step_errF Veth_Create_steps run_plan_fun)

lemma ConfigureContainer_plan:
  assumes "\<And>t. {''lo'', cc_ContainerIntf cfg} \<subseteq> set (o_interfaces out t)"
  shows "ConfigureContainer out cfg w = run_plan out (container_plan cfg) w"
proof -
  have "find_link out role name w =
      net_step (net_call out Interfaces w) (device_error (\<lambda>e. FindLinkError (Some e) role name)) (\<lambda>w. (Inr (), w))"
    if "name \<in> {''lo'', cc_ContainerIntf cfg}" for role name w
    using assms [of "trace w"] that by (intro find_link_found) blast
  then show ?thesis
    by (simp add: ConfigureContainer_def container_plan_def Let_def configure_defs net_then_step net_then_assoc net_step_errF
        run_plan_fun)
qed

lemma run_plan_prefix:
  assumes "run_plan out ps w = (r, w')"
  shows "\<exists>n\<le>length ps. trace w' = trace w @ map (Sys \<circ> fst) (take n ps)
    \<and> (case r of
         Inr _ \<Rightarrow> n = length ps
       | Inl x \<Rightarrow> 0 < n \<and> (\<exists>e. o_err out (trace w @ map (Sys \<circ> fst) (take (n - 1) ps)) (Sys (fst (ps ! (n - 1)))) = Some e
                              \<and> x = snd (ps ! (n - 1)) e))"
  using assms
proof (induction ps arbitrary: w)
  case (Cons p ps)
  obtain c wrap where p: "p = (c, wrap)" by (cases p)
  show ?case
  proof (cases "o_err out (trace w) (Sys c)")
    case None
    with Cons.prems p have "run_plan out ps (snd (sys out c w)) = (r, w')" by (simp add: net_call_def)
    from Cons.IH [OF this, unfolded sys_trace append_assoc] obtain n where n: "n \<le> length ps" "trace w' = trace w @ [Sys c] @ map (Sys \<circ> fst) (take n ps)"
      "case r of Inr _ \<Rightarrow> n = length ps
       | Inl x \<Rightarrow> 0 < n \<and> (\<exists>e. o_err out (trace w @ [Sys c] @ map (Sys \<circ> fst) (take (n - 1) ps)) (Sys (fst (ps ! (n - 1)))) = Some e
                              \<and> x = snd (ps ! (n - 1)) e)"
      by blast
    then show ?thesis unfolding p
      by (intro exI [of _ "Suc n"]) (cases n; auto split: sum.splits)
  next
    case (Some e)
    with Cons.prems p show ?thesis by (intro exI [of _ 1]) (auto simp: net_call_def)
  qed
qed auto

section \<open>The configuration file is read as it was written\<close>

lemma script_env_Env_Array:
  assumes "env_ok env"
  shows "map_of (map entry_of (Env_Array env)) = map_of env"
proof -
  have k: "\<forall>kv\<in>set env. CHR ''='' \<notin> set (fst kv)" using assms by (auto simp: env_ok_def)
  have "mset (map entry_of (Env_Array env)) = mset (map (entry_of \<circ> env_entry) env)"
    by (simp add: Env_Array_def multiset.map_comp)
  also have "map (entry_of \<circ> env_entry) env = env" using k by (simp add: map_idI entry_of_env_entry)
  finally have "mset env = mset (map entry_of (Env_Array env))" by simp
  with assms map_of_permuted [of env "map entry_of (Env_Array env)"] show ?thesis by (simp add: env_ok_def)
qed

lemma config_text_join: "conf \<noteq> [] \<Longrightarrow> config_text conf = join [newline] (map env_entry conf) @ [newline]"
proof (induction conf)
  case (Cons kv conf)
  then show ?case by (cases conf) (auto simp: config_text_def)
qed simp

lemma trim_space_line:
  assumes "s \<noteq> ''''" and "\<not> is_space (hd s)" and "\<not> is_space (last s)"
  shows "trim_space (s @ [newline]) = s"
proof -
  from assms(1,2) have "dropWhile is_space (s @ [newline]) = s @ [newline]" by (cases s) auto
  moreover have "is_space newline" by (simp add: is_space_def)
  moreover from assms(1,3) have "dropWhile is_space (rev s) = rev s" by (cases s rule: rev_cases) auto
  ultimately show ?thesis by (simp add: trim_space_def trim_by_def)
qed

lemma join_ends: "xs \<noteq> [] \<Longrightarrow> last xs \<noteq> [] \<Longrightarrow> last (join sep xs) = last (last xs)"
  "xs \<noteq> [] \<Longrightarrow> hd xs \<noteq> [] \<Longrightarrow> hd (join sep xs) = hd (hd xs)"
  "xs \<noteq> [] \<Longrightarrow> hd xs \<noteq> [] \<Longrightarrow> join sep xs \<noteq> []"
proof -
  show "xs \<noteq> [] \<Longrightarrow> hd xs \<noteq> [] \<Longrightarrow> hd (join sep xs) = hd (hd xs)"
    "xs \<noteq> [] \<Longrightarrow> hd xs \<noteq> [] \<Longrightarrow> join sep xs \<noteq> []"
    by (cases "(sep, xs)" rule: join.cases; auto)+
  have "xs \<noteq> [] \<Longrightarrow> last xs \<noteq> [] \<Longrightarrow> join sep xs \<noteq> [] \<and> last (join sep xs) = last (last xs)"
    by (induction sep xs rule: join.induct) auto
  then show "xs \<noteq> [] \<Longrightarrow> last xs \<noteq> [] \<Longrightarrow> last (join sep xs) = last (last xs)" by blast
qed

lemma EnvFromFile_config:
  assumes ok: "env_ok conf" and ne: "conf \<noteq> []" and nl: "\<forall>kv\<in>set conf. newline \<notin> set (fst kv) \<and> newline \<notin> set (snd kv)"
    and ends: "\<not> is_space (hd (fst (hd conf)))" "snd (last conf) \<noteq> ''''" "\<not> is_space (last (snd (last conf)))"
    and f: "map_of (files w) p = Some (config_text conf)" "o_err out (trace w) (ReadFile p) = None"
  shows "\<exists>env w'. EnvFromFile out p w = (Ok env, w') \<and> map_of env = map_of conf"
proof -
  let ?ls = "map env_entry conf"
  have k: "\<forall>kv\<in>set conf. fst kv \<noteq> '''' \<and> CHR ''='' \<notin> set (fst kv)" "distinct (map fst conf)"
    using ok by (auto simp: env_ok_def)
  have lines: "?ls \<noteq> []" "hd ?ls \<noteq> []" "last ?ls \<noteq> []" using ne by (auto simp: env_entry_def last_map hd_map)
  have "hd (hd ?ls) = hd (fst (hd conf))" "last (last ?ls) = last (snd (last conf))"
    using ne k(1) ends(2) by (auto simp: env_entry_def last_map hd_map)
  then have trim: "trim_space (config_text conf) = join [newline] ?ls"
    using lines ends join_ends [of ?ls "[newline]"] by (simp add: config_text_join [OF ne] trim_space_line)
  have "newline \<notin> set l" if "l \<in> set ?ls" for l using that nl by (fastforce simp: env_entry_def)
  then have split: "split_on newline (trim_space (config_text conf)) = ?ls"
    unfolding trim using lines by (intro split_on_join) auto
  have "filter (\<lambda>l. l \<noteq> '''') ?ls = ?ls" by (auto simp: env_entry_def filter_id_conv)
  with f split have read: "EnvFromFile out p w = (NewEnv ?ls, w\<lparr>trace := trace w @ [ReadFile p]\<rparr>)"
    by (simp add: EnvFromFile_def read_file_def)
  have "find (\<lambda>s. \<not> well_formed_entry s) ?ls = None"
    using k(1) by (auto simp: find_None_iff well_formed_key entry_of_env_entry) (simp add: env_entry_def)
  moreover have "map entry_of ?ls = conf" using k(1) by (simp add: map_idI entry_of_env_entry)
  ultimately have "NewEnv ?ls = Ok (fold (\<lambda>kv. AList.update (fst kv) (snd kv)) conf [])"
    by (simp add: NewEnv_def NewEnv_loop_eq)
  moreover have "map_of (rev conf) = map_of conf" using k(2) by (intro map_of_permuted) (simp_all add: rev_map [symmetric])
  ultimately show ?thesis unfolding read by (auto simp: map_of_fold_update)
qed

lemma IP_String_line:
  assumes "is_v4 p"
  shows "newline \<notin> set (IP_String p)" and "IP_String p \<noteq> ''''" and "\<not> is_space (last (IP_String p))"
proof -
  from length_To4 [OF assms] obtain a b c d where p: "IP_To4 p = [a, b, c, d]" by (rule length_4_cases)
  have s: "IP_String p = show_word a @ ''.'' @ show_word b @ ''.'' @ show_word c @ ''.'' @ show_word d"
    by (simp add: IP_String_v4 [OF assms] p v4_string_def)
  have "is_digit (last (show_nat n))" for n using show_nat_digits [of n] by simp
  then show "newline \<notin> set (IP_String p)" "IP_String p \<noteq> ''''" "\<not> is_space (last (IP_String p))"
    unfolding s using not_space_digit by (simp_all add: show_word_def show_nat_no_char is_digit_cases)
qed

lemma IPNet_String_line:
  assumes "v4_net n k"
  shows "newline \<notin> set (IPNet_String n)" and "IPNet_String n \<noteq> ''''"
proof -
  have l: "length (net_IP n) = 4" using assms by (simp add: v4_net_def)
  have "newline \<notin> set (v4_string (net_IP n))" using IP_String_line(1) [of "net_IP n"] l by (simp add: IP_String_v4)
  then show "newline \<notin> set (IPNet_String n)" "IPNet_String n \<noteq> ''''"
    by (simp_all add: IPNet_String_v4 [OF assms] show_nat_no_char is_digit_cases)
qed

lemma iface_name_eq:
  assumes "length prefix < 14"
  shows "iface_name prefix i = drop (Suc (length i) - max_id_len prefix) i"
proof -
  have "Suc (length i) - max_id_len prefix \<le> length i" using assms by (simp add: max_id_len_def)
  then show ?thesis by (simp add: iface_name_def Let_def)
qed

lemma iface_line: "length prefix < 14 \<Longrightarrow> newline \<notin> set i \<Longrightarrow> newline \<notin> set (iface_name prefix i)"
  by (auto simp: iface_name_eq dest: in_set_dropD)

text \<open>The variables of the set-up script: those of the creating command, and those of the server.\<close>

definition create_vars :: "outside \<Rightarrow> pool_config \<Rightarrow> string \<Rightarrow> string \<Rightarrow> resources \<Rightarrow> network \<Rightarrow> ip \<Rightarrow> env" where
  "create_vars out cfg i rootFSPath r n gateway =
     [(''id'', i), (''rootfs_path'', rootFSPath), (''network_host_ip'', IP_String gateway),
      (''network_container_ip'', IP_String (IP n)), (''network_cidr_suffix'', show_nat (fst (Mask_Size (net_Mask (Subnet n))))),
      (''network_cidr'', IPNet_String (Subnet n)), (''external_ip'', IP_String (rp_externalIP cfg)),
      (''container_iface_mtu'', show_int (rp_mtu cfg)), (''bridge_iface'', res_Bridge r),
      (''root_uid'', show_nat (nat (res_RootUID r mod 2 ^ 64))), (''PATH'', o_getenv out ''PATH'')]"

lemma script_env_create:
  "script_env (withEnv environ c (create_cmd out cfg i rootFSPath r n gateway)) =
     map_of (Environ c) ++ map_of (create_vars out cfg i rootFSPath r n gateway)"
proof -
  have "env_ok (create_vars out cfg i rootFSPath r n gateway)" by (simp add: env_ok_def create_vars_def)
  moreover have "cmd_env (create_cmd out cfg i rootFSPath r n gateway) = Env_Array (create_vars out cfg i rootFSPath r n gateway)"
    by (simp add: create_cmd_def create_vars_def)
  moreover have "Env_Array (create_vars out cfg i rootFSPath r n gateway) \<noteq> []"
    by (simp add: Env_Array_def create_vars_def flip: length_0_conv)
  ultimately show ?thesis by (simp add: script_env_def withEnv_def script_env_Env_Array Environ_ok)
qed

section \<open>Properties\<close>

text \<open>What the two sides have to be told about a container's network.\<close>

definition intended_host :: "string \<Rightarrow> pool_config \<Rightarrow> string \<Rightarrow> resources \<Rightarrow> network \<Rightarrow> ip \<Rightarrow> int \<Rightarrow> host_config" where
  "intended_host prefix cfg i r n gateway pid =
     \<lparr>hc_HostIntf = network_host_iface prefix i, hc_BridgeName = res_Bridge r, hc_BridgeIP = IP_To16 gateway,
      hc_ContainerIntf = network_container_iface prefix i, hc_ContainerPid = pid, hc_Subnet = Subnet n, hc_Mtu = rp_mtu cfg\<rparr>"

definition intended_container :: "string \<Rightarrow> pool_config \<Rightarrow> string \<Rightarrow> network \<Rightarrow> ip \<Rightarrow> container_config" where
  "intended_container prefix cfg i n gateway =
     \<lparr>cc_Hostname = i, cc_ContainerIntf = network_container_iface prefix i, cc_ContainerIP = IP_To16 (IP n),
      cc_GatewayIP = IP_To16 gateway, cc_Subnet = Subnet n, cc_Mtu = rp_mtu cfg\<rparr>"

text \<open>
  C10. The network that the pool has given to a container is the one that is configured. The
  creating command passes the addresses as text, the set-up script writes them to the configuration
  file, and the hook on the host and the first process of the container parse them: both get the
  subnet, the addresses, the packet size and the pid unchanged, and they agree on the interface that
  moves into the container.
\<close>

theorem network_reaches_container:
  assumes net: "v4_net (Subnet n) k" "is_v4 (IP n)" "GatewayIP (Subnet n) = Ok g" "is_v4 (rp_externalIP cfg)"
    and ints: "0 \<le> rp_mtu cfg" "rp_mtu cfg < 2 ^ 63" "0 \<le> pid" "pid < 2 ^ 63"
    and tag: "length tag \<le> 2" and i: "i \<noteq> ''''"
    and nl: "newline \<notin> set i" "newline \<notin> set tag" "newline \<notin> set (res_Bridge r)" "newline \<notin> set rootfs"
  shows "\<exists>conf. setup_config (script_env (withEnv environ (NewConfig tag allow) (create_cmd out cfg i rootFSPath r n g))) rootfs = Some conf
    \<and> (\<forall>w p. map_of (files w) p = Some (config_text conf) \<and> o_err out (trace w) (ReadFile p) = None \<longrightarrow>
        (\<exists>env w'. EnvFromFile out p w = (Ok env, w')
          \<and> host_config_of env (show_int pid) = Ok (intended_host (''w'' @ tag) cfg i r n g pid)
          \<and> container_config_of env = Ok (intended_container (''w'' @ tag) cfg i n g)))"
proof -
  let ?mtu = "show_nat (nat (rp_mtu cfg))"
  have g: "is_v4 g" using GatewayIP_v4 [OF net(1,3)] by simp
  have mtu: "show_int (rp_mtu cfg) = ?mtu" and pid: "show_int pid = show_nat (nat pid)" using ints by (simp_all add: show_int_def)
  define conf where "conf = [(''id'', i), (''network_host_ip'', IP_String g), (''network_host_iface'', network_host_iface (''w'' @ tag) i),
    (''network_container_ip'', IP_String (IP n)), (''network_container_iface'', network_container_iface (''w'' @ tag) i),
    (''bridge_iface'', res_Bridge r), (''network_cidr_suffix'', show_nat (fst (Mask_Size (net_Mask (Subnet n))))),
    (''container_iface_mtu'', ?mtu), (''network_cidr'', IPNet_String (Subnet n)),
    (''root_uid'', show_nat (nat (res_RootUID r mod 2 ^ 64))), (''rootfs_path'', rootfs), (''external_ip'', IP_String (rp_externalIP cfg))]"
  have written: "setup_config (script_env (withEnv environ (NewConfig tag allow) (create_cmd out cfg i rootFSPath r n g))) rootfs = Some conf"
    using i IP_String_line(2) [OF g] IP_String_line(2) [OF net(2)] IPNet_String_line(2) [OF net(1)]
    by (simp add: script_env_create setup_config_def sh_default_def create_vars_def Environ_def NewConfig_def conf_def map_add_def mtu)
  have read: "\<exists>env w'. EnvFromFile out p w = (Ok env, w') \<and> map_of env = map_of conf"
    if "map_of (files w) p = Some (config_text conf)" "o_err out (trace w) (ReadFile p) = None" for w p
  proof (rule EnvFromFile_config [OF _ _ _ _ _ _ that])
    show "env_ok conf" by (simp add: env_ok_def conf_def)
    have "length (''w'' @ tag) < 14" using tag by simp
    note iface = iface_line [OF this nl(1)]
    show "\<forall>kv\<in>set conf. newline \<notin> set (fst kv) \<and> newline \<notin> set (snd kv)"
      using nl iface IP_String_line(1) [OF g] IP_String_line(1) [OF net(2)] IP_String_line(1) [OF net(4)] IPNet_String_line(1) [OF net(1)]
      by (simp add: conf_def network_host_iface_def network_container_iface_def show_nat_no_char is_digit_cases)
    show "snd (last conf) \<noteq> ''''" "\<not> is_space (last (snd (last conf)))" using IP_String_line(2,3) [OF net(4)] by (simp_all add: conf_def)
  qed (simp_all add: conf_def is_space_def)
  have parsed: "host_config_of env (show_int pid) = Ok (intended_host (''w'' @ tag) cfg i r n g pid)
      \<and> container_config_of env = Ok (intended_container (''w'' @ tag) cfg i n g)"
    if "map_of env = map_of conf" for env
  proof -
    have get: "env_get env ''network_cidr'' = IPNet_String (Subnet n)" "env_get env ''container_iface_mtu'' = ?mtu"
      "env_get env ''network_host_iface'' = network_host_iface (''w'' @ tag) i" "env_get env ''bridge_iface'' = res_Bridge r"
      "env_get env ''network_host_ip'' = IP_String g" "env_get env ''network_container_ip'' = IP_String (IP n)"
      "env_get env ''network_container_iface'' = network_container_iface (''w'' @ tag) i" "env_get env ''id'' = i"
      by (simp_all add: env_get_def that conf_def)
    have "nat (rp_mtu cfg) < 2 ^ 63" "nat pid < 2 ^ 63" using ints by (simp_all add: nat_less_iff)
    then have nums: "parse_int0 ?mtu = Some (rp_mtu cfg)" "sscanf_int (show_int pid) = Some pid"
      using ints(1,3) parse_int0_show_nat sscanf_int_show_nat [of "nat pid" "[]"] unfolding pid by simp_all
    show ?thesis
      unfolding host_config_of_def container_config_of_def net_settings_def get nums ParseCIDR_String [OF net(1)]
        ParseIP_String [OF g] ParseIP_String [OF net(2)] intended_host_def intended_container_def by simp
  qed
  from written read parsed show ?thesis by (intro exI [of _ conf]) metis
qed

definition example_network :: network where
  "example_network = \<lparr>Subnet = example_net 4, IP = [10, 254, 0, 6]\<rparr>"

definition example_resources :: resources where
  "example_resources = NewResources 600000 (Some example_network) ''w1b-0'' [] [1, 2, 3, 4]"

theorem network_reaches_container_witness:
  "\<exists>conf env w' hc cc.
     setup_config (script_env (withEnv [] (NewConfig ''1'' True)
       (create_cmd quiet example_pool_config ''abc'' ''/rootfs'' example_resources example_network [10, 254, 0, 5]))) ''/rootfs'' = Some conf
     \<and> EnvFromFile quiet ''config'' (empty_world\<lparr>files := [(''config'', config_text conf)]\<rparr>) = (Ok env, w')
     \<and> host_config_of env (show_int 42) = Ok hc \<and> hc_HostIntf hc = ''w1abc-0'' \<and> hc_ContainerPid hc = 42 \<and> hc_Subnet hc = example_net 4
     \<and> container_config_of env = Ok cc \<and> cc_ContainerIntf cc = hc_ContainerIntf hc \<and> cc_Mtu cc = 1500"
proof -
  have g: "GatewayIP (Subnet example_network) = Ok [10, 254, 0, 5]" by code_simp
  have n: "v4_net (Subnet example_network) 30" using example_net_v4 [of 4] by (simp add: example_network_def)
  have iface: "network_host_iface ''w1'' ''abc'' = ''w1abc-0''" by code_simp
  have "is_v4 (IP example_network)" "is_v4 (rp_externalIP example_pool_config)" "0 \<le> rp_mtu example_pool_config"
    "rp_mtu example_pool_config < 2 ^ 63" "newline \<notin> set (res_Bridge example_resources)"
    by (simp_all add: example_network_def example_pool_config_def example_resources_def NewResources_def)
  then obtain conf where
    "setup_config (script_env (withEnv [] (NewConfig ''1'' True)
       (create_cmd quiet example_pool_config ''abc'' ''/rootfs'' example_resources example_network [10, 254, 0, 5]))) ''/rootfs'' = Some conf"
    "\<forall>w p. map_of (files w) p = Some (config_text conf) \<and> o_err quiet (trace w) (ReadFile p) = None \<longrightarrow>
        (\<exists>env w'. EnvFromFile quiet p w = (Ok env, w')
          \<and> host_config_of env (show_int 42) = Ok (intended_host (''w'' @ ''1'') example_pool_config ''abc'' example_resources example_network [10, 254, 0, 5] 42)
          \<and> container_config_of env = Ok (intended_container (''w'' @ ''1'') example_pool_config ''abc'' example_network [10, 254, 0, 5]))"
    using network_reaches_container [OF n _ g, where cfg = example_pool_config and pid = 42 and tag = "''1''" and i = "''abc''"
        and r = example_resources and rootfs = "''/rootfs''" and environ = "[]" and allow = True and out = quiet and rootFSPath = "''/rootfs''"]
    by auto
  moreover have "map_of (files (empty_world\<lparr>files := [(''config'', config_text conf)]\<rparr>)) ''config'' = Some (config_text conf)"
    "o_err quiet t e = None" for t e by (simp_all add: quiet_def)
  ultimately obtain env w' where
    "EnvFromFile quiet ''config'' (empty_world\<lparr>files := [(''config'', config_text conf)]\<rparr>) = (Ok env, w')"
    "host_config_of env (show_int 42) = Ok (intended_host (''w'' @ ''1'') example_pool_config ''abc'' example_resources example_network [10, 254, 0, 5] 42)"
    "container_config_of env = Ok (intended_container (''w'' @ ''1'') example_pool_config ''abc'' example_network [10, 254, 0, 5])"
    by meson
  with \<open>setup_config _ _ = Some conf\<close> show ?thesis
    by (intro exI conjI) (assumption | simp add: iface intended_host_def intended_container_def example_network_def example_pool_config_def)+
qed


definition one_bridge :: outside where
  "one_bridge = quiet\<lparr>o_interfaces := \<lambda>_. [''lo'', ''w1b-0'', ''w1abc-1''],
     o_err := \<lambda>_ e. case e of Sys (AddToBridge _ _) \<Rightarrow> Some (External ''busy'') | _ \<Rightarrow> None\<rparr>"

definition demo_host_config :: host_config where
  "demo_host_config = \<lparr>hc_HostIntf = ''w1abc-0'', hc_BridgeName = ''w1b-0'', hc_BridgeIP = [10, 254, 0, 5], hc_ContainerIntf = ''w1abc-1'',
     hc_ContainerPid = 42, hc_Subnet = example_net 4, hc_Mtu = 1500\<rparr>"

definition demo_container_config :: container_config where
  "demo_container_config = \<lparr>cc_Hostname = ''abc'', cc_ContainerIntf = ''w1abc-1'', cc_ContainerIP = [10, 254, 0, 6], cc_GatewayIP = [10, 254, 0, 5],
     cc_Subnet = example_net 4, cc_Mtu = 1500\<rparr>"


text \<open>
  C40. The interfaces of two containers of a server never have the same name, as long as fewer than
  \<open>2 ^ 50\<close> containers are created between them: with a tag of two characters only the last ten of the
  eleven digits of the identifier fit into a name. The names are short enough for the kernel, and
  a host's end is never named like a container's end.
\<close>

theorem interface_names_distinct:
  assumes "length tag \<le> 2" and "i < 2 ^ 50" and "j < 2 ^ 50" and "i \<noteq> j"
  shows "network_host_iface (''w'' @ tag) (name_digits 11 (now + of_nat i)) \<noteq> network_host_iface (''w'' @ tag) (name_digits 11 (now + of_nat j))
    \<and> network_container_iface (''w'' @ tag) (name_digits 11 (now + of_nat i)) \<noteq> network_container_iface (''w'' @ tag) (name_digits 11 (now + of_nat j))
    \<and> network_host_iface (''w'' @ tag) a \<noteq> network_container_iface (''w'' @ tag) b
    \<and> length (network_host_iface (''w'' @ tag) a) \<le> 15 \<and> length (network_container_iface (''w'' @ tag) a) \<le> 15"
proof -
  let ?p = "''w'' @ tag"
  have p: "length ?p < 14" using assms(1) by simp
  have "iface_name ?p (name_digits 11 (now + of_nat i)) \<noteq> iface_name ?p (name_digits 11 (now + of_nat j))"
  proof
    assume eq: "iface_name ?p (name_digits 11 (now + of_nat i)) = iface_name ?p (name_digits 11 (now + of_nat j))"
    let ?d = "12 - max_id_len ?p"
    have d: "?d \<le> 1" using assms(1) by (simp add: max_id_len_def)
    from eq have drop: "drop ?d (name_digits 11 (now + of_nat i)) = drop ?d (name_digits 11 (now + of_nat j))"
      by (simp only: iface_name_eq [OF p]) (simp add: name_digits_def)
    have digit: "digit5 (now + of_nat i) x = digit5 (now + of_nat j) x" if "1 \<le> x" "x < 11" for x
    proof -
      have "drop ?d (name_digits 11 (now + of_nat i)) ! (x - ?d) = drop ?d (name_digits 11 (now + of_nat j)) ! (x - ?d)" by (simp only: drop)
      moreover have "?d \<le> x" using d that by linarith
      ultimately show ?thesis using that by (simp add: name_digits_def)
    qed
    have "bit (now + of_nat i) b = bit (now + of_nat j) b" if "b < 50" for b
    proof -
      define x where "x = 10 - b div 5"
      have x: "1 \<le> x" "x < 11" "50 - 5 * x + b mod 5 = b" unfolding x_def using that by presburger+
      from digit [OF x(1,2)] digit5_eq_iff [OF x(2)] have "bit (now + of_nat i) (50 - 5 * x + b mod 5) = bit (now + of_nat j) (50 - 5 * x + b mod 5)"
        by (metis mod_less_divisor zero_less_numeral)
      then show ?thesis by (simp only: x(3))
    qed
    with low_bits_differ [of 50 i j now] assms show False by simp
  qed
  moreover have "length (iface_name ?p a) \<le> 12 - length tag" using assms(1) by (simp only: iface_name_eq [OF p]) (simp add: max_id_len_def)
  then have "length (network_host_iface ?p a) \<le> 15" "length (network_container_iface ?p a) \<le> 15"
    using assms(1) by (simp_all add: network_host_iface_def network_container_iface_def)
  moreover have "network_host_iface ?p a \<noteq> network_container_iface ?p b"
    using arg_cong [of "network_host_iface ?p a" "network_container_iface ?p b" last] by (auto simp: network_host_iface_def network_container_iface_def)
  ultimately show ?thesis by (simp add: network_host_iface_def network_container_iface_def)
qed

theorem interface_names_distinct_witness:
  "network_host_iface ''w12'' (name_digits 11 1447574400000000001) \<noteq> network_host_iface ''w12'' (name_digits 11 1447574400000000002)"
  using interface_names_distinct [of "''12''" 1 2 1447574400000000000] by simp

end
