(* ===== verification/Spec2Isabelle.thy ===== *)
theory Spec2Isabelle
  imports Port_Pool Subnets Process_Env Bridge_Mgr Iptables Sysconfig Iptables_Mgr
    Cgroups Bandwidth Process_Tracker Container_Spec Metrics Container_Props Pool_Restore Backend_Props Proc_Start Daemon Net_Config
begin

text \<open>
  Garden Linux: a server that creates containers on a Linux host, runs processes in them, limits
  and measures them, and restores them after a restart. This library models the server's components
  and the programs that it runs inside a container, and proves what makes each of them correct. File
  names below are relative to \<open>src/\<close>.

  \<^bold>\<open>Parts and how they interact.\<close> The backend (\<open>linux_backend/linux_backend.go\<close>) serves requests. To
  create a container it asks the resource pool (\<open>resource_pool\<close>), which takes a network from the subnet
  pool (\<open>network/subnets\<close>), a bridge from the bridge manager (\<open>network/bridgemgr\<close>) and, later, ports
  from the port pool (\<open>port_pool\<close>), sets up filter chains (\<open>network/iptables\<close>,
  \<open>linux_container/iptables_manager\<close>) and runs scripts of the depot. The container
  (\<open>linux_container\<close>) applies limits through cgroups and \<open>tc\<close>, and starts processes through the
  process tracker (\<open>process_tracker\<close>). A process goes through \<open>wsh\<close>, the daemon inside the container
  (\<open>container_daemon\<close>) with its reaper (\<open>containerizer/system\<close>), and \<open>proc_starter\<close>. The network is
  configured from a file that the set-up script writes (\<open>linux_backend/skeleton/setup.sh\<close>), by a hook on
  the host (\<open>linux_backend/hooks.go\<close>) and by the container's first process (\<open>containerizer/initc\<close>).

  \<^bold>\<open>How code is modelled.\<close> Structs are records, errors are values of the type \<open>error\<close>, and a call returns
  \<open>Ok\<close>, \<open>Err\<close> or \<open>Panic\<close> (theory \<open>Errors\<close>). A method passes its state explicitly. Calls to the outside
  (commands, files, the kernel) go through an \<open>outside\<close>, a parameter that answers each call as a
  function of all calls before it, and are recorded in a trace (\<open>World\<close>, \<open>Frame\<close>). Machine integers are
  words where overflow matters. Go's map iteration order, its goroutine schedule where one matters, the
  user database and the JSON texts of the daemon are parameters.

  \<^bold>\<open>Theories.\<close>
  \<^item> \<open>Prelude\<close>, \<open>Errors\<close>, \<open>World\<close>, \<open>Frame\<close>: shared lemmas, error values, the outside, frame rules.
  \<^item> \<open>Go_Strings\<close>, \<open>Go_Net\<close>, \<open>Go_Path\<close>, \<open>Go_Flag\<close>: the parts of Go's library that the sources use, as printing
    and parsing numbers, addresses, networks, paths and command-line flags, with their round trips.
  \<^item> \<open>Allocation\<close>: the contract of a pool that hands out resources, as a locale; the port pool and the subnet
    pool are its instances, which gives that nothing is held twice.
  \<^item> \<open>Port_Pool\<close>, \<open>Subnets\<close>, \<open>Bridge_Mgr\<close>: the pools. Nothing is shared, subnets stay disjoint, the saved
    offset resumes, the bridge maps stay inverse; and where the range check or the names wrap around.
  \<^item> \<open>Process_Env\<close>, \<open>Sysconfig\<close>, \<open>Garden_Types\<close>: environments and their round trip, server-wide names.
  \<^item> \<open>Iptables\<close>, \<open>Iptables_Mgr\<close>: the commands of rules and chains, and the roll-back of a failing set-up.
  \<^item> \<open>Cgroups\<close>, \<open>Bandwidth\<close>, \<open>Metrics\<close>: limits and measurements, with the parsers of the kernel's formats.
  \<^item> \<open>Process_Tracker\<close>: process objects as a state machine; no channel is closed twice, and what blocks.
  \<^item> \<open>Container_Spec\<close>, \<open>Container\<close>, \<open>Container_Props\<close>: the container's data, every method of it, and its
    invariants: ports are conserved, process identifiers are fresh.
  \<^item> \<open>Resource_Pool\<close>, \<open>Resource_Pool_Props\<close>, \<open>Pool_Restore\<close>: acquiring, releasing, restoring and pruning;
    what is given out is exactly what live containers hold, and releasing undoes acquiring.
  \<^item> \<open>Repository\<close>, \<open>Backend\<close>, \<open>Backend_Props\<close>: the store with its lock, the backend, and the refinement of
    the backend to a table of handles.
  \<^item> \<open>Rlimits\<close>, \<open>User_Exec\<close>, \<open>Proc_Start\<close>: limits and their encodings, directories, capabilities, and the way of a
    process from its specification to \<open>exec\<close>; a program runs only after privileges are dropped.
  \<^item> \<open>Reaper\<close>, \<open>Daemon\<close>: the reaper never blocks and delivers every status; the daemon, its socket and its
    client deliver the exit status and close the files.
  \<^item> \<open>Net_Config\<close>: devices, configuration of both sides, the configuration file and its readers; the network
    that the pool gives out is the one that is configured, and interface names do not clash.

  \<^bold>\<open>Bounds and fuel.\<close> No definition has fuel. Loops of the code over lists are recursion on the list.
  Making a directory with its parents may recurse for ever, so it is a partial function into \<open>option\<close>,
  with a theorem that it returns. A call that may block (waiting for a channel) returns \<open>option\<close>,
  \<open>None\<close> being blocked. Numbers in hypotheses are limits of the code: 32 bits for ports, 55 bits of the name
  counters, 50 bits for the digits that fit into an interface name, 63 bits for integers that are printed
  and read back.

  \<^bold>\<open>Not modelled.\<close> Log messages. The program's flags and wiring (\<open>main.go\<close>, \<open>container_daemon/initd\<close>). The
  placeholder container of \<open>YarnBackend.go\<close>. The clone, mount and pivot calls of \<open>containerizer\<close> and its
  steps, apart from the network step and the reaper: their effect is the kernel's, and the repository has
  no code for it. The I/O daemon (\<open>iodaemon\<close>) and the copying of streams, which move bytes between
  files. The device nodes and files that the shell scripts make. Queries of \<open>sysinfo\<close>, whose answers are
  values. Publishing of \<open>metrics\<close>. \<open>network/network.go\<close>, which nothing uses. Root file system providers and
  quotas, whose code is outside the repository. Tests, test helpers and generated fakes. Requests run one after
  the other, except where a theory has a step relation (allocation, process tracker, repository lock,
  reaper).
\<close>

end
